theory Spec2Isabelle
  imports Main "HOL-Library.Log_Nat"
begin

section \<open>JavaScript numbers\<close>

text \<open>
  A JavaScript Number is an IEEE 754 binary64 value. The finite values are modelled as the
  rationals they denote, and every arithmetic result is rounded to the nearest value with a
  53-bit significand, ties to the even significand (\<open>fl\<close>). The exponent is not bounded
  in \<open>fl\<close>: it agrees with binary64 arithmetic on the results that are zero or lie in the
  range of the normal numbers (\<open>binary64_normal\<close> below); overflow to Infinity, subnormal
  results, NaN and the sign of zero are outside the model.
  \<open>ilog2 x\<close> is the binary exponent of a positive \<open>x\<close>.
\<close>

definition ilog2 :: "rat \<Rightarrow> int" where
  "ilog2 x = (if 1 \<le> x then bitlen \<lfloor>x\<rfloor> - 1 else - bitlen (\<lceil>1 / x\<rceil> - 1))"

definition round_even :: "rat \<Rightarrow> int" where
  "round_even r = (let f = \<lfloor>r\<rfloor>; d = r - of_int f
     in if d < 1 / 2 then f else if 1 / 2 < d then f + 1 else if even f then f else f + 1)"

definition fl :: "rat \<Rightarrow> rat" where
  "fl x = (if x = 0 then 0
     else let a = \<bar>x\<bar>; u = 2 powi (ilog2 a - 52)
          in sgn x * of_int (round_even (a / u)) * u)"

text \<open>The operators \<open>+\<close> and \<open>*\<close> on Numbers, and the Number value of a decimal
  literal or of a decimal string (\<open>Number("12.34")\<close>, the literal \<open>0.1\<close>).\<close>

definition js_add :: "rat \<Rightarrow> rat \<Rightarrow> rat" where
  "js_add a b = fl (a + b)"

definition js_mul :: "rat \<Rightarrow> rat \<Rightarrow> rat" where
  "js_mul a b = fl (a * b)"

definition js_Number :: "rat \<Rightarrow> rat" where
  "js_Number r = fl r"

text \<open>
  \<open>x.toFixed(2)\<close>: for negative \<open>x\<close> the sign is split off; then the integer \<open>n\<close> with
  \<open>n / 100 - x\<close> closest to zero is taken, the larger one when two are equally close. The
  result is the decimal string, modelled by the rational it denotes.
\<close>

definition toFixed2 :: "rat \<Rightarrow> rat" where
  "toFixed2 x = (if x < 0 then - (of_int \<lfloor>- x * 100 + 1 / 2\<rfloor> / 100)
                 else of_int \<lfloor>x * 100 + 1 / 2\<rfloor> / 100)"

text \<open>Template literals print integers in decimal.\<close>

fun ToString_nat :: "nat \<Rightarrow> string" where
  "ToString_nat n = (if n < 10 then [''0123456789'' ! n]
                     else ToString_nat (n div 10) @ [''0123456789'' ! (n mod 10)])"

declare ToString_nat.simps [simp del]

definition ToString_int :: "int \<Rightarrow> string" where
  "ToString_int i = (if i < 0 then ''-'' @ ToString_nat (nat (- i)) else ToString_nat (nat i))"

section \<open>Dates\<close>

text \<open>
  A Date is its time value, milliseconds since the epoch in UTC. The time zone of the
  server is given by the operation \<open>LocalTZA(t, isUTC)\<close> of the language: the offset of
  local time from UTC in milliseconds, at the UTC time \<open>t\<close> when \<open>isUTC\<close> is true, and
  at the local time \<open>t\<close> otherwise. \<open>LocalTime\<close> and \<open>UTC\<close> convert with it.
\<close>

type_synonym time_zone = "int \<Rightarrow> bool \<Rightarrow> int"

definition LocalTime :: "time_zone \<Rightarrow> int \<Rightarrow> int" where
  "LocalTime LocalTZA t = t + LocalTZA t True"

definition UTC :: "time_zone \<Rightarrow> int \<Rightarrow> int" where
  "UTC LocalTZA t = t - LocalTZA t False"

definition msPerHour :: int where
  "msPerHour = 3600000"

text \<open>
  \<open>d.setHours(d.getHours() + h)\<close>: \<open>getHours\<close> and \<open>setHours\<close> work on the local time
  of \<open>d\<close>. \<open>setHours\<close> rebuilds the local time from the day, the new hour and the old
  minutes, seconds and milliseconds, which moves it by \<open>h\<close> hours, and converts the
  result back to UTC.
\<close>

definition setHours_getHours_plus :: "time_zone \<Rightarrow> int \<Rightarrow> int \<Rightarrow> int" where
  "setHours_getHours_plus LocalTZA h t = UTC LocalTZA (LocalTime LocalTZA t + h * msPerHour)"

section \<open>Array helpers\<close>

text \<open>\<open>Array.prototype.findIndex\<close>; \<open>None\<close> stands for -1.\<close>

fun findIndex :: "('a \<Rightarrow> bool) \<Rightarrow> 'a list \<Rightarrow> nat option" where
  "findIndex P [] = None"
| "findIndex P (x # xs) = (if P x then Some 0 else map_option Suc (findIndex P xs))"

text \<open>\<open>items.splice(i, 1)\<close>.\<close>

definition splice1 :: "nat \<Rightarrow> 'a list \<Rightarrow> 'a list" where
  "splice1 i xs = take i xs @ drop (Suc i) xs"

text \<open>
  An \<open>async\<close> function returns a promise at once; the value it settles to is known only
  later. A promise is an object, and \<open>ToBoolean\<close> of an object is true.
\<close>

datatype 'a promise = Promise 'a

fun ToBoolean_promise :: "'a promise \<Rightarrow> bool" where
  "ToBoolean_promise (Promise v) = True"

text \<open>\<open>!s\<close> for a field that holds a string or is absent: true when the field is
  absent or the string is empty.\<close>

definition falsy :: "string option \<Rightarrow> bool" where
  "falsy f \<longleftrightarrow> f = None \<or> f = Some []"

section \<open>ObjectIds\<close>

text \<open>
  An ObjectId is a value of 96 bits, modelled by a natural number; the store hands out
  the \<open>_id\<close> of a new document from a counter. \<open>toString()\<close> of an ObjectId is its 24
  hexadecimal digits in lower case. A request carries ids as strings. Where Mongoose
  casts such a string to an ObjectId (in \<open>findById\<close>, in a path of type ObjectId that is
  assigned, in \<open>items.id\<close>) it accepts 24 hexadecimal digits in either case and refuses
  any other string.
\<close>

type_synonym objectId = nat

definition hexdigit :: "nat \<Rightarrow> char" where
  "hexdigit n = ''0123456789abcdef'' ! n"

fun hexn :: "nat \<Rightarrow> nat \<Rightarrow> string" where
  "hexn 0 n = []"
| "hexn (Suc k) n = hexn k (n div 16) @ [hexdigit (n mod 16)]"

definition ObjectId_toString :: "objectId \<Rightarrow> string" where
  "ObjectId_toString i = hexn 24 i"

definition hexval :: "char \<Rightarrow> nat option" where
  "hexval c = (case findIndex (\<lambda>x. x = c) ''0123456789abcdef'' of
                 Some v \<Rightarrow> Some v
               | None \<Rightarrow> map_option (\<lambda>v. v + 10) (findIndex (\<lambda>x. x = c) ''ABCDEF''))"

definition parseHex :: "string \<Rightarrow> nat option" where
  "parseHex s = foldl (\<lambda>acc c. case acc of None \<Rightarrow> None
                                 | Some a \<Rightarrow> map_option (\<lambda>v. 16 * a + v) (hexval c)) (Some 0) s"

definition castObjectId :: "string \<Rightarrow> objectId option" where
  "castObjectId s = (if length s = 24 then parseHex s else None)"

section \<open>Documents\<close>

text \<open>A field that the schema does not require and that was never written is \<open>None\<close>.\<close>

record cart_item =
  item_id :: objectId
  product :: objectId
  variant :: "objectId option"
  quantity :: int
  price :: rat

record cart_totals =
  subtotal :: rat
  tax :: rat
  total :: rat

record cart =
  cart_id :: objectId
  sessionId :: string
  items :: "cart_item list"
  status :: string
  totals :: cart_totals
  updatedAt :: "nat option"

record product_doc =
  product_price :: rat
  isActive :: bool
  inventory_quantity :: int
  inventory_reserved :: int

record shipping_info =
  shipping_method :: string
  cost :: rat

record order =
  order_id :: objectId
  orderNumber :: string
  customer :: objectId
  order_items :: "cart_item list"
  order_subtotal :: rat
  order_tax :: rat
  shipping :: shipping_info
  order_total :: rat
  order_status :: string
  paymentStatus :: string
  paymentMethod :: string

text \<open>The database: the Cart and Order collections and the ObjectId counter. The Product
  collection belongs to another part of the system and is passed to each request as a
  finite map.\<close>

record db =
  carts :: "cart list"
  orders :: "order list"
  next_id :: nat

type_synonym product_directory = "objectId \<rightharpoonup> product_doc"

definition init_db :: db where
  "init_db = \<lparr>carts = [], orders = [], next_id = 0\<rparr>"

section \<open>Errors and responses\<close>

text \<open>
  \<open>HttpError\<close> is the class of utils.js (status code, message). The others are raised by
  the storage layer: an insert that violates a \<open>unique: true\<close> index of the schema, a
  save that violates a schema validator or holds a value that could not be cast to the
  type of its path, and a query whose \<open>_id\<close> cannot be cast to an ObjectId.
  \<open>asyncHandler\<close> answers an error with \<open>error.statusCode || 500\<close>.
\<close>

datatype error =
  HttpError nat string
  | MongoDuplicateKey string
  | MongooseValidationError string
  | MongooseCastError string

fun statusCode :: "error \<Rightarrow> nat" where
  "statusCode (HttpError c m) = c"
| "statusCode (MongoDuplicateKey k) = 500"
| "statusCode (MongooseValidationError p) = 500"
| "statusCode (MongooseCastError p) = 500"

datatype payload = CartDoc cart | OrderDoc order | MessageDoc string

type_synonym response = "error + payload"

section \<open>Cart controller\<close>

definition CART_EXPIRATION_HOURS :: nat where
  "CART_EXPIRATION_HOURS = 24"

definition MAX_ITEMS_PER_CART :: nat where
  "MAX_ITEMS_PER_CART = 50"

definition MIN_QUANTITY_PER_ITEM :: int where
  "MIN_QUANTITY_PER_ITEM = 1"

definition MAX_QUANTITY_PER_ITEM :: int where
  "MAX_QUANTITY_PER_ITEM = 10"

text \<open>The three local constants of \<open>calculateCartTotals\<close> before rounding.\<close>

definition cart_subtotal :: "cart_item list \<Rightarrow> rat" where
  "cart_subtotal its = foldl (\<lambda>sum item. js_add sum (js_mul (price item) (of_int (quantity item)))) 0 its"

definition cart_tax :: "cart_item list \<Rightarrow> rat" where
  "cart_tax its = js_mul (cart_subtotal its) (js_Number (1 / 10))"

definition cart_total :: "cart_item list \<Rightarrow> rat" where
  "cart_total its = js_add (cart_subtotal its) (cart_tax its)"

definition calculateCartTotals :: "cart_item list \<Rightarrow> cart_totals" where
  "calculateCartTotals its =
     \<lparr>subtotal = js_Number (toFixed2 (cart_subtotal its)),
      tax = js_Number (toFixed2 (cart_tax its)),
      total = js_Number (toFixed2 (cart_total its))\<rparr>"

text \<open>
  \<open>isCartExpired\<close>: a copy of \<open>updatedAt\<close> is moved ahead by 24 hours of local time
  with \<open>setHours(getHours() + 24)\<close>, and the cart is expired when the current time lies
  after it. A cart that was never given an \<open>updatedAt\<close> yields an invalid Date, and
  every comparison with it is false.
\<close>

definition isCartExpired :: "time_zone \<Rightarrow> nat \<Rightarrow> cart \<Rightarrow> bool" where
  "isCartExpired LocalTZA now c =
     (case updatedAt c of
        None \<Rightarrow> False
      | Some t \<Rightarrow> setHours_getHours_plus LocalTZA (int CART_EXPIRATION_HOURS) (int t) < int now)"

subsection \<open>The Cart collection\<close>

definition Cart_findOne :: "string \<Rightarrow> db \<Rightarrow> cart option" where
  "Cart_findOne sid d = find (\<lambda>c. sessionId c = sid) (carts d)"

definition Cart_findOne_active :: "string \<Rightarrow> db \<Rightarrow> cart option" where
  "Cart_findOne_active sid d = find (\<lambda>c. sessionId c = sid \<and> status c = ''active'') (carts d)"

text \<open>\<open>cart.save()\<close> writes the document back under its \<open>_id\<close>. Its validators (a
  product, a price and a quantity of at least 1 in every line, a status of the enum) hold
  for every document that the controllers below hand to it, so it is modelled as a write
  that is never refused; a value that cannot be cast is refused by the controller that
  assigns it.\<close>

definition Cart_save :: "cart \<Rightarrow> db \<Rightarrow> db" where
  "Cart_save c d = d\<lparr>carts := map (\<lambda>x. if cart_id x = cart_id c then c else x) (carts d)\<rparr>"

text \<open>\<open>Cart.findByIdAndUpdate(id, {status, updatedAt})\<close>; it runs no validators.\<close>

definition Cart_findByIdAndUpdate :: "objectId \<Rightarrow> string \<Rightarrow> nat \<Rightarrow> db \<Rightarrow> db" where
  "Cart_findByIdAndUpdate i st now d =
     d\<lparr>carts := map (\<lambda>x. if cart_id x = i then x\<lparr>status := st, updatedAt := Some now\<rparr> else x) (carts d)\<rparr>"

text \<open>\<open>Cart.create\<close>: the schema declares \<open>sessionId\<close> unique, so the insert is refused
  while any cart with that sessionId is stored. The new document has no \<open>updatedAt\<close>.\<close>

definition Cart_create :: "string \<Rightarrow> db \<Rightarrow> error + (cart \<times> db)" where
  "Cart_create sid d =
     (if \<exists>c \<in> set (carts d). sessionId c = sid then Inl (MongoDuplicateKey ''sessionId'')
      else let c = \<lparr>cart_id = next_id d, sessionId = sid, items = [], status = ''active'',
                     totals = \<lparr>subtotal = 0, tax = 0, total = 0\<rparr>, updatedAt = None\<rparr>
           in Inr (c, d\<lparr>carts := carts d @ [c], next_id := next_id d + 1\<rparr>))"

fun remove_first :: "('a \<Rightarrow> bool) \<Rightarrow> 'a list \<Rightarrow> 'a list" where
  "remove_first P [] = []"
| "remove_first P (x # xs) = (if P x then xs else x # remove_first P xs)"

definition Cart_findOneAndDelete :: "string \<Rightarrow> db \<Rightarrow> db" where
  "Cart_findOneAndDelete sid d = d\<lparr>carts := remove_first (\<lambda>c. sessionId c = sid) (carts d)\<rparr>"

subsection \<open>createCartController\<close>

text \<open>A missing field and the empty string are both falsy.\<close>

definition createCartController :: "time_zone \<Rightarrow> nat \<Rightarrow> db \<Rightarrow> string option \<Rightarrow> response \<times> db" where
  "createCartController LocalTZA now d sessionId_field =
     (case sessionId_field of
        None \<Rightarrow> (Inl (HttpError 400 ''Session ID is required''), d)
      | Some sid \<Rightarrow>
     if sid = [] then (Inl (HttpError 400 ''Session ID is required''), d)
     else
       (case Cart_findOne sid d of
          Some existingCart \<Rightarrow>
            if isCartExpired LocalTZA now existingCart then
              let d1 = Cart_findByIdAndUpdate (cart_id existingCart) ''expired'' now d
              in (case Cart_create sid d1 of
                    Inl e \<Rightarrow> (Inl e, d1)
                  | Inr (c, d2) \<Rightarrow> (Inr (CartDoc c), d2))
            else (Inl (HttpError 400 ''Active cart already exists for this session''), d)
        | None \<Rightarrow>
            (case Cart_create sid d of
               Inl e \<Rightarrow> (Inl e, d)
             | Inr (c, d2) \<Rightarrow> (Inr (CartDoc c), d2))))"

subsection \<open>mergeCartsController\<close>

text \<open>The test of the \<open>find\<close> in the merge loop. Both sides are stored ObjectIds, and
  their strings are equal exactly when the ids are: same product, and same variant
  unless the source item has none.\<close>

definition line_matches :: "objectId \<Rightarrow> objectId option \<Rightarrow> cart_item \<Rightarrow> bool" where
  "line_matches pid vid item \<longleftrightarrow> product item = pid \<and> (vid = None \<or> variant item = vid)"

text \<open>One iteration of the merge loop on the target's items.\<close>

definition mergeItem :: "cart_item list \<Rightarrow> cart_item \<Rightarrow> cart_item list" where
  "mergeItem target sourceItem =
     (case findIndex (line_matches (product sourceItem) (variant sourceItem)) target of
        Some i \<Rightarrow>
          target[i := (target ! i)\<lparr>quantity :=
                        min (quantity (target ! i) + quantity sourceItem) MAX_QUANTITY_PER_ITEM\<rparr>]
      | None \<Rightarrow>
          if MAX_ITEMS_PER_CART \<le> length target then target
          else target @ [sourceItem])"

definition mergeCartsController ::
  "nat \<Rightarrow> db \<Rightarrow> string option \<Rightarrow> string option \<Rightarrow> response \<times> db" where
  "mergeCartsController now d sourceSessionId_field targetSessionId_field =
     (case (sourceSessionId_field, targetSessionId_field) of
        (Some sourceSessionId, Some targetSessionId) \<Rightarrow>
          if sourceSessionId = [] \<or> targetSessionId = []
          then (Inl (HttpError 400 ''Both source and target session IDs are required''), d)
          else
            (case (Cart_findOne_active sourceSessionId d, Cart_findOne_active targetSessionId d) of
               (Some sourceCart, Some targetCart) \<Rightarrow>
                 let merged = foldl mergeItem (items targetCart) (items sourceCart);
                     updatedCart = targetCart\<lparr>items := merged,
                                              totals := calculateCartTotals merged,
                                              updatedAt := Some now\<rparr>;
                     d1 = Cart_save updatedCart d;
                     d2 = Cart_findByIdAndUpdate (cart_id sourceCart) ''merged'' now d1
                 in (Inr (CartDoc updatedCart), d2)
             | _ \<Rightarrow> (Inl (HttpError 404 ''Source or target cart not found''), d))
      | _ \<Rightarrow> (Inl (HttpError 400 ''Both source and target session IDs are required''), d))"

subsection \<open>getCartBySessionController\<close>

text \<open>
  The callback handed to \<open>filter\<close> is an \<open>async\<close> function: what \<open>filter\<close> sees for each
  item is the promise, whatever the product lookup will say. The lookups settle after a
  round trip to the database; \<open>Promise.all\<close> of the kept items, which are no promises,
  settles before that, so \<open>needsUpdate\<close> still holds its initial \<open>false\<close> when it is read.
\<close>

definition availabilityCallback :: "product_directory \<Rightarrow> cart_item \<Rightarrow> bool promise" where
  "availabilityCallback prods item =
     Promise (case prods (product item) of
                None \<Rightarrow> False
              | Some p \<Rightarrow> \<not> (\<not> isActive p \<or> inventory_quantity p < quantity item))"

definition getCartBySessionController ::
  "time_zone \<Rightarrow> nat \<Rightarrow> product_directory \<Rightarrow> db \<Rightarrow> string \<Rightarrow> response \<times> db" where
  "getCartBySessionController LocalTZA now prods d sid =
     (case Cart_findOne sid d of
        None \<Rightarrow> (Inl (HttpError 404 ''Cart not found''), d)
      | Some c \<Rightarrow>
          if isCartExpired LocalTZA now c
          then (Inl (HttpError 400 ''Cart has expired''), Cart_save (c\<lparr>status := ''expired''\<rparr>) d)
          else
            let needsUpdate = False;
                c1 = c\<lparr>items := filter (\<lambda>item. ToBoolean_promise (availabilityCallback prods item)) (items c)\<rparr>
            in if needsUpdate
               then let c2 = c1\<lparr>totals := calculateCartTotals (items c1), updatedAt := Some now\<rparr>
                    in (Inr (CartDoc c2), Cart_save c2 d)
               else (Inr (CartDoc c1), d))"

subsection \<open>addCartItemController\<close>

text \<open>
  The test of the \<open>findIndex\<close>: \<open>item.product.toString() === productId\<close> and
  \<open>!variantId || item.variant?.toString() === variantId\<close>. The right-hand sides are
  the strings of the request, compared as strings with the lower-case strings of the
  stored ids.
\<close>

definition line_selected :: "string \<Rightarrow> string option \<Rightarrow> cart_item \<Rightarrow> bool" where
  "line_selected productId variantId item \<longleftrightarrow>
     ObjectId_toString (product item) = productId
     \<and> (falsy variantId \<or> map_option ObjectId_toString (variant item) = variantId)"

text \<open>
  \<open>Product.findById(productId)\<close> casts the string and fails when it cannot. A new line
  takes \<open>productId\<close> and \<open>variantId\<close> into paths of type ObjectId; a \<open>variantId\<close> that
  cannot be cast makes the save fail, and nothing is written.
\<close>

definition addCartItemController ::
  "time_zone \<Rightarrow> nat \<Rightarrow> product_directory \<Rightarrow> db \<Rightarrow> string \<Rightarrow> string option \<Rightarrow> int option
     \<Rightarrow> string option \<Rightarrow> response \<times> db" where
  "addCartItemController LocalTZA now prods d sid productId_field quantity_field variantId =
     (case productId_field of
        None \<Rightarrow> (Inl (HttpError 400 ''Product ID is required''), d)
      | Some productId \<Rightarrow>
     if productId = [] then (Inl (HttpError 400 ''Product ID is required''), d)
     else
     let qty = (case quantity_field of None \<Rightarrow> 1 | Some q \<Rightarrow> q) in
     if qty < MIN_QUANTITY_PER_ITEM \<or> MAX_QUANTITY_PER_ITEM < qty
     then (Inl (HttpError 400 ''Quantity must be between 1 and 10''), d)
     else
     (case Cart_findOne sid d of
        None \<Rightarrow> (Inl (HttpError 404 ''Cart not found''), d)
      | Some c \<Rightarrow>
     if isCartExpired LocalTZA now c
     then (Inl (HttpError 400 ''Cart has expired''), Cart_save (c\<lparr>status := ''expired''\<rparr>) d)
     else if status c \<noteq> ''active''
     then (Inl (HttpError 400 ''Cart is no longer active''), d)
     else if MAX_ITEMS_PER_CART \<le> length (items c)
     then (Inl (HttpError 400 ''Cart cannot contain more than 50 items''), d)
     else
     (case castObjectId productId of
        None \<Rightarrow> (Inl (MongooseCastError ''_id''), d)
      | Some pid \<Rightarrow>
     (case prods pid of
        None \<Rightarrow> (Inl (HttpError 404 ''Product not found''), d)
      | Some p \<Rightarrow>
     if \<not> isActive p then (Inl (HttpError 404 ''Product is inactive''), d)
     else
     let availableQuantity = inventory_quantity p - inventory_reserved p in
     if availableQuantity < qty
     then (Inl (HttpError 400 (''Only '' @ ToString_int availableQuantity @ '' items available'')), d)
     else
     (case findIndex (line_selected productId variantId) (items c) of
        Some existingItemIndex \<Rightarrow>
          let newQuantity = quantity (items c ! existingItemIndex) + qty in
          if MAX_QUANTITY_PER_ITEM < newQuantity
          then (Inl (HttpError 400 ''Cannot add more than 10 units of an item''), d)
          else
            let its = (items c)[existingItemIndex :=
                         (items c ! existingItemIndex)\<lparr>quantity := newQuantity\<rparr>];
                updatedCart = c\<lparr>items := its, totals := calculateCartTotals its,
                                updatedAt := Some now\<rparr>
            in (Inr (CartDoc updatedCart), Cart_save updatedCart d)
      | None \<Rightarrow>
     (case (case variantId of None \<Rightarrow> Some None | Some v \<Rightarrow> map_option Some (castObjectId v)) of
        None \<Rightarrow> (Inl (MongooseValidationError ''items.variant''), d)
      | Some vid \<Rightarrow>
          let its = items c @ [\<lparr>item_id = next_id d, product = pid, variant = vid,
                                 quantity = qty, price = product_price p\<rparr>];
              updatedCart = c\<lparr>items := its, totals := calculateCartTotals its,
                              updatedAt := Some now\<rparr>
          in (Inr (CartDoc updatedCart), Cart_save updatedCart (d\<lparr>next_id := next_id d + 1\<rparr>))))))))"

subsection \<open>updateCartItemController\<close>

text \<open>\<open>!quantity\<close> holds for a missing quantity and for 0. \<open>cart.items.id(itemId)\<close>
  casts \<open>itemId\<close> and looks for the line with that \<open>_id\<close>; it finds none when the cast
  fails.\<close>

definition updateCartItemController ::
  "time_zone \<Rightarrow> nat \<Rightarrow> product_directory \<Rightarrow> db \<Rightarrow> string \<Rightarrow> string \<Rightarrow> int option
     \<Rightarrow> response \<times> db" where
  "updateCartItemController LocalTZA now prods d sid itemId quantity_field =
     (case quantity_field of
        None \<Rightarrow> (Inl (HttpError 400 ''Quantity must be between 1 and 10''), d)
      | Some qty \<Rightarrow>
     if qty = 0 \<or> qty < MIN_QUANTITY_PER_ITEM \<or> MAX_QUANTITY_PER_ITEM < qty
     then (Inl (HttpError 400 ''Quantity must be between 1 and 10''), d)
     else
     (case Cart_findOne sid d of
        None \<Rightarrow> (Inl (HttpError 404 ''Cart not found''), d)
      | Some c \<Rightarrow>
     if isCartExpired LocalTZA now c
     then (Inl (HttpError 400 ''Cart has expired''), Cart_save (c\<lparr>status := ''expired''\<rparr>) d)
     else if status c \<noteq> ''active''
     then (Inl (HttpError 400 ''Cart is no longer active''), d)
     else
     (case (case castObjectId itemId of
              None \<Rightarrow> None
            | Some casted \<Rightarrow> findIndex (\<lambda>item. item_id item = casted) (items c)) of
        None \<Rightarrow> (Inl (HttpError 404 ''Item not found in cart''), d)
      | Some i \<Rightarrow>
     (case prods (product (items c ! i)) of
        None \<Rightarrow> (Inl (HttpError 404 ''Product no longer available''), d)
      | Some p \<Rightarrow>
     if \<not> isActive p then (Inl (HttpError 404 ''Product no longer available''), d)
     else
     let availableQuantity = inventory_quantity p - inventory_reserved p in
     if availableQuantity < qty
     then (Inl (HttpError 400 (''Only '' @ ToString_int availableQuantity @ '' items available'')), d)
     else
       let its = (items c)[i := (items c ! i)\<lparr>quantity := qty\<rparr>];
           updatedCart = c\<lparr>items := its, totals := calculateCartTotals its,
                           updatedAt := Some now\<rparr>
       in (Inr (CartDoc updatedCart), Cart_save updatedCart d)))))"

subsection \<open>removeCartItemController\<close>

text \<open>The line is looked up with \<open>item._id.toString() === itemId\<close>, a comparison of
  strings.\<close>

definition removeCartItemController ::
  "time_zone \<Rightarrow> nat \<Rightarrow> db \<Rightarrow> string \<Rightarrow> string \<Rightarrow> response \<times> db" where
  "removeCartItemController LocalTZA now d sid itemId =
     (case Cart_findOne sid d of
        None \<Rightarrow> (Inl (HttpError 404 ''Cart not found''), d)
      | Some c \<Rightarrow>
     if isCartExpired LocalTZA now c
     then (Inl (HttpError 400 ''Cart has expired''), Cart_save (c\<lparr>status := ''expired''\<rparr>) d)
     else if status c \<noteq> ''active''
     then (Inl (HttpError 400 ''Cart is no longer active''), d)
     else
     (case findIndex (\<lambda>item. ObjectId_toString (item_id item) = itemId) (items c) of
        None \<Rightarrow> (Inl (HttpError 404 ''Item not found in cart''), d)
      | Some itemIndex \<Rightarrow>
          let its = splice1 itemIndex (items c);
              updatedCart = c\<lparr>items := its, totals := calculateCartTotals its,
                              updatedAt := Some now\<rparr>
          in (Inr (CartDoc updatedCart), Cart_save updatedCart d)))"

subsection \<open>clearCartController\<close>

definition clearCartController :: "time_zone \<Rightarrow> nat \<Rightarrow> db \<Rightarrow> string \<Rightarrow> response \<times> db" where
  "clearCartController LocalTZA now d sid =
     (case Cart_findOne sid d of
        None \<Rightarrow> (Inl (HttpError 404 ''Cart not found''), d)
      | Some c \<Rightarrow>
     if isCartExpired LocalTZA now c
     then (Inl (HttpError 404 ''Cart has expired''), Cart_save (c\<lparr>status := ''expired''\<rparr>) d)
     else if status c \<noteq> ''active''
     then (Inl (HttpError 404 ''Cart is no longer active''), d)
     else
       let c1 = c\<lparr>items := [], totals := \<lparr>subtotal = 0, tax = 0, total = 0\<rparr>,
                   updatedAt := Some now\<rparr>
       in (Inr (MessageDoc ''Cart cleared successfully''), Cart_save c1 d))"

section \<open>Order controller\<close>

subsection \<open>The Order collection\<close>

text \<open>\<open>Order.create\<close>: the schema declares \<open>orderNumber\<close> unique, so the insert is refused
  while an order with that number is stored.\<close>

definition Order_create :: "order \<Rightarrow> db \<Rightarrow> error + (order \<times> db)" where
  "Order_create doc d =
     (if \<exists>x \<in> set (orders d). orderNumber x = orderNumber doc
      then Inl (MongoDuplicateKey ''orderNumber'')
      else let ord = doc\<lparr>order_id := next_id d\<rparr>
           in Inr (ord, d\<lparr>orders := orders d @ [ord], next_id := next_id d + 1\<rparr>))"

definition Order_findOne :: "string \<Rightarrow> db \<Rightarrow> order option" where
  "Order_findOne num d = find (\<lambda>x. orderNumber x = num) (orders d)"

text \<open>The \<open>enum\<close> validators of the order schema.\<close>

definition orderSchema_status_enum :: "string list" where
  "orderSchema_status_enum = [''pending'', ''processing'', ''shipped'', ''delivered'', ''cancelled'']"

definition orderSchema_paymentStatus_enum :: "string list" where
  "orderSchema_paymentStatus_enum = [''pending'', ''paid'', ''failed'']"

text \<open>\<open>order.save()\<close> validates the document and then writes it back under its
  \<open>_id\<close>. Of the validators, the two \<open>enum\<close>s can fail. A path that was not modified
  since the document was loaded (\<open>loaded\<close>) holds a value that passed them when it was
  stored, by \<open>Order.create\<close> or by an earlier save, so they are tested on the modified
  paths.\<close>

definition Order_save :: "order \<Rightarrow> order \<Rightarrow> db \<Rightarrow> error + db" where
  "Order_save loaded doc d =
     (if order_status doc \<noteq> order_status loaded \<and> order_status doc \<notin> set orderSchema_status_enum
      then Inl (MongooseValidationError ''status'')
      else if paymentStatus doc \<noteq> paymentStatus loaded
              \<and> paymentStatus doc \<notin> set orderSchema_paymentStatus_enum
      then Inl (MongooseValidationError ''paymentStatus'')
      else Inr (d\<lparr>orders := map (\<lambda>x. if order_id x = order_id doc then doc else x) (orders d)\<rparr>))"

subsection \<open>createOrderController\<close>

text \<open>The controller answers its failures itself (400, 404, and 500 from its \<open>catch\<close>);
  they are given as \<open>HttpError\<close> values with the \<open>error\<close> field of the body.\<close>

definition order_subtotal_of :: "cart_item list \<Rightarrow> rat" where
  "order_subtotal_of its = foldl (\<lambda>sum item. js_add sum (js_mul (price item) (of_int (quantity item)))) 0 its"

definition createOrderController ::
  "nat \<Rightarrow> db \<Rightarrow> string option \<Rightarrow> objectId option \<Rightarrow> string option \<Rightarrow> shipping_info option
     \<Rightarrow> response \<times> db" where
  "createOrderController now d sessionId_field customer_field paymentMethod_field shipping_field =
     (case (sessionId_field, customer_field, paymentMethod_field, shipping_field) of
        (Some sid, Some cust, Some pm, Some sh) \<Rightarrow>
          if sid = [] \<or> pm = [] then (Inl (HttpError 400 ''Missing required fields''), d)
          else
          (case Cart_findOne sid d of
             None \<Rightarrow> (Inl (HttpError 404 ''Cart not found or empty''), d)
           | Some c \<Rightarrow>
          if length (items c) = 0 then (Inl (HttpError 404 ''Cart not found or empty''), d)
          else
            let sub = order_subtotal_of (items c);
                tx = js_mul sub (js_Number (9 / 100));
                tot = js_add (js_add sub tx) (cost sh)
            in (case Order_create
                       \<lparr>order_id = 0, orderNumber = ''ORD-'' @ ToString_nat now, customer = cust,
                        order_items = items c, order_subtotal = sub, order_tax = tx,
                        shipping = sh, order_total = tot, order_status = ''pending'',
                        paymentStatus = ''pending'', paymentMethod = pm\<rparr> d of
                  Inl e \<Rightarrow> (Inl (HttpError 500 ''Failed to create order''), d)
                | Inr (ord, d1) \<Rightarrow> (Inr (OrderDoc ord), Cart_findOneAndDelete sid d1)))
      | _ \<Rightarrow> (Inl (HttpError 400 ''Missing required fields''), d))"

subsection \<open>getOrderByNumberController\<close>

definition getOrderByNumberController :: "db \<Rightarrow> string \<Rightarrow> response \<times> db" where
  "getOrderByNumberController d num =
     (case Order_findOne num d of
        None \<Rightarrow> (Inl (HttpError 404 (''No order found with order number: '' @ num)), d)
      | Some ord \<Rightarrow> (Inr (OrderDoc ord), d))"

subsection \<open>updateOrderStatusController\<close>

definition validStatuses :: "string list" where
  "validStatuses = [''pending'', ''processing'', ''shipped'', ''delivered'', ''cancelled'']"

definition updateOrderStatusController :: "db \<Rightarrow> string \<Rightarrow> string option \<Rightarrow> response \<times> db" where
  "updateOrderStatusController d num status_field =
     (case status_field of
        None \<Rightarrow> (Inl (HttpError 400
          ''Order status must be one of: pending, processing, shipped, delivered, cancelled''), d)
      | Some st \<Rightarrow>
     if st = [] \<or> st \<notin> set validStatuses
     then (Inl (HttpError 400
          ''Order status must be one of: pending, processing, shipped, delivered, cancelled''), d)
     else
     (case Order_findOne num d of
        None \<Rightarrow> (Inl (HttpError 404 (''No order found with order number: '' @ num)), d)
      | Some ord \<Rightarrow>
          let o1 = ord\<lparr>order_status := st\<rparr>;
              o2 = (if st = ''cancelled'' \<and> paymentStatus o1 = ''paid''
                    then o1\<lparr>paymentStatus := ''pending''\<rparr> else o1)
          in (case Order_save ord o2 d of
                Inl e \<Rightarrow> (Inl e, d)
              | Inr d1 \<Rightarrow> (Inr (OrderDoc o2), d1))))"

subsection \<open>updatePaymentStatusController\<close>

definition validPaymentStatuses :: "string list" where
  "validPaymentStatuses =
     [''pending'', ''processing'', ''paid'', ''failed'', ''refunded'', ''refund_pending'']"

definition updatePaymentStatusController :: "db \<Rightarrow> string \<Rightarrow> string option \<Rightarrow> response \<times> db" where
  "updatePaymentStatusController d num paymentStatus_field =
     (case paymentStatus_field of
        None \<Rightarrow> (Inl (HttpError 400
          ''Payment status must be one of: pending, processing, paid, failed, refunded, refund_pending''), d)
      | Some ps \<Rightarrow>
     if ps = [] \<or> ps \<notin> set validPaymentStatuses
     then (Inl (HttpError 400
          ''Payment status must be one of: pending, processing, paid, failed, refunded, refund_pending''), d)
     else
     (case Order_findOne num d of
        None \<Rightarrow> (Inl (HttpError 404 (''No order found with order number: '' @ num)), d)
      | Some ord \<Rightarrow>
          let o1 = ord\<lparr>paymentStatus := ps\<rparr>;
              o2 = (if ps = ''paid'' \<and> order_status o1 = ''pending''
                    then o1\<lparr>order_status := ''processing''\<rparr> else o1)
          in (case Order_save ord o2 d of
                Inl e \<Rightarrow> (Inl e, d)
              | Inr d1 \<Rightarrow> (Inr (OrderDoc o2), d1))))"
section \<open>Requests\<close>

text \<open>One constructor per controller, with the fields it reads from the request. A
  request is served at a time \<open>now\<close> against the product directory of that moment, on
  a server in the time zone \<open>LocalTZA\<close>.\<close>

datatype request =
  CreateCart "string option"
  | MergeCarts "string option" "string option"
  | GetCart string
  | AddCartItem string "string option" "int option" "string option"
  | UpdateCartItem string string "int option"
  | RemoveCartItem string string
  | ClearCart string
  | CreateOrder "string option" "objectId option" "string option" "shipping_info option"
  | GetOrder string
  | UpdateOrderStatus string "string option"
  | UpdatePaymentStatus string "string option"

fun handle :: "time_zone \<Rightarrow> nat \<Rightarrow> product_directory \<Rightarrow> db \<Rightarrow> request \<Rightarrow> response \<times> db" where
  "handle tz now prods d (CreateCart sid) = createCartController tz now d sid"
| "handle tz now prods d (MergeCarts src tgt) = mergeCartsController now d src tgt"
| "handle tz now prods d (GetCart sid) = getCartBySessionController tz now prods d sid"
| "handle tz now prods d (AddCartItem sid pid q vid) = addCartItemController tz now prods d sid pid q vid"
| "handle tz now prods d (UpdateCartItem sid iid q) = updateCartItemController tz now prods d sid iid q"
| "handle tz now prods d (RemoveCartItem sid iid) = removeCartItemController tz now d sid iid"
| "handle tz now prods d (ClearCart sid) = clearCartController tz now d sid"
| "handle tz now prods d (CreateOrder sid cust pm sh) = createOrderController now d sid cust pm sh"
| "handle tz now prods d (GetOrder num) = getOrderByNumberController d num"
| "handle tz now prods d (UpdateOrderStatus num st) = updateOrderStatusController d num st"
| "handle tz now prods d (UpdatePaymentStatus num ps) = updatePaymentStatusController d num ps"

type_synonym event = "nat \<times> product_directory \<times> request"

definition step :: "time_zone \<Rightarrow> db \<Rightarrow> event \<Rightarrow> db" where
  "step tz d ev = (case ev of (now, prods, r) \<Rightarrow> snd (handle tz now prods d r))"

definition run :: "time_zone \<Rightarrow> db \<Rightarrow> event list \<Rightarrow> db" where
  "run tz d evs = foldl (step tz) d evs"

text \<open>
  A request names an id in stored form when the string is the one that \<open>toString()\<close>
  gives for an ObjectId: 24 hexadecimal digits with the letters in lower case. An absent
  or empty field names no id. Only \<open>addCartItemController\<close> compares the strings
  of a request with the strings of stored ids of products and variants.
\<close>

definition stored_form :: "string option \<Rightarrow> bool" where
  "stored_form f = (case f of
                      None \<Rightarrow> True
                    | Some s \<Rightarrow> s = [] \<or> (case castObjectId s of
                                             None \<Rightarrow> False
                                           | Some i \<Rightarrow> ObjectId_toString i = s))"

fun ids_in_stored_form :: "request \<Rightarrow> bool" where
  "ids_in_stored_form (AddCartItem sid pid q vid) = (stored_form pid \<and> stored_form vid)"
| "ids_in_stored_form r = True"

section \<open>Stated properties\<close>

text \<open>
  \<open>rounds_half_up_2dp x n\<close>: the amount of \<open>n\<close> hundredths is \<open>x\<close> rounded to two decimal
  places, half up: it is nearer to \<open>x\<close> than every other amount with two decimals, or
  \<open>x\<close> lies halfway between two of them and it is the one of larger magnitude.
\<close>

definition rounds_half_up_2dp :: "rat \<Rightarrow> int \<Rightarrow> bool" where
  "rounds_half_up_2dp x n \<longleftrightarrow>
     \<bar>of_int n / 100 - x\<bar> < 1 / 200
     \<or> (\<bar>of_int n / 100 - x\<bar> = 1 / 200 \<and> \<bar>x\<bar> < \<bar>of_int n / 100\<bar>)"

text \<open>
  The amounts of the specification, in exact arithmetic: the sum of price times quantity,
  10 percent of it, and their sum.
\<close>

definition spec_subtotal :: "cart_item list \<Rightarrow> rat" where
  "spec_subtotal its = sum_list (map (\<lambda>item. price item * of_int (quantity item)) its)"

definition spec_tax :: "cart_item list \<Rightarrow> rat" where
  "spec_tax its = spec_subtotal its * (1 / 10)"

definition spec_total :: "cart_item list \<Rightarrow> rat" where
  "spec_total its = spec_subtotal its + spec_tax its"

text \<open>
  \<open>within_roundings k a v\<close>: the value \<open>v\<close> differs from the non-negative amount \<open>a\<close>
  by no more than \<open>k\<close> roundings to 53 bits can make it differ, each of which changes
  a value by at most the fraction \<open>unit_roundoff\<close> of it.
\<close>

definition unit_roundoff :: rat where
  "unit_roundoff = 1 / 2 ^ 53"

definition within_roundings :: "nat \<Rightarrow> rat \<Rightarrow> rat \<Rightarrow> bool" where
  "within_roundings k a v \<longleftrightarrow>
     (1 - unit_roundoff) ^ k * a \<le> v \<and> v \<le> (1 + unit_roundoff) ^ k * a"

text \<open>
  The inputs on which the number model above is binary64 arithmetic: every price and
  quantity is a Number, and every result of \<open>calculateCartTotals\<close> on the way (the
  products, the running sums, the tax, the total, and the three Numbers read back from
  the strings of \<open>toFixed\<close>) is zero or in the range of the normal numbers, before and
  after it is rounded.
\<close>

definition binary64_normal :: "rat \<Rightarrow> bool" where
  "binary64_normal x \<longleftrightarrow> x = 0 \<or> (2 powi (- 1022) \<le> \<bar>x\<bar> \<and> \<bar>fl x\<bar> < 2 powi 1024)"

fun sums_normal :: "rat \<Rightarrow> cart_item list \<Rightarrow> bool" where
  "sums_normal s [] = True"
| "sums_normal s (item # its) =
     (fl (price item) = price item
      \<and> fl (of_int (quantity item)) = of_int (quantity item)
      \<and> binary64_normal (price item * of_int (quantity item))
      \<and> binary64_normal (s + js_mul (price item) (of_int (quantity item)))
      \<and> sums_normal (js_add s (js_mul (price item) (of_int (quantity item)))) its)"

definition totals_normal :: "cart_item list \<Rightarrow> bool" where
  "totals_normal its \<longleftrightarrow>
     sums_normal 0 its
     \<and> binary64_normal (cart_subtotal its * js_Number (1 / 10))
     \<and> binary64_normal (cart_subtotal its + cart_tax its)
     \<and> binary64_normal (toFixed2 (cart_subtotal its))
     \<and> binary64_normal (toFixed2 (cart_tax its))
     \<and> binary64_normal (toFixed2 (cart_total its))"

text \<open>
  The state of a cart at rest. The ids of products and variants in its lines are values
  of 96 bits. \<open>lines_wf\<close>: no line is preceded by a line that the merge loop would select
  for its product and variant instead. \<open>cart_inv w\<close> asks for \<open>lines_wf\<close> when \<open>w\<close>
  is true.
\<close>

definition item_ok :: "cart_item \<Rightarrow> bool" where
  "item_ok i \<longleftrightarrow> 1 \<le> quantity i \<and> quantity i \<le> 10
     \<and> product i < 16 ^ 24 \<and> (case variant i of None \<Rightarrow> True | Some v \<Rightarrow> v < 16 ^ 24)"

definition lines_wf :: "cart_item list \<Rightarrow> bool" where
  "lines_wf its = sorted_wrt (\<lambda>a b. \<not> line_matches (product b) (variant b) a) its"

definition cart_inv :: "bool \<Rightarrow> cart \<Rightarrow> bool" where
  "cart_inv w c \<longleftrightarrow>
     length (items c) \<le> 50 \<and> list_all item_ok (items c)
     \<and> totals c = calculateCartTotals (items c) \<and> (w \<longrightarrow> lines_wf (items c))"

text \<open>The state of the store: every cart is at rest, and the unique indexes hold.\<close>

definition db_inv :: "bool \<Rightarrow> db \<Rightarrow> bool" where
  "db_inv w d \<longleftrightarrow>
     list_all (cart_inv w) (carts d)
     \<and> distinct (map sessionId (carts d))
     \<and> distinct (map cart_id (carts d))
     \<and> list_all (\<lambda>c. cart_id c < next_id d) (carts d)"

section \<open>Example data\<close>

text \<open>A server on UTC, and a server in a zone that is two hours ahead of UTC until
  2024-10-27 01:00 UTC (time value 1729990800000) and one hour ahead from then on; a local
  time that occurs twice is taken as the earlier of the two.\<close>

definition zone_utc :: time_zone where
  "zone_utc t isUTC = 0"

definition zone_fall_back :: time_zone where
  "zone_fall_back t isUTC =
     (if isUTC then (if t < 1729990800000 then 7200000 else 3600000)
      else (if t < 1729990800000 + 7200000 then 7200000 else 3600000))"

text \<open>The strings of the ObjectIds 1, 2, 5 and 10, and the string of 10 with the letter
  in upper case.\<close>

definition ex_id1 :: string where
  "ex_id1 = ''000000000000000000000001''"

definition ex_id2 :: string where
  "ex_id2 = ''000000000000000000000002''"

definition ex_id5 :: string where
  "ex_id5 = ''000000000000000000000005''"

definition ex_id10 :: string where
  "ex_id10 = ''00000000000000000000000a''"

definition ex_id10_upper :: string where
  "ex_id10_upper = ''00000000000000000000000A''"

definition ex_products :: product_directory where
  "ex_products =
     [1 \<mapsto> \<lparr>product_price = 10, isActive = True, inventory_quantity = 10, inventory_reserved = 0\<rparr>,
      2 \<mapsto> \<lparr>product_price = 5, isActive = True, inventory_quantity = 10, inventory_reserved = 0\<rparr>]"


definition ex_items :: "cart_item list" where
  "ex_items = [\<lparr>item_id = 1, product = 1, variant = None, quantity = 2, price = 10\<rparr>,
               \<lparr>item_id = 2, product = 2, variant = None, quantity = 1, price = 5\<rparr>]"

definition ex_order :: order where
  "ex_order = \<lparr>order_id = 3, orderNumber = ''ORD-4000'', customer = 7, order_items = ex_items,
               order_subtotal = 25, order_tax = 9 / 4,
               shipping = \<lparr>shipping_method = ''standard'', cost = 3\<rparr>, order_total = 121 / 4,
               order_status = ''pending'', paymentStatus = ''paid'', paymentMethod = ''card''\<rparr>"

definition ex_order_db :: db where
  "ex_order_db = \<lparr>carts = [], orders = [ex_order], next_id = 4\<rparr>"

text \<open>A cart of session s1 with the two lines of \<open>ex_items\<close>, last written at time 3000.\<close>

definition ex_cart :: cart where
  "ex_cart = \<lparr>cart_id = 0, sessionId = ''s1'', items = ex_items, status = ''active'',
              totals = calculateCartTotals ex_items, updatedAt = Some 3000\<rparr>"

definition ex_db :: db where
  "ex_db = \<lparr>carts = [ex_cart], orders = [], next_id = 3\<rparr>"

text \<open>A cart whose only line is for product 9, which the directory no longer lists.\<close>

definition ex_stale_item :: cart_item where
  "ex_stale_item = \<lparr>item_id = 1, product = 9, variant = None, quantity = 1, price = 4\<rparr>"

definition ex_stale_cart :: cart where
  "ex_stale_cart = \<lparr>cart_id = 0, sessionId = ''s1'', items = [ex_stale_item], status = ''active'',
                    totals = calculateCartTotals [ex_stale_item], updatedAt = Some 3000\<rparr>"

definition ex_stale_db :: db where
  "ex_stale_db = \<lparr>carts = [ex_stale_cart], orders = [], next_id = 2\<rparr>"

text \<open>Two sessions with a filled cart each.\<close>

definition ex_cart2 :: cart where
  "ex_cart2 = \<lparr>cart_id = 3, sessionId = ''s2'',
               items = [\<lparr>item_id = 4, product = 1, variant = None, quantity = 1, price = 10\<rparr>],
               status = ''active'',
               totals = calculateCartTotals
                 [\<lparr>item_id = 4, product = 1, variant = None, quantity = 1, price = 10\<rparr>],
               updatedAt = Some 3500\<rparr>"

definition ex_two_carts_db :: db where
  "ex_two_carts_db = \<lparr>carts = [ex_cart, ex_cart2], orders = [], next_id = 5\<rparr>"

definition ex_shipping :: shipping_info where
  "ex_shipping = \<lparr>shipping_method = ''standard'', cost = 3\<rparr>"

text \<open>The requests that build \<open>ex_db\<close> from the empty store.\<close>

definition ex_events :: "event list" where
  "ex_events = [(1000, ex_products, CreateCart (Some ''s1'')),
                (2000, ex_products, AddCartItem ''s1'' (Some ex_id1) (Some 2) None),
                (3000, ex_products, AddCartItem ''s1'' (Some ex_id2) (Some 1) None)]"



definition ex_five :: cart_item where
  "ex_five = \<lparr>item_id = 3, product = 1, variant = None, quantity = 5, price = 10\<rparr>"


definition ex_limit_source :: cart where
  "ex_limit_source = \<lparr>cart_id = 2, sessionId = ''s2'', items = [ex_five], status = ''active'',
                      totals = calculateCartTotals [ex_five], updatedAt = Some 4000\<rparr>"


text \<open>Two sessions: the cart of s1 holds one line, for product 1 in variant 5; the cart
  of s2 holds a line of 5 for product 1 without variant.\<close>

definition ex_variant_item :: cart_item where
  "ex_variant_item = \<lparr>item_id = 1, product = 1, variant = Some 5, quantity = 2, price = 10\<rparr>"

definition ex_variant_cart :: cart where
  "ex_variant_cart = \<lparr>cart_id = 0, sessionId = ''s1'', items = [ex_variant_item], status = ''active'',
                      totals = calculateCartTotals [ex_variant_item], updatedAt = Some 2000\<rparr>"

definition ex_variant_db :: db where
  "ex_variant_db = \<lparr>carts = [ex_variant_cart, ex_limit_source], orders = [], next_id = 4\<rparr>"

definition ex_variant_events :: "event list" where
  "ex_variant_events = [(1000, ex_products, CreateCart (Some ''s1'')),
                        (2000, ex_products, AddCartItem ''s1'' (Some ex_id1) (Some 2) (Some ex_id5)),
                        (3000, ex_products, CreateCart (Some ''s2'')),
                        (4000, ex_products, AddCartItem ''s2'' (Some ex_id1) (Some 5) None)]"

text \<open>A cart with two lines for product 1: the first without variant, the second in
  variant 5; and the requests that build it.\<close>

definition ex_plain_line :: cart_item where
  "ex_plain_line = \<lparr>item_id = 1, product = 1, variant = None, quantity = 2, price = 10\<rparr>"

definition ex_variant_line :: cart_item where
  "ex_variant_line = \<lparr>item_id = 2, product = 1, variant = Some 5, quantity = 3, price = 10\<rparr>"

definition ex_two_lines_cart :: cart where
  "ex_two_lines_cart = \<lparr>cart_id = 0, sessionId = ''s1'', items = [ex_plain_line, ex_variant_line],
                        status = ''active'',
                        totals = calculateCartTotals [ex_plain_line, ex_variant_line],
                        updatedAt = Some 3000\<rparr>"

definition ex_two_lines_db :: db where
  "ex_two_lines_db = \<lparr>carts = [ex_two_lines_cart], orders = [], next_id = 3\<rparr>"

definition ex_two_lines_events :: "event list" where
  "ex_two_lines_events =
     [(1000, ex_products, CreateCart (Some ''s1'')),
      (2000, ex_products, AddCartItem ''s1'' (Some ex_id1) (Some 2) None),
      (3000, ex_products, AddCartItem ''s1'' (Some ex_id1) (Some 3) (Some ex_id5))]"

text \<open>A cart with a line of 9 for product 10, whose id has a letter among its digits.\<close>

definition ex_products_ten :: product_directory where
  "ex_products_ten =
     [10 \<mapsto> \<lparr>product_price = 10, isActive = True, inventory_quantity = 10, inventory_reserved = 0\<rparr>]"

definition ex_ten_line :: cart_item where
  "ex_ten_line = \<lparr>item_id = 1, product = 10, variant = None, quantity = 9, price = 10\<rparr>"

definition ex_ten_cart :: cart where
  "ex_ten_cart = \<lparr>cart_id = 0, sessionId = ''s1'', items = [ex_ten_line], status = ''active'',
                  totals = calculateCartTotals [ex_ten_line], updatedAt = Some 2000\<rparr>"

definition ex_ten_db :: db where
  "ex_ten_db = \<lparr>carts = [ex_ten_cart], orders = [], next_id = 2\<rparr>"

text \<open>A cart last written on 2024-10-26 at 10:00 UTC (time value 1729936800000).\<close>

definition ex_autumn_cart :: cart where
  "ex_autumn_cart = \<lparr>cart_id = 0, sessionId = ''s1'', items = ex_items, status = ''active'',
                     totals = calculateCartTotals ex_items, updatedAt = Some 1729936800000\<rparr>"

definition ex_autumn_db :: db where
  "ex_autumn_db = \<lparr>carts = [ex_autumn_cart], orders = [], next_id = 3\<rparr>"

text \<open>One line at price 10.75, a Number with an exact binary representation.\<close>

definition ex_priced_items :: "cart_item list" where
  "ex_priced_items = [\<lparr>item_id = 1, product = 1, variant = None, quantity = 1, price = 43 / 4\<rparr>]"

section \<open>Properties of the number model\<close>

lemma powi_Suc: "(2::rat) powi (e + 1) = 2 * 2 powi e"
  by (simp add: power_int_add)

lemma ilog2_ge1:
  assumes "1 \<le> x"
  shows "2 powi (ilog2 x) \<le> x \<and> x < 2 powi (ilog2 x + 1)"
proof -
  let ?n = "\<lfloor>x\<rfloor>"
  have n: "0 < ?n" using assms by simp
  have b1: "1 \<le> bitlen ?n" using n by (auto simp: bitlen_alt_def)
  from bitlen_bounds[OF n] have lo: "2 ^ nat (bitlen ?n - 1) \<le> ?n" and hi: "?n < 2 ^ nat (bitlen ?n)"
    by auto
  have e: "ilog2 x = bitlen ?n - 1" using assms by (simp add: ilog2_def)
  have "(2::rat) powi (bitlen ?n - 1) = 2 ^ nat (bitlen ?n - 1)"
    using b1 by (simp add: power_int_nonneg_exp)
  also have "\<dots> = of_int (2 ^ nat (bitlen ?n - 1))" by simp
  also have "\<dots> \<le> of_int ?n" using lo by (simp only: of_int_le_iff)
  also have "\<dots> \<le> x" by simp
  finally have A: "2 powi (ilog2 x) \<le> x" using e by simp
  have "?n + 1 \<le> 2 ^ nat (bitlen ?n)" using hi by simp
  then have "(of_int (?n + 1) :: rat) \<le> of_int (2 ^ nat (bitlen ?n))" by (simp only: of_int_le_iff)
  moreover have "x < of_int (?n + 1)" by linarith
  ultimately have "x < of_int (2 ^ nat (bitlen ?n))" by linarith
  also have "\<dots> = 2 powi (bitlen ?n)" using b1 by (simp add: power_int_nonneg_exp)
  finally have B: "x < 2 powi (ilog2 x + 1)" using e by simp
  from A B show ?thesis by simp
qed

lemma ilog2_lt1:
  assumes "0 < x" "x < 1"
  shows "2 powi (ilog2 x) \<le> x \<and> x < 2 powi (ilog2 x + 1)"
proof -
  let ?y = "1 / x"
  let ?m = "\<lceil>?y\<rceil> - 1"
  let ?k = "bitlen ?m"
  have y1: "1 < ?y" using assms by simp
  have m: "0 < ?m" using y1 by (simp add: less_ceiling_iff)
  have k1: "1 \<le> ?k" using m by (auto simp: bitlen_alt_def)
  from bitlen_bounds[OF m] have lo: "2 ^ nat (?k - 1) \<le> ?m" and hi: "?m < 2 ^ nat ?k"
    by auto
  have e: "ilog2 x = - ?k" using assms by (simp add: ilog2_def)
  have "?m + 1 \<le> 2 ^ nat ?k" using hi by simp
  then have "(of_int (?m + 1) :: rat) \<le> of_int (2 ^ nat ?k)" by (simp only: of_int_le_iff)
  moreover have "?y \<le> of_int (?m + 1)" by (simp add: le_of_int_ceiling)
  ultimately have "?y \<le> of_int (2 ^ nat ?k)" by linarith
  then have yk: "?y \<le> 2 ^ nat ?k" by simp
  have p: "(0::rat) < 2 ^ nat ?k" by simp
  have "1 / (2 ^ nat ?k) \<le> x"
    using yk assms(1) p by (simp add: field_simps)
  moreover have "(2::rat) powi (- ?k) = 1 / (2 ^ nat ?k)"
    using k1 by (simp add: power_int_minus_divide power_int_nonneg_exp)
  ultimately have A: "2 powi (ilog2 x) \<le> x" using e by simp
  have "(of_int (2 ^ nat (?k - 1)) :: rat) \<le> of_int ?m" using lo by (simp only: of_int_le_iff)
  moreover have "of_int ?m < ?y" by linarith
  ultimately have "of_int (2 ^ nat (?k - 1)) < ?y" by linarith
  then have yk': "2 ^ nat (?k - 1) < ?y" by simp
  have "x < 1 / (2 ^ nat (?k - 1))"
    using yk' assms(1) by (simp add: field_simps)
  moreover have "(2::rat) powi (- ?k + 1) = 1 / (2 ^ nat (?k - 1))"
  proof -
    have "- ?k + 1 = - (?k - 1)" by simp
    then show ?thesis using k1 by (simp only: power_int_minus_divide) (simp add: power_int_nonneg_exp)
  qed
  ultimately have B: "x < 2 powi (ilog2 x + 1)" using e by simp
  from A B show ?thesis by simp
qed

lemma ilog2_bounds:
  assumes "0 < x"
  shows "2 powi (ilog2 x) \<le> x" and "x < 2 powi (ilog2 x + 1)"
  using ilog2_ge1[of x] ilog2_lt1[of x] assms by (cases "1 \<le> x"; simp)+

lemma powi_less_imp: "(2::rat) powi a < 2 powi b \<Longrightarrow> a < b"
  by (metis power_int_increasing not_less one_le_numeral)

lemma ilog2_unique:
  assumes "0 < x" "2 powi e \<le> x" "x < 2 powi (e + 1)"
  shows "ilog2 x = e"
proof -
  have "(2::rat) powi e < 2 powi (ilog2 x + 1)" using assms(2) ilog2_bounds(2)[OF assms(1)] by linarith
  then have "e < ilog2 x + 1" by (rule powi_less_imp)
  moreover have "(2::rat) powi (ilog2 x) < 2 powi (e + 1)" using assms(3) ilog2_bounds(1)[OF assms(1)] by linarith
  then have "ilog2 x < e + 1" by (rule powi_less_imp)
  ultimately show ?thesis by simp
qed

lemma ilog2_mono:
  assumes "0 < x" "x \<le> y"
  shows "ilog2 x \<le> ilog2 y"
proof -
  have "0 < y" using assms by simp
  have "(2::rat) powi (ilog2 x) < 2 powi (ilog2 y + 1)"
    using ilog2_bounds(1)[OF assms(1)] ilog2_bounds(2)[OF \<open>0 < y\<close>] assms(2) by linarith
  then have "ilog2 x < ilog2 y + 1" by (rule powi_less_imp)
  then show ?thesis by simp
qed

lemma round_even_of_int: "round_even (of_int n) = n"
  by (simp add: round_even_def)

lemma round_even_floor_le: "\<lfloor>r\<rfloor> \<le> round_even r"
  by (simp add: round_even_def Let_def)

lemma round_even_le_floor: "round_even r \<le> \<lfloor>r\<rfloor> + 1"
  by (simp add: round_even_def Let_def)

lemma round_even_mono:
  assumes "r \<le> s"
  shows "round_even r \<le> round_even s"
proof (cases "\<lfloor>r\<rfloor> = \<lfloor>s\<rfloor>")
  case True
  have "r - of_int \<lfloor>r\<rfloor> \<le> s - of_int \<lfloor>s\<rfloor>" using assms True by simp
  then show ?thesis using True by (auto simp: round_even_def Let_def)
next
  case False
  have "\<lfloor>r\<rfloor> \<le> \<lfloor>s\<rfloor>" using assms by (rule floor_mono)
  then have "\<lfloor>r\<rfloor> + 1 \<le> \<lfloor>s\<rfloor>" using False by simp
  then show ?thesis using round_even_le_floor[of r] round_even_floor_le[of s] by linarith
qed

lemma round_even_ge: "of_int n \<le> r \<Longrightarrow> n \<le> round_even r"
  using round_even_mono[of "of_int n" r] by (simp add: round_even_of_int)

lemma round_even_le: "r \<le> of_int n \<Longrightarrow> round_even r \<le> n"
  using round_even_mono[of r "of_int n"] by (simp add: round_even_of_int)

lemma fl_pos:
  "0 < x \<Longrightarrow> fl x = of_int (round_even (x / 2 powi (ilog2 x - 52))) * 2 powi (ilog2 x - 52)"
  by (simp add: fl_def Let_def)

lemma powi_split: "(2::rat) powi e = 2 ^ 52 * 2 powi (e - 52)"
proof -
  have "(2::rat) powi e = 2 powi (52 + (e - 52))" by simp
  also have "\<dots> = 2 powi 52 * 2 powi (e - 52)" by (rule power_int_add) simp
  finally show ?thesis by simp
qed

lemma scaled_bounds:
  assumes "0 < x"
  shows "2 ^ 52 \<le> x / 2 powi (ilog2 x - 52)" and "x / 2 powi (ilog2 x - 52) < 2 ^ 53"
proof -
  let ?u = "(2::rat) powi (ilog2 x - 52)"
  have u: "0 < ?u" by simp
  have "2 ^ 52 * ?u \<le> x" using ilog2_bounds(1)[OF assms] powi_split[of "ilog2 x"] by simp
  then show "2 ^ 52 \<le> x / ?u" using u by (simp add: pos_le_divide_eq)
  have "x < 2 * (2 ^ 52 * ?u)"
    using ilog2_bounds(2)[OF assms] powi_split[of "ilog2 x"] by (simp add: powi_Suc)
  then have "x < 2 ^ 53 * ?u" by simp
  then show "x / ?u < 2 ^ 53" using u by (simp add: pos_divide_less_eq)
qed

lemma mantissa_bounds:
  assumes "0 < x"
  shows "2 ^ 52 \<le> round_even (x / 2 powi (ilog2 x - 52))"
    and "round_even (x / 2 powi (ilog2 x - 52)) \<le> 2 ^ 53"
proof -
  have "of_int (2 ^ 52) \<le> x / 2 powi (ilog2 x - 52)" using scaled_bounds(1)[OF assms] by simp
  then show "2 ^ 52 \<le> round_even (x / 2 powi (ilog2 x - 52))" by (rule round_even_ge)
  have "x / 2 powi (ilog2 x - 52) \<le> of_int (2 ^ 53)" using scaled_bounds(2)[OF assms] by simp
  then show "round_even (x / 2 powi (ilog2 x - 52)) \<le> 2 ^ 53" by (rule round_even_le)
qed

lemma fl_bounds:
  assumes "0 < x"
  shows "2 powi (ilog2 x) \<le> fl x" and "fl x \<le> 2 powi (ilog2 x + 1)"
proof -
  let ?u = "(2::rat) powi (ilog2 x - 52)"
  let ?m = "round_even (x / ?u)"
  have u: "0 < ?u" by simp
  have "(of_int (2 ^ 52) :: rat) \<le> of_int ?m" using mantissa_bounds(1)[OF assms] by (simp only: of_int_le_iff)
  then have "2 ^ 52 * ?u \<le> of_int ?m * ?u" using u by simp
  then show "2 powi (ilog2 x) \<le> fl x" using powi_split[of "ilog2 x"] fl_pos[OF assms] by simp
  have "(of_int ?m :: rat) \<le> of_int (2 ^ 53)" using mantissa_bounds(2)[OF assms] by (simp only: of_int_le_iff)
  then have "of_int ?m * ?u \<le> 2 ^ 53 * ?u" using u by simp
  also have "\<dots> = 2 * (2 ^ 52 * ?u)" by simp
  also have "\<dots> = 2 powi (ilog2 x + 1)" using powi_split[of "ilog2 x"] by (simp add: powi_Suc)
  finally show "fl x \<le> 2 powi (ilog2 x + 1)" using fl_pos[OF assms] by simp
qed

lemma fl_pos_pos: "0 < x \<Longrightarrow> 0 < fl x"
  using fl_bounds(1)[of x] zero_less_power_int[of "2::rat" "ilog2 x"] by linarith

lemma fl_nonneg: "0 \<le> x \<Longrightarrow> 0 \<le> fl x"
  using fl_pos_pos[of x] by (cases "x = 0") (simp_all add: fl_def)

lemma fl_mono_pos:
  assumes "0 < x" "x \<le> y"
  shows "fl x \<le> fl y"
proof (cases "ilog2 x = ilog2 y")
  case True
  let ?u = "(2::rat) powi (ilog2 y - 52)"
  have u: "0 < ?u" by simp
  have y: "0 < y" using assms by simp
  have "x / ?u \<le> y / ?u" using assms(2) u by (simp add: divide_right_mono)
  then have "round_even (x / ?u) \<le> round_even (y / ?u)" by (rule round_even_mono)
  then have "(of_int (round_even (x / ?u)) :: rat) \<le> of_int (round_even (y / ?u))" by (simp only: of_int_le_iff)
  then have "of_int (round_even (x / ?u)) * ?u \<le> of_int (round_even (y / ?u)) * ?u" using u by simp
  then show ?thesis using fl_pos[OF assms(1)] fl_pos[OF y] True by simp
next
  case False
  have y: "0 < y" using assms by simp
  have "ilog2 x \<le> ilog2 y" using assms by (rule ilog2_mono)
  then have "ilog2 x + 1 \<le> ilog2 y" using False by simp
  then have "(2::rat) powi (ilog2 x + 1) \<le> 2 powi (ilog2 y)" by (simp add: power_int_increasing)
  then show ?thesis using fl_bounds(2)[OF assms(1)] fl_bounds(1)[OF y] by linarith
qed

lemma fl_mono: "0 \<le> x \<Longrightarrow> x \<le> y \<Longrightarrow> fl x \<le> fl y"
  using fl_mono_pos[of x y] fl_nonneg[of y] by (cases "x = 0") (simp_all add: fl_def)

lemma fl_idem_pos:
  assumes "0 < x"
  shows "fl (fl x) = fl x"
proof -
  let ?e = "ilog2 x"
  let ?u = "(2::rat) powi (?e - 52)"
  let ?m = "round_even (x / ?u)"
  have u: "0 < ?u" by simp
  have fx: "fl x = of_int ?m * ?u" using fl_pos[OF assms] .
  have p: "0 < fl x" using assms by (rule fl_pos_pos)
  show ?thesis
  proof (cases "?m = 2 ^ 53")
    case True
    have v: "fl x = 2 powi (?e + 1)"
    proof -
      have "fl x = 2 * (2 ^ 52 * ?u)" using fx True by simp
      then show ?thesis using powi_split[of ?e] by (simp add: powi_Suc)
    qed
    have "(2::rat) powi (?e + 1) < 2 powi (?e + 1 + 1)" by (simp add: power_int_strict_increasing)
    then have e': "ilog2 (fl x) = ?e + 1" using v p by (intro ilog2_unique) simp_all
    have "fl x / 2 powi (?e + 1 - 52) = 2 ^ 52"
      using v powi_split[of "?e + 1"] by simp
    then have "fl x / 2 powi (?e + 1 - 52) = of_int (2 ^ 52)" by simp
    then have "round_even (fl x / 2 powi (?e + 1 - 52)) = 2 ^ 52" by (simp only: round_even_of_int)
    then have "fl (fl x) = 2 ^ 52 * 2 powi (?e + 1 - 52)" using fl_pos[OF p] e' by simp
    then show ?thesis using v powi_split[of "?e + 1"] by simp
  next
    case False
    then have "?m < 2 ^ 53" using mantissa_bounds(2)[OF assms] by simp
    then have "?m + 1 \<le> 2 ^ 53" by simp
    then have "(of_int (?m + 1) :: rat) \<le> of_int (2 ^ 53)" by (simp only: of_int_le_iff)
    then have "(of_int ?m :: rat) < 2 ^ 53" by simp
    then have "of_int ?m * ?u < 2 ^ 53 * ?u" using u by simp
    also have "\<dots> = 2 * (2 ^ 52 * ?u)" by simp
    also have "\<dots> = 2 powi (?e + 1)" using powi_split[of ?e] by (simp add: powi_Suc)
    finally have hi: "fl x < 2 powi (?e + 1)" using fx by simp
    have e': "ilog2 (fl x) = ?e" using p fl_bounds(1)[OF assms] hi by (rule ilog2_unique)
    have "fl x / ?u = of_int ?m" using fx u by simp
    then have "round_even (fl x / ?u) = ?m" by (simp only: round_even_of_int)
    then show ?thesis using fl_pos[OF p] e' fx by simp
  qed
qed

lemma fl_idem: "0 \<le> x \<Longrightarrow> fl (fl x) = fl x"
  using fl_idem_pos[of x] by (cases "x = 0") (simp_all add: fl_def)
text \<open>One rounding changes a value by at most the fraction \<open>unit_roundoff\<close> of it.\<close>

lemma round_even_near: "\<bar>of_int (round_even r) - r\<bar> \<le> 1 / 2"
proof -
  have "of_int \<lfloor>r\<rfloor> \<le> r" "r < of_int \<lfloor>r\<rfloor> + 1" by linarith+
  then show ?thesis by (auto simp: round_even_def Let_def abs_le_iff)
qed

lemma fl_error_pos:
  assumes "0 < x"
  shows "\<bar>fl x - x\<bar> \<le> x / 2 ^ 53"
proof -
  let ?u = "(2::rat) powi (ilog2 x - 52)"
  let ?m = "round_even (x / ?u)"
  have u: "0 < ?u" by simp
  have "\<bar>of_int ?m - x / ?u\<bar> \<le> 1 / 2" by (rule round_even_near)
  then have "\<bar>of_int ?m - x / ?u\<bar> * ?u \<le> 1 / 2 * ?u" using u by (intro mult_right_mono) simp_all
  moreover have "\<bar>of_int ?m - x / ?u\<bar> * ?u = \<bar>of_int ?m * ?u - x\<bar>"
  proof -
    have "\<bar>of_int ?m - x / ?u\<bar> * ?u = \<bar>(of_int ?m - x / ?u) * ?u\<bar>" using u by (simp add: abs_mult)
    also have "(of_int ?m - x / ?u) * ?u = of_int ?m * ?u - x" using u by (simp add: field_simps)
    finally show ?thesis .
  qed
  ultimately have e: "\<bar>fl x - x\<bar> \<le> ?u / 2" using fl_pos[OF assms] by simp
  have "2 ^ 52 * ?u \<le> x" using ilog2_bounds(1)[OF assms] powi_split[of "ilog2 x"] by simp
  then have "?u / 2 \<le> x / 2 ^ 53" by simp
  with e show ?thesis by linarith
qed

lemma unit_roundoff_bounds: "0 < unit_roundoff" "unit_roundoff < 1"
  by (simp_all add: unit_roundoff_def)

lemma fl_within:
  assumes "0 \<le> x"
  shows "(1 - unit_roundoff) * x \<le> fl x" and "fl x \<le> (1 + unit_roundoff) * x"
proof -
  have e: "\<bar>fl x - x\<bar> \<le> x * unit_roundoff"
  proof (cases "x = 0")
    case True
    then show ?thesis by (simp add: fl_def)
  next
    case False
    then have "0 < x" using assms by simp
    from fl_error_pos[OF this] show ?thesis by (simp add: unit_roundoff_def)
  qed
  have a: "(1 - unit_roundoff) * x = x - x * unit_roundoff" by (simp add: algebra_simps)
  have b: "(1 + unit_roundoff) * x = x + x * unit_roundoff" by (simp add: algebra_simps)
  show "(1 - unit_roundoff) * x \<le> fl x" unfolding a using e by linarith
  show "fl x \<le> (1 + unit_roundoff) * x" unfolding b using e by linarith
qed

lemma within_fl:
  assumes "0 \<le> a" "within_roundings k a v"
  shows "within_roundings (Suc k) a (fl v)"
proof -
  let ?lo = "1 - unit_roundoff" and ?hi = "1 + unit_roundoff"
  have lo: "0 \<le> ?lo" and hi: "0 \<le> ?hi" using unit_roundoff_bounds by simp_all
  have v: "?lo ^ k * a \<le> v" "v \<le> ?hi ^ k * a" using assms(2) by (simp_all add: within_roundings_def)
  have v0: "0 \<le> v"
  proof -
    have "0 \<le> ?lo ^ k * a" using lo assms(1) by simp
    then show ?thesis using v(1) by linarith
  qed
  have "?lo * (?lo ^ k * a) \<le> ?lo * v" using v(1) lo by (rule mult_left_mono)
  also have "\<dots> \<le> fl v" using v0 by (rule fl_within(1))
  finally have A: "?lo ^ Suc k * a \<le> fl v" by (simp add: mult.assoc)
  have "fl v \<le> ?hi * v" using v0 by (rule fl_within(2))
  also have "\<dots> \<le> ?hi * (?hi ^ k * a)" using v(2) hi by (rule mult_left_mono)
  finally have B: "fl v \<le> ?hi ^ Suc k * a" by (simp add: mult.assoc)
  from A B show ?thesis by (simp add: within_roundings_def)
qed

lemma within_mono:
  assumes "0 \<le> a" "k \<le> n" "within_roundings k a v"
  shows "within_roundings n a v"
proof -
  let ?lo = "1 - unit_roundoff" and ?hi = "1 + unit_roundoff"
  have lo: "0 \<le> ?lo" "?lo \<le> 1" and hi: "1 \<le> ?hi" using unit_roundoff_bounds by simp_all
  have "?lo ^ n \<le> ?lo ^ k" using lo assms(2) by (intro power_decreasing) simp_all
  then have A: "?lo ^ n * a \<le> ?lo ^ k * a" using assms(1) by (rule mult_right_mono)
  have "?hi ^ k \<le> ?hi ^ n" using hi assms(2) by (intro power_increasing) simp_all
  then have B: "?hi ^ k * a \<le> ?hi ^ n * a" using assms(1) by (rule mult_right_mono)
  from A B assms(3) show ?thesis unfolding within_roundings_def by linarith
qed

lemma within_add:
  assumes "within_roundings k a v" "within_roundings k b w"
  shows "within_roundings k (a + b) (v + w)"
  using assms unfolding within_roundings_def by (simp add: distrib_left)

lemma within_exact: "0 \<le> a \<Longrightarrow> within_roundings 0 a a"
  by (simp add: within_roundings_def)

lemma within_scale:
  assumes "0 \<le> a" "0 \<le> b" "within_roundings k a v" "within_roundings m b w"
  shows "within_roundings (k + m) (a * b) (v * w)"
proof -
  let ?lo = "1 - unit_roundoff" and ?hi = "1 + unit_roundoff"
  have lo: "0 \<le> ?lo" and hi: "0 \<le> ?hi" using unit_roundoff_bounds by simp_all
  have v: "?lo ^ k * a \<le> v" "v \<le> ?hi ^ k * a" using assms(3) by (simp_all add: within_roundings_def)
  have w: "?lo ^ m * b \<le> w" "w \<le> ?hi ^ m * b" using assms(4) by (simp_all add: within_roundings_def)
  have la: "0 \<le> ?lo ^ k * a" and lb: "0 \<le> ?lo ^ m * b" using lo assms(1,2) by simp_all
  have v0: "0 \<le> v" and w0: "0 \<le> w" using la lb v(1) w(1) by linarith+
  have "(?lo ^ k * a) * (?lo ^ m * b) \<le> v * w" using v(1) w(1) la lb by (intro mult_mono) simp_all
  then have A: "?lo ^ (k + m) * (a * b) \<le> v * w" by (simp add: power_add ac_simps)
  have "v * w \<le> (?hi ^ k * a) * (?hi ^ m * b)" using v(2) w(2) v0 w0 hi assms(1,2) by (intro mult_mono) simp_all
  then have B: "v * w \<le> ?hi ^ (k + m) * (a * b)" by (simp add: power_add ac_simps)
  from A B show ?thesis by (simp add: within_roundings_def)
qed

text \<open>Values of moderate size are in the range of the normal numbers.\<close>

lemma fl_abs: "\<bar>fl x\<bar> = fl \<bar>x\<bar>"
proof (cases "x < 0")
  case True
  then have p: "0 < - x" by simp
  have "fl x = - fl (- x)" using True by (simp add: fl_def Let_def)
  then show ?thesis using True fl_pos_pos[OF p] by simp
next
  case False
  then have "0 \<le> x" by simp
  then show ?thesis using fl_nonneg[of x] by simp
qed

lemma fl_1024: "fl 1024 = 1024"
  by code_simp

lemma normal_between:
  assumes "1 / 1024 \<le> \<bar>x\<bar>" "\<bar>x\<bar> \<le> 1024"
  shows "binary64_normal x"
proof -
  have "(2::rat) powi (- 1022) \<le> 2 powi (- 10)" by (intro power_int_increasing) simp_all
  also have "(2::rat) powi (- 10) = 1 / 1024" by (simp add: power_int_minus_divide)
  finally have lo: "2 powi (- 1022) \<le> \<bar>x\<bar>" using assms(1) by simp
  have "fl \<bar>x\<bar> \<le> fl 1024" using assms(2) by (intro fl_mono) simp_all
  then have "\<bar>fl x\<bar> \<le> 2 powi 10" by (simp add: fl_abs fl_1024)
  also have "(2::rat) powi 10 < 2 powi 1024" by (intro power_int_strict_increasing) simp_all
  finally have hi: "\<bar>fl x\<bar> < 2 powi 1024" .
  from lo hi show ?thesis by (simp add: binary64_normal_def)
qed

section \<open>Properties of the ObjectId strings\<close>

lemma hexval_hexdigits: "list_all (\<lambda>n. hexval (hexdigit n) = Some n) [0..<16]"
  by code_simp

lemma hexval_hexdigit: "n < 16 \<Longrightarrow> hexval (hexdigit n) = Some n"
  using hexval_hexdigits by (simp only: list_all_iff) simp

lemma findIndex_lt: "findIndex P xs = Some i \<Longrightarrow> i < length xs"
  by (induction xs arbitrary: i) (auto split: if_splits)

lemma hexval_lt:
  assumes "hexval c = Some v"
  shows "v < 16"
proof -
  define lower where "lower = findIndex (\<lambda>x. x = c) ''0123456789abcdef''"
  define upper where "upper = findIndex (\<lambda>x. x = c) ''ABCDEF''"
  have h: "hexval c = (case lower of Some v \<Rightarrow> Some v | None \<Rightarrow> map_option (\<lambda>v. v + 10) upper)"
    unfolding hexval_def lower_def upper_def ..
  show ?thesis
  proof (cases lower)
    case (Some w)
    then have "w < length ''0123456789abcdef''" unfolding lower_def by (rule findIndex_lt)
    then show ?thesis using assms h Some by simp
  next
    case None
    then obtain z where z: "upper = Some z" "v = z + 10" using assms h by auto
    have "z < length ''ABCDEF''" using z(1) unfolding upper_def by (rule findIndex_lt)
    then show ?thesis using z(2) by simp
  qed
qed

lemma parse_step_None:
  "foldl (\<lambda>acc c. case acc of None \<Rightarrow> None
                   | Some a \<Rightarrow> map_option (\<lambda>v. 16 * a + v) (hexval c)) None s = None"
  by (induction s) simp_all

lemma parse_hexn:
  "foldl (\<lambda>acc c. case acc of None \<Rightarrow> None
                   | Some a \<Rightarrow> map_option (\<lambda>v. 16 * a + v) (hexval c)) (Some 0) (hexn k n)
   = Some (n mod 16 ^ k)"
proof (induction k arbitrary: n)
  case 0
  then show ?case by simp
next
  case (Suc k)
  have "n mod (16 * 16 ^ k) = 16 * (n div 16 mod 16 ^ k) + n mod 16"
    by (simp add: mod_mult2_eq)
  then show ?case using Suc[of "n div 16"] by (simp add: hexval_hexdigit)
qed

lemma length_hexn: "length (hexn k n) = k"
  by (induction k arbitrary: n) simp_all

lemma length_ObjectId_toString: "length (ObjectId_toString i) = 24"
  by (simp add: ObjectId_toString_def length_hexn)

lemma castObjectId_toString: "i < 16 ^ 24 \<Longrightarrow> castObjectId (ObjectId_toString i) = Some i"
  by (simp add: castObjectId_def ObjectId_toString_def length_hexn parseHex_def parse_hexn)

lemma parse_bound:
  "foldl (\<lambda>acc c. case acc of None \<Rightarrow> None
                   | Some a \<Rightarrow> map_option (\<lambda>v. 16 * a + v) (hexval c)) (Some a) s = Some r
   \<Longrightarrow> r < (a + 1) * 16 ^ length s"
proof (induction s arbitrary: a)
  case Nil
  then show ?case by simp
next
  case (Cons c s)
  show ?case
  proof (cases "hexval c")
    case None
    then show ?thesis using Cons.prems by (simp add: parse_step_None)
  next
    case (Some v)
    have v: "v < 16" using Some by (rule hexval_lt)
    have "r < (16 * a + v + 1) * 16 ^ length s"
      using Cons.prems Some by (intro Cons.IH) simp
    moreover have "(16 * a + v + 1) * 16 ^ length s \<le> (16 * (a + 1)) * 16 ^ length s"
      using v by (intro mult_right_mono) simp_all
    ultimately have "r < (16 * (a + 1)) * 16 ^ length s" by (rule less_le_trans)
    then show ?thesis by (simp add: algebra_simps)
  qed
qed

lemma castObjectId_lt:
  assumes "castObjectId s = Some i"
  shows "i < 16 ^ 24"
proof -
  have l: "length s = 24" and p: "parseHex s = Some i"
    using assms by (auto simp: castObjectId_def split: if_splits)
  have "i < (0 + 1) * 16 ^ length s" using p unfolding parseHex_def by (rule parse_bound)
  then show ?thesis unfolding l by simp
qed

lemma ObjectId_toString_inj:
  "i < 16 ^ 24 \<Longrightarrow> j < 16 ^ 24 \<Longrightarrow> ObjectId_toString i = ObjectId_toString j \<Longrightarrow> i = j"
  by (metis castObjectId_toString option.inject)

lemma castObjectId_nonempty: "castObjectId s = Some i \<Longrightarrow> s \<noteq> []"
  by (auto simp: castObjectId_def split: if_splits)

lemma ObjectId_toString_nonempty: "ObjectId_toString i \<noteq> []"
  using length_ObjectId_toString[of i] by auto

text \<open>The ids of the examples.\<close>

lemma cast_ex_id1: "castObjectId ex_id1 = Some 1" by code_simp
lemma cast_ex_id2: "castObjectId ex_id2 = Some 2" by code_simp
lemma cast_ex_id5: "castObjectId ex_id5 = Some 5" by code_simp
lemma cast_ex_id10: "castObjectId ex_id10 = Some 10" by code_simp
lemma cast_ex_id10_upper: "castObjectId ex_id10_upper = Some 10" by code_simp
lemma toString_1: "ObjectId_toString 1 = ex_id1" by code_simp
lemma toString_Suc_0: "ObjectId_toString (Suc 0) = ex_id1" using toString_1 by simp
lemma toString_2: "ObjectId_toString 2 = ex_id2" by code_simp
lemma toString_5: "ObjectId_toString 5 = ex_id5" by code_simp
lemma toString_10: "ObjectId_toString 10 = ex_id10" by code_simp

lemma ex_ids_distinct:
  "ex_id1 \<noteq> ex_id2" "ex_id2 \<noteq> ex_id1" "ex_id10 \<noteq> ex_id10_upper" "ex_id1 \<noteq> []" "ex_id2 \<noteq> []"
  "ex_id5 \<noteq> []" "ex_id10_upper \<noteq> []" "ex_id10 \<noteq> []"
  by (simp_all add: ex_id1_def ex_id2_def ex_id5_def ex_id10_def ex_id10_upper_def)

section \<open>Totals\<close>

lemma half_up_nonneg:
  assumes "0 \<le> (y::rat)"
  shows "\<bar>of_int \<lfloor>y * 100 + 1 / 2\<rfloor> / 100 - y\<bar> \<le> 1 / 200"
    and "\<bar>of_int \<lfloor>y * 100 + 1 / 2\<rfloor> / 100 - y\<bar> = 1 / 200 \<Longrightarrow> y < of_int \<lfloor>y * 100 + 1 / 2\<rfloor> / 100"
    and "0 \<le> \<lfloor>y * 100 + 1 / 2\<rfloor>"
proof -
  define n where "n = (of_int \<lfloor>y * 100 + 1 / 2\<rfloor> :: rat)"
  have lo: "n \<le> y * 100 + 1 / 2" unfolding n_def by (rule of_int_floor_le)
  have hi: "y * 100 + 1 / 2 < n + 1" unfolding n_def by linarith
  have "\<bar>n / 100 - y\<bar> \<le> 1 / 200" using lo hi by linarith
  then show "\<bar>of_int \<lfloor>y * 100 + 1 / 2\<rfloor> / 100 - y\<bar> \<le> 1 / 200" unfolding n_def .
  have "\<bar>n / 100 - y\<bar> = 1 / 200 \<Longrightarrow> y < n / 100" using lo hi by linarith
  then show "\<bar>of_int \<lfloor>y * 100 + 1 / 2\<rfloor> / 100 - y\<bar> = 1 / 200 \<Longrightarrow> y < of_int \<lfloor>y * 100 + 1 / 2\<rfloor> / 100"
    unfolding n_def .
  show "0 \<le> \<lfloor>y * 100 + 1 / 2\<rfloor>" using assms by simp
qed

lemma rounds_half_up_2dp_iff:
  "rounds_half_up_2dp x n \<longleftrightarrow>
     \<bar>of_int n / 100 - x\<bar> \<le> 1 / 200
     \<and> (\<bar>of_int n / 100 - x\<bar> = 1 / 200 \<longrightarrow> \<bar>x\<bar> < \<bar>of_int n / 100\<bar>)"
  unfolding rounds_half_up_2dp_def by linarith

lemma toFixed2_rounds: "\<exists>n. toFixed2 x = of_int n / 100 \<and> rounds_half_up_2dp x n"
proof (cases "x < 0")
  case False
  then have x: "0 \<le> x" by simp
  have c: "toFixed2 x = of_int \<lfloor>x * 100 + 1 / 2\<rfloor> / 100" using False by (simp add: toFixed2_def)
  have n: "0 \<le> (of_int \<lfloor>x * 100 + 1 / 2\<rfloor> :: rat) / 100" using half_up_nonneg(3)[OF x] by simp
  have "rounds_half_up_2dp x \<lfloor>x * 100 + 1 / 2\<rfloor>" unfolding rounds_half_up_2dp_iff
    using half_up_nonneg(1)[OF x] half_up_nonneg(2)[OF x] x n by (simp add: abs_of_nonneg)
  with c show ?thesis by blast
next
  case True
  then have y: "0 \<le> - x" by simp
  have c: "toFixed2 x = of_int (- \<lfloor>- x * 100 + 1 / 2\<rfloor>) / 100" using True by (simp add: toFixed2_def)
  have n: "0 \<le> (of_int \<lfloor>- x * 100 + 1 / 2\<rfloor> :: rat) / 100" using half_up_nonneg(3)[OF y] by simp
  have a: "\<bar>of_int (- \<lfloor>- x * 100 + 1 / 2\<rfloor>) / 100 - x\<bar> = \<bar>of_int \<lfloor>- x * 100 + 1 / 2\<rfloor> / 100 - (- x)\<bar>"
    by (simp add: abs_minus_commute)
  have b: "\<bar>(of_int (- \<lfloor>- x * 100 + 1 / 2\<rfloor>) :: rat) / 100\<bar> = of_int \<lfloor>- x * 100 + 1 / 2\<rfloor> / 100"
    using n by simp
  have "rounds_half_up_2dp x (- \<lfloor>- x * 100 + 1 / 2\<rfloor>)" unfolding rounds_half_up_2dp_iff a b
    using half_up_nonneg(1)[OF y] half_up_nonneg(2)[OF y] True by (simp add: abs_of_neg)
  with c show ?thesis by blast
qed

text \<open>At most one amount in hundredths is the half-up rounding of a value.\<close>

lemma rounds_half_up_2dp_unique:
  assumes "rounds_half_up_2dp x n" "rounds_half_up_2dp x m"
  shows "n = m"
proof -
  have le: "n \<le> m" if "rounds_half_up_2dp x n" "rounds_half_up_2dp x m" for n m
  proof (rule ccontr)
    assume "\<not> n \<le> m"
    then have "m + 1 \<le> n" by simp
    then have g: "(of_int m :: rat) + 1 \<le> of_int n" by (metis of_int_le_iff of_int_add of_int_1)
    have a: "\<bar>of_int n / 100 - x\<bar> \<le> 1 / 200"
      and a': "\<bar>of_int n / 100 - x\<bar> = 1 / 200 \<longrightarrow> \<bar>x\<bar> < \<bar>of_int n / 100\<bar>"
      using that(1) unfolding rounds_half_up_2dp_iff by simp_all
    have b: "\<bar>of_int m / 100 - x\<bar> \<le> 1 / 200"
      and b': "\<bar>of_int m / 100 - x\<bar> = 1 / 200 \<longrightarrow> \<bar>x\<bar> < \<bar>of_int m / 100\<bar>"
      using that(2) unfolding rounds_half_up_2dp_iff by simp_all
    have n: "of_int n / 100 - x = 1 / 200" using a b g by linarith
    have m: "of_int m / 100 - x = - (1 / 200)" using a b g by linarith
    have "\<bar>x\<bar> < \<bar>of_int n / 100\<bar>" using a' n by simp
    moreover have "\<bar>x\<bar> < \<bar>of_int m / 100\<bar>" using b' m by simp
    ultimately have "0 < (of_int n :: rat)" "(of_int n :: rat) < 1" using n m by linarith+
    then have "0 < n" "n < 1" by simp_all
    then show False by simp
  qed
  from le[OF assms] le[OF assms(2,1)] show ?thesis by simp
qed

lemma toFixed2_nonneg: "0 \<le> x \<Longrightarrow> 0 \<le> toFixed2 x"
  by (simp add: toFixed2_def)

lemma toFixed2_mono: "0 \<le> x \<Longrightarrow> x \<le> y \<Longrightarrow> toFixed2 x \<le> toFixed2 y"
proof -
  assume a: "0 \<le> x" "x \<le> y"
  have "\<lfloor>x * 100 + 1 / 2\<rfloor> \<le> \<lfloor>y * 100 + 1 / 2\<rfloor>" using a by (intro floor_mono) simp
  then have "(of_int \<lfloor>x * 100 + 1 / 2\<rfloor> :: rat) \<le> of_int \<lfloor>y * 100 + 1 / 2\<rfloor>" by (simp only: of_int_le_iff)
  then show ?thesis using a by (simp add: toFixed2_def divide_right_mono)
qed

lemma subtotal_fold_nonneg:
  assumes "0 \<le> a" "\<forall>i \<in> set its. 0 \<le> price i \<and> 0 \<le> quantity i"
  shows "0 \<le> foldl (\<lambda>sum item. js_add sum (js_mul (price item) (of_int (quantity item)))) a its"
  using assms
proof (induction its arbitrary: a)
  case Nil
  then show ?case by simp
next
  case (Cons i its)
  have "0 \<le> price i * of_int (quantity i)" using Cons.prems(2) by simp
  then have "0 \<le> js_mul (price i) (of_int (quantity i))" unfolding js_mul_def by (rule fl_nonneg)
  then have "0 \<le> js_add a (js_mul (price i) (of_int (quantity i)))"
    unfolding js_add_def using Cons.prems(1) by (intro fl_nonneg) simp
  then show ?case using Cons.IH Cons.prems(2) by simp
qed

lemma subtotal_fold_representable:
  assumes "fl a = a" "0 \<le> a" "\<forall>i \<in> set its. 0 \<le> price i \<and> 0 \<le> quantity i"
  shows "fl (foldl (\<lambda>sum item. js_add sum (js_mul (price item) (of_int (quantity item)))) a its)
         = foldl (\<lambda>sum item. js_add sum (js_mul (price item) (of_int (quantity item)))) a its"
  using assms
proof (induction its arbitrary: a)
  case Nil
  then show ?case by simp
next
  case (Cons i its)
  let ?b = "js_add a (js_mul (price i) (of_int (quantity i)))"
  have m: "0 \<le> price i * of_int (quantity i)" using Cons.prems(3) by simp
  then have "0 \<le> js_mul (price i) (of_int (quantity i))" unfolding js_mul_def by (rule fl_nonneg)
  then have s: "0 \<le> a + js_mul (price i) (of_int (quantity i))" using Cons.prems(2) by simp
  have b0: "0 \<le> ?b" unfolding js_add_def using s by (rule fl_nonneg)
  have bf: "fl ?b = ?b" unfolding js_add_def using s by (rule fl_idem)
  show ?case using Cons.IH[OF bf b0] Cons.prems(3) by simp
qed

lemma cart_subtotal_nonneg:
  "\<forall>i \<in> set its. 0 \<le> price i \<and> 0 \<le> quantity i \<Longrightarrow> 0 \<le> cart_subtotal its"
  unfolding cart_subtotal_def by (rule subtotal_fold_nonneg) simp_all

lemma cart_subtotal_representable:
  "\<forall>i \<in> set its. 0 \<le> price i \<and> 0 \<le> quantity i \<Longrightarrow> fl (cart_subtotal its) = cart_subtotal its"
  unfolding cart_subtotal_def by (rule subtotal_fold_representable) (simp_all add: fl_def)

lemma cart_total_ge_subtotal:
  assumes "\<forall>i \<in> set its. 0 \<le> price i \<and> 0 \<le> quantity i"
  shows "cart_subtotal its \<le> cart_total its"
proof -
  have s: "0 \<le> cart_subtotal its" using assms by (rule cart_subtotal_nonneg)
  have r: "0 \<le> js_Number (1 / 10)" unfolding js_Number_def by (rule fl_nonneg) simp
  have t: "0 \<le> cart_tax its" unfolding cart_tax_def js_mul_def using s r by (intro fl_nonneg) simp
  have "fl (cart_subtotal its) \<le> fl (cart_subtotal its + cart_tax its)"
    using s t by (intro fl_mono) simp_all
  then show ?thesis unfolding cart_total_def js_add_def using cart_subtotal_representable[OF assms] by simp
qed

text \<open>The computed subtotal, tax and total against the exact amounts.\<close>

lemma subtotal_fold_within:
  assumes "0 \<le> ea" "within_roundings (Suc k) ea a"
    and "\<forall>i \<in> set its. 0 \<le> price i \<and> 0 \<le> quantity i"
  shows "within_roundings (Suc k + length its)
           (ea + sum_list (map (\<lambda>item. price item * of_int (quantity item)) its))
           (foldl (\<lambda>sum item. js_add sum (js_mul (price item) (of_int (quantity item)))) a its)"
  using assms
proof (induction its arbitrary: ea a k)
  case Nil
  then show ?case by simp
next
  case (Cons i its)
  let ?p = "price i * of_int (quantity i)"
  have p0: "0 \<le> ?p" using Cons.prems(3) by simp
  have "within_roundings (Suc 0) ?p (fl ?p)" using p0 within_exact[OF p0] by (rule within_fl)
  then have t: "within_roundings (Suc k) ?p (js_mul (price i) (of_int (quantity i)))"
    unfolding js_mul_def by (rule within_mono[OF p0, rotated]) simp
  have s: "within_roundings (Suc k) (ea + ?p) (a + js_mul (price i) (of_int (quantity i)))"
    using Cons.prems(2) t by (rule within_add)
  have e0: "0 \<le> ea + ?p" using Cons.prems(1) p0 by simp
  have n: "within_roundings (Suc (Suc k)) (ea + ?p) (js_add a (js_mul (price i) (of_int (quantity i))))"
    unfolding js_add_def using e0 s by (rule within_fl)
  have r: "\<forall>i \<in> set its. 0 \<le> price i \<and> 0 \<le> quantity i" using Cons.prems(3) by simp
  from Cons.IH[OF e0 n r] show ?case by (simp add: add.assoc)
qed

lemma spec_subtotal_nonneg:
  "\<forall>i \<in> set its. 0 \<le> price i \<and> 0 \<le> quantity i \<Longrightarrow> 0 \<le> spec_subtotal its"
  unfolding spec_subtotal_def by (induction its) simp_all

lemma cart_subtotal_within:
  assumes "\<forall>i \<in> set its. 0 \<le> price i \<and> 0 \<le> quantity i"
  shows "within_roundings (length its + 1) (spec_subtotal its) (cart_subtotal its)"
proof -
  have "within_roundings (Suc 0) 0 0" by (simp add: within_roundings_def)
  from subtotal_fold_within[OF _ this assms] show ?thesis
    by (simp add: cart_subtotal_def spec_subtotal_def add.commute)
qed

lemma cart_tax_within:
  assumes "\<forall>i \<in> set its. 0 \<le> price i \<and> 0 \<le> quantity i"
  shows "within_roundings (length its + 3) (spec_tax its) (cart_tax its)"
proof -
  have s0: "0 \<le> spec_subtotal its" using assms by (rule spec_subtotal_nonneg)
  have r: "within_roundings (Suc 0) (1 / 10) (js_Number (1 / 10))"
    unfolding js_Number_def by (rule within_fl[OF _ within_exact]) simp_all
  have "within_roundings (length its + 1 + Suc 0) (spec_subtotal its * (1 / 10))
          (cart_subtotal its * js_Number (1 / 10))"
    using s0 cart_subtotal_within[OF assms] r by (intro within_scale) simp_all
  then have "within_roundings (Suc (length its + 1 + Suc 0)) (spec_subtotal its * (1 / 10))
          (fl (cart_subtotal its * js_Number (1 / 10)))"
    using s0 by (intro within_fl[where k = "length its + 1 + Suc 0"]) simp_all
  then show ?thesis by (simp add: cart_tax_def spec_tax_def js_mul_def numeral_3_eq_3)
qed

lemma cart_total_within:
  assumes "\<forall>i \<in> set its. 0 \<le> price i \<and> 0 \<le> quantity i"
  shows "within_roundings (length its + 4) (spec_total its) (cart_total its)"
proof -
  have s0: "0 \<le> spec_subtotal its" using assms by (rule spec_subtotal_nonneg)
  have t0: "0 \<le> spec_tax its" using s0 by (simp add: spec_tax_def)
  have a: "within_roundings (length its + 3) (spec_subtotal its) (cart_subtotal its)"
    by (rule within_mono[OF s0 _ cart_subtotal_within[OF assms]]) simp
  have "within_roundings (length its + 3) (spec_subtotal its + spec_tax its)
          (cart_subtotal its + cart_tax its)"
    using a cart_tax_within[OF assms] by (rule within_add)
  then have "within_roundings (Suc (length its + 3)) (spec_subtotal its + spec_tax its)
          (fl (cart_subtotal its + cart_tax its))"
    using s0 t0 by (intro within_fl[where k = "length its + 3"]) simp_all
  moreover have "Suc (length its + 3) = length its + 4" by simp
  ultimately show ?thesis by (simp only: cart_total_def spec_total_def js_add_def)
qed

text \<open>The line at price 10.75 in floating point.\<close>

lemma fl_ex_price: "fl (43 / 4) = 43 / 4" by code_simp
lemma fl_one: "fl 1 = 1" by code_simp
lemma js_mul_ex_price: "js_mul (43 / 4) 1 = 43 / 4" by code_simp
lemma js_add_ex_price: "js_add 0 (43 / 4) = 43 / 4" by code_simp

lemma ex_priced_subtotal: "cart_subtotal ex_priced_items = 43 / 4"
  by (simp add: cart_subtotal_def ex_priced_items_def js_mul_ex_price js_add_ex_price)

lemma ex_priced_tax: "cart_tax ex_priced_items = js_mul (43 / 4) (js_Number (1 / 10))"
  by (simp add: cart_tax_def ex_priced_subtotal)

lemma ex_priced_total:
  "cart_total ex_priced_items = js_add (43 / 4) (js_mul (43 / 4) (js_Number (1 / 10)))"
  by (simp add: cart_total_def ex_priced_tax ex_priced_subtotal)

lemma ex_priced_tax_range:
  "1 / 1024 \<le> \<bar>43 / 4 * js_Number (1 / 10)\<bar> \<and> \<bar>43 / 4 * js_Number (1 / 10)\<bar> \<le> 1024"
  by code_simp

lemma ex_priced_total_range:
  "1 / 1024 \<le> \<bar>43 / 4 + js_mul (43 / 4) (js_Number (1 / 10))\<bar>
   \<and> \<bar>43 / 4 + js_mul (43 / 4) (js_Number (1 / 10))\<bar> \<le> 1024"
  by code_simp

lemma ex_priced_subtotal_out: "toFixed2 (43 / 4) = 43 / 4" by code_simp

lemma ex_priced_tax_out: "toFixed2 (js_mul (43 / 4) (js_Number (1 / 10))) = 107 / 100"
  by code_simp

lemma ex_priced_total_out:
  "toFixed2 (js_add (43 / 4) (js_mul (43 / 4) (js_Number (1 / 10)))) = 1182 / 100"
  by code_simp

lemma ex_priced_tax_near: "\<bar>107 / 100 - js_mul (43 / 4) (js_Number (1 / 10))\<bar> < 1 / 200"
  by code_simp

lemma ex_priced_spec: "spec_tax ex_priced_items = 43 / 40" "spec_total ex_priced_items = 473 / 40"
  by (simp_all add: spec_tax_def spec_total_def spec_subtotal_def ex_priced_items_def)

lemma ex_priced_numbers_differ:
  "js_Number (107 / 100) \<noteq> js_Number (108 / 100)" "js_Number (1182 / 100) \<noteq> js_Number (1183 / 100)"
  by code_simp+

lemma ex_priced_normal: "totals_normal ex_priced_items"
proof -
  have a: "sums_normal 0 ex_priced_items"
    by (simp add: ex_priced_items_def fl_ex_price fl_one js_mul_ex_price normal_between)
  show ?thesis
    unfolding totals_normal_def ex_priced_tax ex_priced_total ex_priced_subtotal
      ex_priced_subtotal_out ex_priced_tax_out ex_priced_total_out
    using a ex_priced_tax_range ex_priced_total_range by (simp add: normal_between)
qed

lemma ex_priced_calculated:
  "calculateCartTotals ex_priced_items
   = \<lparr>subtotal = js_Number (43 / 4), tax = js_Number (107 / 100), total = js_Number (1182 / 100)\<rparr>"
  by (simp only: calculateCartTotals_def ex_priced_tax ex_priced_total ex_priced_subtotal
        ex_priced_subtotal_out ex_priced_tax_out ex_priced_total_out)

text \<open>
  C9, as stated, at the cart with one line of one unit at price 10.75. The amounts are
  a subtotal of 10.75, a tax of 1.075 and a total of 11.825; rounded half up to two
  decimals, the tax is 1.08 and the total 11.83. \<open>calculateCartTotals\<close> returns the
  tax 1.07 and the total 11.82: the product of 10.75 and the Number 0.1 is computed in
  binary floating point, where it comes out below 1.075, and \<open>toFixed\<close> rounds that.
\<close>

theorem calculateCartTotals_not_half_up_of_amounts:
  "map (\<lambda>i. (price i, quantity i)) ex_priced_items = [(43 / 4, 1)]
   \<and> spec_tax ex_priced_items = 43 / 40
   \<and> rounds_half_up_2dp (spec_tax ex_priced_items) 108
   \<and> tax (calculateCartTotals ex_priced_items) = js_Number (107 / 100)
   \<and> \<not> (\<exists>n. tax (calculateCartTotals ex_priced_items) = js_Number (of_int n / 100)
             \<and> rounds_half_up_2dp (spec_tax ex_priced_items) n)
   \<and> spec_total ex_priced_items = 473 / 40
   \<and> rounds_half_up_2dp (spec_total ex_priced_items) 1183
   \<and> total (calculateCartTotals ex_priced_items) = js_Number (1182 / 100)
   \<and> \<not> (\<exists>n. total (calculateCartTotals ex_priced_items) = js_Number (of_int n / 100)
             \<and> rounds_half_up_2dp (spec_total ex_priced_items) n)"
proof -
  have t: "rounds_half_up_2dp (spec_tax ex_priced_items) 108"
    by (simp add: ex_priced_spec rounds_half_up_2dp_def)
  have u: "rounds_half_up_2dp (spec_total ex_priced_items) 1183"
    by (simp add: ex_priced_spec rounds_half_up_2dp_def)
  have nt: "\<not> (\<exists>n. tax (calculateCartTotals ex_priced_items) = js_Number (of_int n / 100)
             \<and> rounds_half_up_2dp (spec_tax ex_priced_items) n)"
  proof
    assume "\<exists>n. tax (calculateCartTotals ex_priced_items) = js_Number (of_int n / 100)
             \<and> rounds_half_up_2dp (spec_tax ex_priced_items) n"
    then obtain n where n: "tax (calculateCartTotals ex_priced_items) = js_Number (of_int n / 100)"
      "rounds_half_up_2dp (spec_tax ex_priced_items) n" by blast
    have "n = 108" using n(2) t by (rule rounds_half_up_2dp_unique)
    then show False using n(1) ex_priced_numbers_differ(1) by (simp add: ex_priced_calculated)
  qed
  have nu: "\<not> (\<exists>n. total (calculateCartTotals ex_priced_items) = js_Number (of_int n / 100)
             \<and> rounds_half_up_2dp (spec_total ex_priced_items) n)"
  proof
    assume "\<exists>n. total (calculateCartTotals ex_priced_items) = js_Number (of_int n / 100)
             \<and> rounds_half_up_2dp (spec_total ex_priced_items) n"
    then obtain n where n: "total (calculateCartTotals ex_priced_items) = js_Number (of_int n / 100)"
      "rounds_half_up_2dp (spec_total ex_priced_items) n" by blast
    have "n = 1183" using n(2) u by (rule rounds_half_up_2dp_unique)
    then show False using n(1) ex_priced_numbers_differ(2) by (simp add: ex_priced_calculated)
  qed
  have m: "map (\<lambda>i. (price i, quantity i)) ex_priced_items = [(43 / 4, 1)]"
    by (simp add: ex_priced_items_def)
  show ?thesis
    using m t u nt nu by (simp add: ex_priced_spec ex_priced_calculated)
qed

text \<open>
  C9, amended. Take a list of cart lines on which the number model is binary64
  arithmetic (\<open>totals_normal\<close>). \<open>calculateCartTotals\<close> is a function of the list
  alone, so equal lists give equal totals. Each of its three outputs is the Number written
  with two decimals that \<open>toFixed(2)\<close> produces from the value computed in floating point
  for it (the running sum of the products, that sum times the Number 0.1, the sum of the
  two): the nearest amount in hundredths to the computed value, a tie going to the larger
  magnitude. When no price and no quantity is negative, the subtotal is not negative, the
  total is not below the subtotal, and the computed values lie within \<open>n + 1\<close>, \<open>n + 3\<close>
  and \<open>n + 4\<close> roundings of the exact subtotal, tax and total, for \<open>n\<close> lines.
\<close>

theorem calculateCartTotals_rounds_computed_values:
  assumes "totals_normal its"
  shows "(\<exists>n1 n2 n3.
      subtotal (calculateCartTotals its) = js_Number (of_int n1 / 100)
      \<and> rounds_half_up_2dp (cart_subtotal its) n1
      \<and> tax (calculateCartTotals its) = js_Number (of_int n2 / 100)
      \<and> rounds_half_up_2dp (cart_tax its) n2
      \<and> total (calculateCartTotals its) = js_Number (of_int n3 / 100)
      \<and> rounds_half_up_2dp (cart_total its) n3)
   \<and> ((\<forall>i \<in> set its. 0 \<le> price i \<and> 0 \<le> quantity i) \<longrightarrow>
        0 \<le> subtotal (calculateCartTotals its)
        \<and> subtotal (calculateCartTotals its) \<le> total (calculateCartTotals its)
        \<and> within_roundings (length its + 1) (spec_subtotal its) (cart_subtotal its)
        \<and> within_roundings (length its + 3) (spec_tax its) (cart_tax its)
        \<and> within_roundings (length its + 4) (spec_total its) (cart_total its))"
proof (intro conjI impI)
  obtain n1 where n1: "toFixed2 (cart_subtotal its) = of_int n1 / 100" "rounds_half_up_2dp (cart_subtotal its) n1"
    using toFixed2_rounds by blast
  obtain n2 where n2: "toFixed2 (cart_tax its) = of_int n2 / 100" "rounds_half_up_2dp (cart_tax its) n2"
    using toFixed2_rounds by blast
  obtain n3 where n3: "toFixed2 (cart_total its) = of_int n3 / 100" "rounds_half_up_2dp (cart_total its) n3"
    using toFixed2_rounds by blast
  show "\<exists>n1 n2 n3.
      subtotal (calculateCartTotals its) = js_Number (of_int n1 / 100)
      \<and> rounds_half_up_2dp (cart_subtotal its) n1
      \<and> tax (calculateCartTotals its) = js_Number (of_int n2 / 100)
      \<and> rounds_half_up_2dp (cart_tax its) n2
      \<and> total (calculateCartTotals its) = js_Number (of_int n3 / 100)
      \<and> rounds_half_up_2dp (cart_total its) n3"
    by (intro exI[of _ n1] exI[of _ n2] exI[of _ n3]) (simp add: calculateCartTotals_def n1 n2 n3)
next
  assume a: "\<forall>i \<in> set its. 0 \<le> price i \<and> 0 \<le> quantity i"
  have s: "0 \<le> cart_subtotal its" using a by (rule cart_subtotal_nonneg)
  have "0 \<le> toFixed2 (cart_subtotal its)" using s by (rule toFixed2_nonneg)
  then show "0 \<le> subtotal (calculateCartTotals its)"
    unfolding calculateCartTotals_def js_Number_def by (simp add: fl_nonneg)
  have "toFixed2 (cart_subtotal its) \<le> toFixed2 (cart_total its)"
    using s cart_total_ge_subtotal[OF a] by (rule toFixed2_mono)
  then have "fl (toFixed2 (cart_subtotal its)) \<le> fl (toFixed2 (cart_total its))"
    using toFixed2_nonneg[OF s] by (intro fl_mono)
  then show "subtotal (calculateCartTotals its) \<le> total (calculateCartTotals its)"
    unfolding calculateCartTotals_def js_Number_def by simp
  show "within_roundings (length its + 1) (spec_subtotal its) (cart_subtotal its)"
    using a by (rule cart_subtotal_within)
  show "within_roundings (length its + 3) (spec_tax its) (cart_tax its)"
    using a by (rule cart_tax_within)
  show "within_roundings (length its + 4) (spec_total its) (cart_total its)"
    using a by (rule cart_total_within)
qed

theorem calculateCartTotals_rounds_computed_values_witness:
  "totals_normal ex_priced_items
   \<and> list_all (\<lambda>i. 0 \<le> price i \<and> 0 \<le> quantity i) ex_priced_items
   \<and> tax (calculateCartTotals ex_priced_items) = js_Number (107 / 100)
   \<and> rounds_half_up_2dp (cart_tax ex_priced_items) 107
   \<and> 0 \<le> subtotal (calculateCartTotals ex_priced_items)
   \<and> subtotal (calculateCartTotals ex_priced_items) \<le> total (calculateCartTotals ex_priced_items)
   \<and> within_roundings 2 (spec_subtotal ex_priced_items) (cart_subtotal ex_priced_items)
   \<and> within_roundings 4 (spec_tax ex_priced_items) (cart_tax ex_priced_items)
   \<and> within_roundings 5 (spec_total ex_priced_items) (cart_total ex_priced_items)"
proof -
  have h: "\<forall>i \<in> set ex_priced_items. 0 \<le> price i \<and> 0 \<le> quantity i"
    by (simp add: ex_priced_items_def)
  have l: "list_all (\<lambda>i. 0 \<le> price i \<and> 0 \<le> quantity i) ex_priced_items"
    by (simp add: ex_priced_items_def)
  have n: "length ex_priced_items = 1" by (simp add: ex_priced_items_def)
  have r: "rounds_half_up_2dp (cart_tax ex_priced_items) 107"
    using ex_priced_tax_near by (simp add: rounds_half_up_2dp_def ex_priced_tax)
  have t: "tax (calculateCartTotals ex_priced_items) = js_Number (107 / 100)"
    by (simp add: ex_priced_calculated)
  show ?thesis
    using calculateCartTotals_rounds_computed_values[OF ex_priced_normal] h l n r t
      ex_priced_normal by (simp add: numeral_2_eq_2)
qed

section \<open>Order status\<close>

lemma find_map_replace:
  assumes "find P xs = Some c" "P c'"
  shows "find P (map (\<lambda>x. if f x = f c then c' else x) xs) = Some c'"
  using assms by (induction xs) (auto split: if_splits)

lemma Order_findOne_saved:
  assumes "Order_findOne num d = Some ord" "orderNumber ord' = num" "order_id ord' = order_id ord"
  shows "Order_findOne num (d\<lparr>orders := map (\<lambda>x. if order_id x = order_id ord' then ord' else x) (orders d)\<rparr>) = Some ord'"
  using find_map_replace[of "\<lambda>x. orderNumber x = num" "orders d" ord ord' order_id] assms
  by (simp add: Order_findOne_def)

lemma Order_findOne_orderNumber: "Order_findOne num d = Some ord \<Longrightarrow> orderNumber ord = num"
  by (auto simp: Order_findOne_def dest: find_Some_iff[THEN iffD1])

text \<open>
  C7. For an order that exists: setting a valid status stores it, and the payment status
  becomes pending exactly when the new status is cancelled and the payment status was
  paid; otherwise the payment status stays as it was. Setting a payment status that the
  controller and the schema accept stores it, and the status becomes processing exactly
  when the new payment status is paid and the status was pending; otherwise the status
  stays as it was. A payment status that the controller accepts and the schema refuses
  (processing, refunded, refund_pending) changes nothing.
\<close>

theorem order_cross_field_transitions:
  assumes found: "Order_findOne num d = Some ord"
  shows "(st \<in> set validStatuses \<longrightarrow>
           (let ord' = ord\<lparr>order_status := st,
                           paymentStatus := (if st = ''cancelled'' \<and> paymentStatus ord = ''paid''
                                             then ''pending'' else paymentStatus ord)\<rparr>
            in fst (updateOrderStatusController d num (Some st)) = Inr (OrderDoc ord')
               \<and> Order_findOne num (snd (updateOrderStatusController d num (Some st))) = Some ord'))
       \<and> (ps \<in> set validPaymentStatuses \<longrightarrow>
           (let ord' = ord\<lparr>paymentStatus := ps,
                           order_status := (if ps = ''paid'' \<and> order_status ord = ''pending''
                                            then ''processing'' else order_status ord)\<rparr>
            in if ps \<in> set orderSchema_paymentStatus_enum \<or> ps = paymentStatus ord
               then fst (updatePaymentStatusController d num (Some ps)) = Inr (OrderDoc ord')
                    \<and> Order_findOne num (snd (updatePaymentStatusController d num (Some ps))) = Some ord'
               else updatePaymentStatusController d num (Some ps)
                      = (Inl (MongooseValidationError ''paymentStatus''), d)))"
proof (intro conjI impI)
  assume st: "st \<in> set validStatuses"
  have ne: "st \<noteq> []" using st by (auto simp: validStatuses_def)
  have en: "st \<in> set orderSchema_status_enum"
    using st by (simp add: validStatuses_def orderSchema_status_enum_def)
  have pe: "''pending'' \<in> set orderSchema_paymentStatus_enum"
    by (simp add: orderSchema_paymentStatus_enum_def)
  have num: "orderNumber ord = num" using found by (rule Order_findOne_orderNumber)
  define o2 where "o2 = (if st = ''cancelled'' \<and> paymentStatus ord = ''paid''
                         then ord\<lparr>order_status := st, paymentStatus := ''pending''\<rparr>
                         else ord\<lparr>order_status := st\<rparr>)"
  have e: "ord\<lparr>order_status := st,
               paymentStatus := (if st = ''cancelled'' \<and> paymentStatus ord = ''paid''
                                 then ''pending'' else paymentStatus ord)\<rparr> = o2"
    unfolding o2_def by simp
  have o2_id: "order_id o2 = order_id ord" and o2_num: "orderNumber o2 = num"
    and o2_st: "order_status o2 = st"
    and o2_ps: "paymentStatus o2 = paymentStatus ord \<or> paymentStatus o2 \<in> set orderSchema_paymentStatus_enum"
    unfolding o2_def using num pe by simp_all
  have ctl: "updateOrderStatusController d num (Some st)
             = (case Order_save ord o2 d of Inl e \<Rightarrow> (Inl e, d) | Inr d1 \<Rightarrow> (Inr (OrderDoc o2), d1))"
    unfolding updateOrderStatusController_def o2_def using st ne found by (auto simp: Let_def)
  have sv: "Order_save ord o2 d
            = Inr (d\<lparr>orders := map (\<lambda>x. if order_id x = order_id o2 then o2 else x) (orders d)\<rparr>)"
    unfolding Order_save_def using en o2_st o2_ps by auto
  have f: "Order_findOne num (d\<lparr>orders := map (\<lambda>x. if order_id x = order_id o2 then o2 else x) (orders d)\<rparr>) = Some o2"
    using o2_num o2_id by (intro Order_findOne_saved[OF found]) simp_all
  show "let ord' = ord\<lparr>order_status := st,
                        paymentStatus := (if st = ''cancelled'' \<and> paymentStatus ord = ''paid''
                                          then ''pending'' else paymentStatus ord)\<rparr>
        in fst (updateOrderStatusController d num (Some st)) = Inr (OrderDoc ord')
           \<and> Order_findOne num (snd (updateOrderStatusController d num (Some st))) = Some ord'"
    unfolding Let_def e ctl sv using f by simp
next
  assume ps: "ps \<in> set validPaymentStatuses"
  have ne: "ps \<noteq> []" using ps by (auto simp: validPaymentStatuses_def)
  have se: "''processing'' \<in> set orderSchema_status_enum"
    by (simp add: orderSchema_status_enum_def)
  have num: "orderNumber ord = num" using found by (rule Order_findOne_orderNumber)
  define o2 where "o2 = (if ps = ''paid'' \<and> order_status ord = ''pending''
                         then ord\<lparr>paymentStatus := ps, order_status := ''processing''\<rparr>
                         else ord\<lparr>paymentStatus := ps\<rparr>)"
  have e: "ord\<lparr>paymentStatus := ps,
               order_status := (if ps = ''paid'' \<and> order_status ord = ''pending''
                                then ''processing'' else order_status ord)\<rparr> = o2"
    unfolding o2_def by simp
  have o2_id: "order_id o2 = order_id ord" and o2_num: "orderNumber o2 = num"
    and o2_ps: "paymentStatus o2 = ps"
    and o2_st: "order_status o2 = order_status ord \<or> order_status o2 \<in> set orderSchema_status_enum"
    unfolding o2_def using num se by simp_all
  have ctl: "updatePaymentStatusController d num (Some ps)
             = (case Order_save ord o2 d of Inl e \<Rightarrow> (Inl e, d) | Inr d1 \<Rightarrow> (Inr (OrderDoc o2), d1))"
    unfolding updatePaymentStatusController_def o2_def using ps ne found by (auto simp: Let_def)
  show "let ord' = ord\<lparr>paymentStatus := ps,
                        order_status := (if ps = ''paid'' \<and> order_status ord = ''pending''
                                         then ''processing'' else order_status ord)\<rparr>
        in if ps \<in> set orderSchema_paymentStatus_enum \<or> ps = paymentStatus ord
           then fst (updatePaymentStatusController d num (Some ps)) = Inr (OrderDoc ord')
                \<and> Order_findOne num (snd (updatePaymentStatusController d num (Some ps))) = Some ord'
           else updatePaymentStatusController d num (Some ps)
                  = (Inl (MongooseValidationError ''paymentStatus''), d)"
  proof (cases "ps \<in> set orderSchema_paymentStatus_enum \<or> ps = paymentStatus ord")
    case True
    have sv: "Order_save ord o2 d
              = Inr (d\<lparr>orders := map (\<lambda>x. if order_id x = order_id o2 then o2 else x) (orders d)\<rparr>)"
      unfolding Order_save_def using True o2_ps o2_st by auto
    have f: "Order_findOne num (d\<lparr>orders := map (\<lambda>x. if order_id x = order_id o2 then o2 else x) (orders d)\<rparr>) = Some o2"
      using o2_num o2_id by (intro Order_findOne_saved[OF found]) simp_all
    show ?thesis unfolding Let_def e ctl sv using True f by simp
  next
    case False
    have sv: "Order_save ord o2 d = Inl (MongooseValidationError ''paymentStatus'')"
      unfolding Order_save_def using False o2_ps o2_st by auto
    show ?thesis unfolding Let_def e ctl sv using False by simp
  qed
qed

theorem order_cross_field_transitions_witness:
  "Order_findOne ''ORD-4000'' ex_order_db = Some ex_order
   \<and> ''cancelled'' \<in> set validStatuses
   \<and> fst (updateOrderStatusController ex_order_db ''ORD-4000'' (Some ''cancelled''))
       = Inr (OrderDoc (ex_order\<lparr>order_status := ''cancelled'', paymentStatus := ''pending''\<rparr>))
   \<and> ''paid'' \<in> set validPaymentStatuses
   \<and> fst (updatePaymentStatusController ex_order_db ''ORD-4000'' (Some ''paid''))
       = Inr (OrderDoc (ex_order\<lparr>paymentStatus := ''paid'', order_status := ''processing''\<rparr>))"
proof -
  have h: "Order_findOne ''ORD-4000'' ex_order_db = Some ex_order"
    by (simp add: Order_findOne_def ex_order_db_def ex_order_def)
  have a: "''cancelled'' \<in> set validStatuses" by (simp add: validStatuses_def)
  have b: "''paid'' \<in> set validPaymentStatuses" by (simp add: validPaymentStatuses_def)
  have c: "''paid'' \<in> set orderSchema_paymentStatus_enum" by (simp add: orderSchema_paymentStatus_enum_def)
  have p: "paymentStatus ex_order = ''paid''" and s: "order_status ex_order = ''pending''"
    by (simp_all add: ex_order_def)
  show ?thesis
    using order_cross_field_transitions[OF h, of "''cancelled''" "''paid''"] h a b c p s
    by (simp add: Let_def)
qed

section \<open>Reading a cart\<close>

text \<open>
  C3. The cart of session s1 holds one line, for product 9, and the product directory
  has no product 9. The cart is not expired at time 4000 (on a server on UTC). Reading it
  answers with the cart as stored, the line still in it, and writes nothing: every line
  passes the \<open>filter\<close>, because the test of each line is a promise.
\<close>

theorem getCart_keeps_item_of_missing_product:
  "ex_products (product ex_stale_item) = None
   \<and> \<not> isCartExpired zone_utc 4000 ex_stale_cart
   \<and> getCartBySessionController zone_utc 4000 ex_products ex_stale_db ''s1''
       = (Inr (CartDoc ex_stale_cart), ex_stale_db)
   \<and> items ex_stale_cart = [ex_stale_item]"
  by (simp add: getCartBySessionController_def Cart_findOne_def isCartExpired_def
        setHours_getHours_plus_def LocalTime_def UTC_def msPerHour_def zone_utc_def
        CART_EXPIRATION_HOURS_def ex_stale_db_def ex_stale_cart_def ex_stale_item_def
        ex_products_def availabilityCallback_def Let_def)

section \<open>Creating a cart\<close>

text \<open>
  C6. Session s1 has a cart last written at time 3000; at time 86403001 it is expired
  (on a server on UTC). Creating a cart for s1 then marks the stored cart expired (and
  stamps it with the current time), after which the insert of the new cart is refused:
  the old cart still holds the sessionId that the schema declares unique. The request
  fails with status 500 and no new cart exists.
\<close>

theorem createCart_for_expired_session_fails:
  "isCartExpired zone_utc 86403001 ex_cart
   \<and> createCartController zone_utc 86403001 ex_db (Some ''s1'')
       = (Inl (MongoDuplicateKey ''sessionId''),
          ex_db\<lparr>carts := [ex_cart\<lparr>status := ''expired'', updatedAt := Some 86403001\<rparr>]\<rparr>)
   \<and> statusCode (MongoDuplicateKey ''sessionId'') = 500"
  by (simp add: createCartController_def Cart_findOne_def isCartExpired_def
        setHours_getHours_plus_def LocalTime_def UTC_def msPerHour_def zone_utc_def
        CART_EXPIRATION_HOURS_def Cart_findByIdAndUpdate_def Cart_create_def
        ex_db_def ex_cart_def Let_def)

section \<open>Order numbers\<close>

lemma ToString_5000: "ToString_nat 5000 = ''5000''"
  by (simp add: ToString_nat.simps)

text \<open>
  C8. Two sessions each hold a filled cart. Both create an order at time 5000. The first
  order gets the number ORD-5000 and its cart is deleted. The second request builds the
  same number from the same time, its insert is refused by the unique index on
  \<open>orderNumber\<close>, the controller answers 500, and the cart of the second session stays.
\<close>

theorem createOrder_same_timestamp_collides:
  "(case createOrderController 5000 ex_two_carts_db (Some ''s1'') (Some 7) (Some ''card'') (Some ex_shipping) of
      (r1, d1) \<Rightarrow>
        map orderNumber (orders d1) = [''ORD-5000'']
        \<and> Cart_findOne ''s1'' d1 = None
        \<and> Cart_findOne ''s2'' d1 = Some ex_cart2
        \<and> createOrderController 5000 d1 (Some ''s2'') (Some 8) (Some ''card'') (Some ex_shipping)
            = (Inl (HttpError 500 ''Failed to create order''), d1))"
  by (simp add: createOrderController_def Cart_findOne_def Order_create_def Cart_findOneAndDelete_def
        ex_two_carts_db_def ex_cart_def ex_cart2_def ex_items_def ToString_5000 Let_def)

section \<open>Expired carts\<close>

lemma Cart_findOne_sessionId: "Cart_findOne sid d = Some c \<Longrightarrow> sessionId c = sid"
  by (auto simp: Cart_findOne_def dest: find_Some_iff[THEN iffD1])

lemma Cart_findOne_saved:
  assumes "Cart_findOne sid d = Some c" "sessionId c' = sid" "cart_id c' = cart_id c"
  shows "Cart_findOne sid (Cart_save c' d) = Some c'"
  using find_map_replace[of "\<lambda>x. sessionId x = sid" "carts d" c c' cart_id] assms
  by (simp add: Cart_findOne_def Cart_save_def)

text \<open>
  Where the offset of local time from UTC is the same at a time and at the local time 24
  hours later, \<open>setHours(getHours() + 24)\<close> moves the time by 86400000 ms.
\<close>

lemma local_day_without_clock_change:
  assumes "LocalTZA (LocalTime LocalTZA t + 24 * msPerHour) False = LocalTZA t True"
  shows "setHours_getHours_plus LocalTZA 24 t = t + 86400000"
  using assms by (simp add: setHours_getHours_plus_def UTC_def LocalTime_def msPerHour_def)

text \<open>
  A cart whose \<open>updatedAt\<close> lies more than 24 hours before the current time, on a server
  whose clocks were not changed in between: reading it, adding an item (product id given,
  quantity from 1 to 10), updating a quantity (from 1 to 10), removing an item and
  clearing it each fail with the message "Cart has expired" (status 400; 404 from clear),
  and each stores the cart with status expired: the next lookup of the session finds it
  so.
\<close>

lemma expired_cart_operations_fail:
  assumes found: "Cart_findOne sid d = Some c"
    and stamp: "updatedAt c = Some t"
    and clocks: "LocalTZA (LocalTime LocalTZA (int t) + 24 * msPerHour) False = LocalTZA (int t) True"
    and old: "t + 24 * 3600000 < now"
    and q: "1 \<le> q" "q \<le> 10"
    and pid: "pid \<noteq> []"
  shows "getCartBySessionController LocalTZA now prods d sid
           = (Inl (HttpError 400 ''Cart has expired''), Cart_save (c\<lparr>status := ''expired''\<rparr>) d)
       \<and> addCartItemController LocalTZA now prods d sid (Some pid) (Some q) vid
           = (Inl (HttpError 400 ''Cart has expired''), Cart_save (c\<lparr>status := ''expired''\<rparr>) d)
       \<and> updateCartItemController LocalTZA now prods d sid iid (Some q)
           = (Inl (HttpError 400 ''Cart has expired''), Cart_save (c\<lparr>status := ''expired''\<rparr>) d)
       \<and> removeCartItemController LocalTZA now d sid iid
           = (Inl (HttpError 400 ''Cart has expired''), Cart_save (c\<lparr>status := ''expired''\<rparr>) d)
       \<and> clearCartController LocalTZA now d sid
           = (Inl (HttpError 404 ''Cart has expired''), Cart_save (c\<lparr>status := ''expired''\<rparr>) d)
       \<and> Cart_findOne sid (Cart_save (c\<lparr>status := ''expired''\<rparr>) d) = Some (c\<lparr>status := ''expired''\<rparr>)"
proof -
  have e: "isCartExpired LocalTZA now c"
    using stamp old local_day_without_clock_change[OF clocks]
    by (simp add: isCartExpired_def CART_EXPIRATION_HOURS_def)
  have g: "getCartBySessionController LocalTZA now prods d sid
           = (Inl (HttpError 400 ''Cart has expired''), Cart_save (c\<lparr>status := ''expired''\<rparr>) d)"
    using found e by (simp add: getCartBySessionController_def)
  have a: "addCartItemController LocalTZA now prods d sid (Some pid) (Some q) vid
           = (Inl (HttpError 400 ''Cart has expired''), Cart_save (c\<lparr>status := ''expired''\<rparr>) d)"
    using found e q pid
    by (simp add: addCartItemController_def MIN_QUANTITY_PER_ITEM_def MAX_QUANTITY_PER_ITEM_def)
  have u: "updateCartItemController LocalTZA now prods d sid iid (Some q)
           = (Inl (HttpError 400 ''Cart has expired''), Cart_save (c\<lparr>status := ''expired''\<rparr>) d)"
    using found e q
    by (simp add: updateCartItemController_def MIN_QUANTITY_PER_ITEM_def MAX_QUANTITY_PER_ITEM_def)
  have r: "removeCartItemController LocalTZA now d sid iid
           = (Inl (HttpError 400 ''Cart has expired''), Cart_save (c\<lparr>status := ''expired''\<rparr>) d)"
    using found e by (simp add: removeCartItemController_def)
  have cl: "clearCartController LocalTZA now d sid
           = (Inl (HttpError 404 ''Cart has expired''), Cart_save (c\<lparr>status := ''expired''\<rparr>) d)"
    using found e by (simp add: clearCartController_def)
  have s: "Cart_findOne sid (Cart_save (c\<lparr>status := ''expired''\<rparr>) d) = Some (c\<lparr>status := ''expired''\<rparr>)"
    using Cart_findOne_sessionId[OF found] by (intro Cart_findOne_saved[OF found]) simp_all
  from g a u r cl s show ?thesis by simp
qed

text \<open>
  C5. The server is in a zone whose clocks are set back by one hour on 2024-10-27 at
  01:00 UTC. The cart of session s1 was last written on 2024-10-26 at 10:00 UTC, and a
  request for it is served 24 hours and 1 millisecond later, so that its \<open>updatedAt\<close>
  is more than 24 hours before the current time. \<open>isCartExpired\<close> moves \<open>updatedAt\<close>
  ahead by 24 hours of local time, to the same time of day on the 27th, which is 25
  hours later: the cart is not expired. Reading it answers with the cart, adding an
  item and clearing it succeed, and none of them stores the status expired.
\<close>

theorem expired_cart_served_after_clock_change:
  "Cart_findOne ''s1'' ex_autumn_db = Some ex_autumn_cart
   \<and> updatedAt ex_autumn_cart = Some 1729936800000
   \<and> (1729936800000 :: nat) + 24 * 3600000 < 1730023200001
   \<and> \<not> isCartExpired zone_fall_back 1730023200001 ex_autumn_cart
   \<and> getCartBySessionController zone_fall_back 1730023200001 ex_products ex_autumn_db ''s1''
       = (Inr (CartDoc ex_autumn_cart), ex_autumn_db)
   \<and> fst (addCartItemController zone_fall_back 1730023200001 ex_products ex_autumn_db ''s1''
            (Some ex_id2) (Some 1) None)
       = Inr (CartDoc (ex_autumn_cart
           \<lparr>items := [\<lparr>item_id = 1, product = 1, variant = None, quantity = 2, price = 10\<rparr>,
                      \<lparr>item_id = 2, product = 2, variant = None, quantity = 2, price = 5\<rparr>],
            totals := calculateCartTotals
                     [\<lparr>item_id = 1, product = 1, variant = None, quantity = 2, price = 10\<rparr>,
                      \<lparr>item_id = 2, product = 2, variant = None, quantity = 2, price = 5\<rparr>],
            updatedAt := Some 1730023200001\<rparr>))
   \<and> clearCartController zone_fall_back 1730023200001 ex_autumn_db ''s1''
       = (Inr (MessageDoc ''Cart cleared successfully''),
          ex_autumn_db\<lparr>carts := [ex_autumn_cart\<lparr>items := [],
                                     totals := \<lparr>subtotal = 0, tax = 0, total = 0\<rparr>,
                                     updatedAt := Some 1730023200001\<rparr>]\<rparr>)"
proof -
  have f: "Cart_findOne ''s1'' ex_autumn_db = Some ex_autumn_cart"
    by (simp add: Cart_findOne_def ex_autumn_db_def ex_autumn_cart_def)
  have e: "\<not> isCartExpired zone_fall_back 1730023200001 ex_autumn_cart"
    by (simp add: isCartExpired_def setHours_getHours_plus_def LocalTime_def UTC_def msPerHour_def
          zone_fall_back_def CART_EXPIRATION_HOURS_def ex_autumn_cart_def)
  have g: "getCartBySessionController zone_fall_back 1730023200001 ex_products ex_autumn_db ''s1''
       = (Inr (CartDoc ex_autumn_cart), ex_autumn_db)"
    using f e by (simp add: getCartBySessionController_def Let_def availabilityCallback_def)
  have a: "fst (addCartItemController zone_fall_back 1730023200001 ex_products ex_autumn_db ''s1''
            (Some ex_id2) (Some 1) None)
       = Inr (CartDoc (ex_autumn_cart
           \<lparr>items := [\<lparr>item_id = 1, product = 1, variant = None, quantity = 2, price = 10\<rparr>,
                      \<lparr>item_id = 2, product = 2, variant = None, quantity = 2, price = 5\<rparr>],
            totals := calculateCartTotals
                     [\<lparr>item_id = 1, product = 1, variant = None, quantity = 2, price = 10\<rparr>,
                      \<lparr>item_id = 2, product = 2, variant = None, quantity = 2, price = 5\<rparr>],
            updatedAt := Some 1730023200001\<rparr>))"
    using f e
    by (simp add: addCartItemController_def Let_def ex_autumn_cart_def ex_items_def
          MIN_QUANTITY_PER_ITEM_def MAX_QUANTITY_PER_ITEM_def MAX_ITEMS_PER_CART_def
          cast_ex_id2 ex_ids_distinct ex_products_def line_selected_def falsy_def
          toString_1 toString_Suc_0 toString_2)
  have c: "clearCartController zone_fall_back 1730023200001 ex_autumn_db ''s1''
       = (Inr (MessageDoc ''Cart cleared successfully''),
          ex_autumn_db\<lparr>carts := [ex_autumn_cart\<lparr>items := [],
                                     totals := \<lparr>subtotal = 0, tax = 0, total = 0\<rparr>,
                                     updatedAt := Some 1730023200001\<rparr>]\<rparr>)"
    using f e
    by (simp add: clearCartController_def Let_def Cart_save_def ex_autumn_db_def ex_autumn_cart_def)
  have s: "updatedAt ex_autumn_cart = Some 1729936800000" by (simp add: ex_autumn_cart_def)
  from f s e g a c show ?thesis by simp
qed

section \<open>The store invariant\<close>

lemma findIndex_Some:
  "findIndex P xs = Some i \<Longrightarrow> i < length xs \<and> P (xs ! i) \<and> (\<forall>k<i. \<not> P (xs ! k))"
proof (induction xs arbitrary: i)
  case Nil
  then show ?case by simp
next
  case (Cons x xs)
  show ?case
  proof (cases "P x")
    case True
    then show ?thesis using Cons.prems by simp
  next
    case False
    then obtain k where k: "findIndex P xs = Some k" "i = Suc k"
      using Cons.prems by (auto split: if_splits)
    from Cons.IH[OF k(1)] False k(2) show ?thesis
      by (auto simp: nth_Cons split: nat.split)
  qed
qed

lemma findIndex_None: "findIndex P xs = None \<Longrightarrow> \<forall>x \<in> set xs. \<not> P x"
  by (induction xs) (auto split: if_splits)

lemma floor_half: "\<lfloor>(1::rat) / 2\<rfloor> = 0"
  by (rule floor_unique) simp_all

lemma calculateCartTotals_Nil: "calculateCartTotals [] = \<lparr>subtotal = 0, tax = 0, total = 0\<rparr>"
  by (simp add: calculateCartTotals_def cart_subtotal_def cart_tax_def cart_total_def
        js_add_def js_mul_def js_Number_def toFixed2_def fl_def floor_half)

lemma list_all_update: "list_all P xs \<Longrightarrow> P x \<Longrightarrow> list_all P (xs[i := x])"
  using set_update_subset_insert[of xs i x] by (auto simp: list_all_iff)

lemma update_quantity_keys:
  assumes "k < length xs"
  shows "product (xs[i := (xs ! i)\<lparr>quantity := n\<rparr>] ! k) = product (xs ! k)"
    and "variant (xs[i := (xs ! i)\<lparr>quantity := n\<rparr>] ! k) = variant (xs ! k)"
  using assms by (cases "k = i"; simp)+

lemma lines_wf_update_quantity:
  assumes "lines_wf xs"
  shows "lines_wf (xs[i := (xs ! i)\<lparr>quantity := n\<rparr>])"
proof -
  have "\<not> line_matches (product (xs[i := (xs ! i)\<lparr>quantity := n\<rparr>] ! b))
                        (variant (xs[i := (xs ! i)\<lparr>quantity := n\<rparr>] ! b))
                        (xs[i := (xs ! i)\<lparr>quantity := n\<rparr>] ! a)"
    if "a < b" "b < length xs" for a b
  proof -
    have a: "a < length xs" using that by simp
    have "\<not> line_matches (product (xs ! b)) (variant (xs ! b)) (xs ! a)"
      using assms that unfolding lines_wf_def by (auto dest: sorted_wrt_nth_less)
    then show ?thesis
      using update_quantity_keys[OF a, of i n] update_quantity_keys[OF that(2), of i n]
      by (simp add: line_matches_def)
  qed
  then show ?thesis unfolding lines_wf_def sorted_wrt_iff_nth_less by simp
qed

lemma lines_wf_append:
  assumes "lines_wf xs" "\<forall>a \<in> set xs. \<not> line_matches (product x) (variant x) a"
  shows "lines_wf (xs @ [x])"
  using assms unfolding lines_wf_def by (simp add: sorted_wrt_append)

lemma lines_wf_splice1:
  assumes "lines_wf xs"
  shows "lines_wf (splice1 i xs)"
proof -
  let ?P = "\<lambda>a b. \<not> line_matches (product b) (variant b) a"
  have w: "sorted_wrt ?P (take i xs @ drop i xs)" using assms unfolding lines_wf_def by simp
  have sub: "set (drop (Suc i) xs) \<subseteq> set (drop i xs)" by (rule set_drop_subset_set_drop) simp
  have "sorted_wrt ?P (take i xs)" and d: "sorted_wrt ?P (drop i xs)"
    and cross: "\<forall>x \<in> set (take i xs). \<forall>y \<in> set (drop i xs). ?P x y"
    using w unfolding sorted_wrt_append by auto
  moreover have "sorted_wrt ?P (drop (Suc i) xs)"
    using assms unfolding lines_wf_def by (rule sorted_wrt_drop)
  ultimately show ?thesis unfolding lines_wf_def splice1_def sorted_wrt_append using sub by blast
qed

lemma list_all_splice1: "list_all P xs \<Longrightarrow> list_all P (splice1 i xs)"
  unfolding splice1_def list_all_iff by (auto dest: in_set_takeD in_set_dropD)

lemma length_splice1: "length (splice1 i xs) \<le> length xs"
  unfolding splice1_def by simp

lemma item_ok_quantity: "item_ok i \<Longrightarrow> 1 \<le> q \<Longrightarrow> q \<le> 10 \<Longrightarrow> item_ok (i\<lparr>quantity := q\<rparr>)"
  by (simp add: item_ok_def)

lemma item_ok_bounds: "item_ok i \<Longrightarrow> 1 \<le> quantity i \<and> quantity i \<le> 10"
  by (simp add: item_ok_def)

lemma item_ok_product: "item_ok i \<Longrightarrow> product i < 16 ^ 24"
  unfolding item_ok_def by (elim conjE)

lemma cart_inv_status [simp]:
  "cart_inv w (c\<lparr>status := s\<rparr>) = cart_inv w c"
  "cart_inv w (c\<lparr>status := s, updatedAt := u\<rparr>) = cart_inv w c"
  by (simp_all add: cart_inv_def)

lemma cart_inv_items:
  "cart_inv w (c\<lparr>items := its, totals := calculateCartTotals its, updatedAt := u\<rparr>)
   \<longleftrightarrow> length its \<le> 50 \<and> list_all item_ok its \<and> (w \<longrightarrow> lines_wf its)"
  by (simp add: cart_inv_def)

lemma Cart_findOne_mem: "Cart_findOne sid d = Some c \<Longrightarrow> c \<in> set (carts d)"
  unfolding Cart_findOne_def find_Some_iff by auto

lemma Cart_findOne_active_mem: "Cart_findOne_active sid d = Some c \<Longrightarrow> c \<in> set (carts d)"
  unfolding Cart_findOne_active_def find_Some_iff by auto

lemma Cart_findOne_None: "Cart_findOne sid d = None \<Longrightarrow> \<forall>c \<in> set (carts d). sessionId c \<noteq> sid"
  unfolding Cart_findOne_def find_None_iff by auto

lemma db_inv_cart: "db_inv w d \<Longrightarrow> c \<in> set (carts d) \<Longrightarrow> cart_inv w c"
  by (simp add: db_inv_def list_all_iff)

lemma db_inv_save:
  assumes inv: "db_inv w d" and mem: "c \<in> set (carts d)" and c': "cart_inv w c'"
    and same: "cart_id c' = cart_id c" "sessionId c' = sessionId c"
  shows "db_inv w (Cart_save c' d)"
proof -
  let ?f = "\<lambda>x. if cart_id x = cart_id c' then c' else x"
  have inj: "inj_on cart_id (set (carts d))" using inv by (simp add: db_inv_def distinct_map)
  have only: "x = c" if "x \<in> set (carts d)" "cart_id x = cart_id c'" for x
    using inj that mem same(1) by (auto dest: inj_onD)
  have sid: "map sessionId (map ?f (carts d)) = map sessionId (carts d)"
    using only same(2) by (auto simp: map_eq_conv)
  have cid: "map cart_id (map ?f (carts d)) = map cart_id (carts d)"
    by (auto simp: map_eq_conv)
  have all: "list_all (cart_inv w) (map ?f (carts d))"
    using inv c' by (auto simp: db_inv_def list_all_iff)
  have lt: "list_all (\<lambda>x. cart_id x < next_id d) (map ?f (carts d))"
    using inv mem same(1) by (auto simp: db_inv_def list_all_iff)
  have d1: "distinct (map sessionId (map ?f (carts d)))"
    unfolding sid using inv by (simp add: db_inv_def)
  have d2: "distinct (map cart_id (map ?f (carts d)))"
    unfolding cid using inv by (simp add: db_inv_def)
  show ?thesis
    unfolding db_inv_def Cart_save_def using d1 d2 all lt by simp
qed

lemma db_inv_next_id: "db_inv w d \<Longrightarrow> db_inv w (d\<lparr>next_id := next_id d + 1\<rparr>)"
  by (auto simp: db_inv_def list_all_iff)

lemma db_inv_findByIdAndUpdate:
  assumes "db_inv w d"
  shows "db_inv w (Cart_findByIdAndUpdate i st now d)"
proof -
  let ?f = "\<lambda>x. if cart_id x = i then x\<lparr>status := st, updatedAt := Some now\<rparr> else x"
  have sid: "map sessionId (map ?f (carts d)) = map sessionId (carts d)"
    by (auto simp: map_eq_conv)
  have cid: "map cart_id (map ?f (carts d)) = map cart_id (carts d)"
    by (auto simp: map_eq_conv)
  have all: "list_all (cart_inv w) (map ?f (carts d))"
    using assms by (auto simp: db_inv_def list_all_iff)
  have lt: "list_all (\<lambda>x. cart_id x < next_id d) (map ?f (carts d))"
    using assms by (auto simp: db_inv_def list_all_iff)
  have d1: "distinct (map sessionId (map ?f (carts d)))"
    unfolding sid using assms by (simp add: db_inv_def)
  have d2: "distinct (map cart_id (map ?f (carts d)))"
    unfolding cid using assms by (simp add: db_inv_def)
  show ?thesis
    unfolding db_inv_def Cart_findByIdAndUpdate_def using d1 d2 all lt by simp
qed

lemma db_inv_create:
  assumes "db_inv w d" "Cart_create sid d = Inr (c, d')"
  shows "db_inv w d'"
proof -
  have none: "\<forall>x \<in> set (carts d). sessionId x \<noteq> sid"
    using assms(2) by (auto simp: Cart_create_def split: if_splits)
  have c: "c = \<lparr>cart_id = next_id d, sessionId = sid, items = [], status = ''active'',
                 totals = \<lparr>subtotal = 0, tax = 0, total = 0\<rparr>, updatedAt = None\<rparr>"
    and d': "d' = d\<lparr>carts := carts d @ [c], next_id := next_id d + 1\<rparr>"
    using assms(2) by (auto simp: Cart_create_def Let_def split: if_splits)
  have ci: "cart_inv w c"
    unfolding c by (simp add: cart_inv_def calculateCartTotals_Nil lines_wf_def)
  have fresh: "\<forall>x \<in> set (carts d). cart_id x \<noteq> next_id d"
    using assms(1) by (auto simp: db_inv_def list_all_iff)
  show ?thesis
    unfolding d' db_inv_def using assms(1) ci none fresh
    by (auto simp: db_inv_def list_all_iff c)
qed

lemma remove_first_subset: "set (remove_first P xs) \<subseteq> set xs"
  by (induction xs) auto

lemma remove_first_distinct_map: "distinct (map f xs) \<Longrightarrow> distinct (map f (remove_first P xs))"
proof (induction xs)
  case Nil
  then show ?case by simp
next
  case (Cons x xs)
  then show ?case using remove_first_subset[of P xs] by auto
qed

lemma db_inv_delete: "db_inv w d \<Longrightarrow> db_inv w (Cart_findOneAndDelete sid d)"
  unfolding db_inv_def Cart_findOneAndDelete_def list_all_iff
  using remove_first_subset[of "\<lambda>c. sessionId c = sid" "carts d"]
  by (auto intro: remove_first_distinct_map)

lemma db_inv_orders [simp]: "db_inv w (d\<lparr>orders := x\<rparr>) = db_inv w d"
  by (simp add: db_inv_def)

lemma db_inv_Order_create: "db_inv w d \<Longrightarrow> Order_create doc d = Inr (ord, d') \<Longrightarrow> db_inv w d'"
  by (fastforce simp: Order_create_def Let_def db_inv_def list_all_iff less_Suc_eq split: if_splits)

lemma db_inv_Order_save: "db_inv w d \<Longrightarrow> Order_save loaded doc d = Inr d' \<Longrightarrow> db_inv w d'"
  by (auto simp: Order_save_def split: if_splits)

lemma found_inv:
  assumes "db_inv w d" "Cart_findOne sid d = Some c"
  shows "length (items c) \<le> 50" "list_all item_ok (items c)" "w \<longrightarrow> lines_wf (items c)"
  using db_inv_cart[OF assms(1) Cart_findOne_mem[OF assms(2)]] by (simp_all add: cart_inv_def)

lemma db_inv_save_expired:
  assumes "db_inv w d" "Cart_findOne sid d = Some c"
  shows "db_inv w (Cart_save (c\<lparr>status := ''expired''\<rparr>) d)"
  using assms db_inv_cart[OF assms(1) Cart_findOne_mem[OF assms(2)]]
  by (intro db_inv_save[OF assms(1) Cart_findOne_mem[OF assms(2)]]) simp_all

lemma db_inv_save_items:
  assumes "db_inv w d" "c \<in> set (carts d)"
    and "length its \<le> 50" "list_all item_ok its" "w \<longrightarrow> lines_wf its"
  shows "db_inv w (Cart_save (c\<lparr>items := its, totals := calculateCartTotals its, updatedAt := u\<rparr>) d)"
  using assms(3-5) by (intro db_inv_save[OF assms(1,2)]) (simp_all add: cart_inv_items)

lemma db_inv_createCart:
  assumes "db_inv w d"
  shows "db_inv w (snd (createCartController tz now d sid))"
proof -
  have a: "db_inv w (Cart_findByIdAndUpdate i ''expired'' now d)" for i
    using assms by (rule db_inv_findByIdAndUpdate)
  show ?thesis
    using assms a
    by (auto simp: createCartController_def Let_def split: option.splits sum.splits
          dest: db_inv_create)
qed

lemma db_inv_getCart:
  assumes "db_inv w d"
  shows "db_inv w (snd (getCartBySessionController tz now prods d sid))"
  using assms
  by (auto simp: getCartBySessionController_def Let_def split: option.splits
        intro: db_inv_save_expired)

lemma db_inv_clearCart:
  assumes "db_inv w d"
  shows "db_inv w (snd (clearCartController tz now d sid))"
proof (cases "Cart_findOne sid d")
  case None
  then show ?thesis using assms by (simp add: clearCartController_def)
next
  case (Some c)
  have e: "db_inv w (Cart_save (c\<lparr>status := ''expired''\<rparr>) d)"
    using assms Some by (rule db_inv_save_expired)
  have "db_inv w (Cart_save (c\<lparr>items := [], totals := calculateCartTotals [], updatedAt := Some now\<rparr>) d)"
    using assms Cart_findOne_mem[OF Some] by (rule db_inv_save_items) (simp_all add: lines_wf_def)
  then show ?thesis using assms Some e
    by (simp add: clearCartController_def Let_def calculateCartTotals_Nil)
qed

lemma db_inv_removeCartItem:
  assumes "db_inv w d"
  shows "db_inv w (snd (removeCartItemController tz now d sid iid))"
proof (cases "Cart_findOne sid d")
  case None
  then show ?thesis using assms by (simp add: removeCartItemController_def)
next
  case (Some c)
  note f = found_inv[OF assms Some]
  have e: "db_inv w (Cart_save (c\<lparr>status := ''expired''\<rparr>) d)"
    using assms Some by (rule db_inv_save_expired)
  have r: "db_inv w (Cart_save (c\<lparr>items := splice1 i (items c),
                                 totals := calculateCartTotals (splice1 i (items c)),
                                 updatedAt := Some now\<rparr>) d)" for i
    using assms Cart_findOne_mem[OF Some]
  proof (rule db_inv_save_items)
    show "length (splice1 i (items c)) \<le> 50" using length_splice1[of i "items c"] f(1) by simp
    show "list_all item_ok (splice1 i (items c))" using f(2) by (rule list_all_splice1)
    show "w \<longrightarrow> lines_wf (splice1 i (items c))" using f(3) by (simp add: lines_wf_splice1)
  qed
  show ?thesis using assms Some e r
    by (auto simp: removeCartItemController_def Let_def split: option.splits)
qed

lemma db_inv_updateCartItem:
  assumes "db_inv w d"
  shows "db_inv w (snd (updateCartItemController tz now prods d sid iid qf))"
proof (cases "Cart_findOne sid d")
  case None
  then show ?thesis using assms
    by (auto simp: updateCartItemController_def split: option.splits)
next
  case (Some c)
  note f = found_inv[OF assms Some]
  have e: "db_inv w (Cart_save (c\<lparr>status := ''expired''\<rparr>) d)"
    using assms Some by (rule db_inv_save_expired)
  have r: "db_inv w (Cart_save (c\<lparr>items := (items c)[i := (items c ! i)\<lparr>quantity := q\<rparr>],
                                 totals := calculateCartTotals ((items c)[i := (items c ! i)\<lparr>quantity := q\<rparr>]),
                                 updatedAt := Some now\<rparr>) d)"
    if "i < length (items c)" "1 \<le> q" "q \<le> 10" for i q
    using assms Cart_findOne_mem[OF Some]
  proof (rule db_inv_save_items)
    show "length ((items c)[i := (items c ! i)\<lparr>quantity := q\<rparr>]) \<le> 50" using f(1) by simp
    have "item_ok (items c ! i)" using f(2) that(1) by (simp add: list_all_length)
    then have "item_ok ((items c ! i)\<lparr>quantity := q\<rparr>)" using that(2,3) by (rule item_ok_quantity)
    then show "list_all item_ok ((items c)[i := (items c ! i)\<lparr>quantity := q\<rparr>])"
      using f(2) by (intro list_all_update)
    show "w \<longrightarrow> lines_wf ((items c)[i := (items c ! i)\<lparr>quantity := q\<rparr>])"
      using f(3) by (simp add: lines_wf_update_quantity)
  qed
  have fi: "i < length (items c)" if "findIndex P (items c) = Some i" for P i
    using findIndex_Some[OF that] by simp
  show ?thesis using assms Some e r fi
    by (auto simp: updateCartItemController_def Let_def MIN_QUANTITY_PER_ITEM_def
          MAX_QUANTITY_PER_ITEM_def split: option.splits)
qed

lemma db_inv_addCartItem:
  assumes "db_inv w d" and sf: "w \<longrightarrow> stored_form pf \<and> stored_form vf"
  shows "db_inv w (snd (addCartItemController tz now prods d sid pf qf vf))"
proof (cases "Cart_findOne sid d")
  case None
  then show ?thesis using assms
    by (auto simp: addCartItemController_def Let_def split: option.splits)
next
  case (Some c)
  note f = found_inv[OF assms(1) Some]
  have mem: "c \<in> set (carts d)" using Some by (rule Cart_findOne_mem)
  have e: "db_inv w (Cart_save (c\<lparr>status := ''expired''\<rparr>) d)"
    using assms(1) Some by (rule db_inv_save_expired)
  have m: "db_inv w (Cart_save (c\<lparr>items := (items c)[i := (items c ! i)\<lparr>quantity := quantity (items c ! i) + q\<rparr>],
                                 totals := calculateCartTotals ((items c)[i := (items c ! i)\<lparr>quantity := quantity (items c ! i) + q\<rparr>]),
                                 updatedAt := Some now\<rparr>) d)"
    if "findIndex P (items c) = Some i" "1 \<le> q" "quantity (items c ! i) + q \<le> 10"
    for i q P
    using assms(1) mem
  proof (rule db_inv_save_items)
    have i: "i < length (items c)" using findIndex_Some[OF that(1)] by simp
    then have ok: "item_ok (items c ! i)" using f(2) by (simp add: list_all_length)
    have "1 \<le> quantity (items c ! i) + q" using item_ok_bounds[OF ok] that(2) by simp
    then have "item_ok ((items c ! i)\<lparr>quantity := quantity (items c ! i) + q\<rparr>)"
      using ok that(3) by (intro item_ok_quantity)
    then show "list_all item_ok ((items c)[i := (items c ! i)\<lparr>quantity := quantity (items c ! i) + q\<rparr>])"
      using f(2) by (intro list_all_update)
    show "length ((items c)[i := (items c ! i)\<lparr>quantity := quantity (items c ! i) + q\<rparr>]) \<le> 50"
      using f(1) by simp
    show "w \<longrightarrow> lines_wf ((items c)[i := (items c ! i)\<lparr>quantity := quantity (items c ! i) + q\<rparr>])"
      using f(3) by (simp add: lines_wf_update_quantity)
  qed
  have p: "db_inv w (Cart_save (c\<lparr>items := items c @ [\<lparr>item_id = n, product = pid, variant = vid, quantity = q, price = pr\<rparr>],
                                 totals := calculateCartTotals (items c @ [\<lparr>item_id = n, product = pid, variant = vid, quantity = q, price = pr\<rparr>]),
                                 updatedAt := Some now\<rparr>) (d\<lparr>next_id := next_id d + 1\<rparr>))"
    if pf: "pf = Some productId" and cp: "castObjectId productId = Some pid"
      and none: "findIndex (line_selected productId vf) (items c) = None"
      and cv: "(case vf of None \<Rightarrow> Some None | Some v \<Rightarrow> map_option Some (castObjectId v)) = Some vid"
      and q: "1 \<le> q" "q \<le> 10" and room: "length (items c) < 50"
    for n q pid vid pr productId
  proof (rule db_inv_save_items)
    let ?new = "\<lparr>item_id = n, product = pid, variant = vid, quantity = q, price = pr\<rparr>"
    show "db_inv w (d\<lparr>next_id := next_id d + 1\<rparr>)" using assms(1) by (rule db_inv_next_id)
    show "c \<in> set (carts (d\<lparr>next_id := next_id d + 1\<rparr>))" using mem by simp
    show "length (items c @ [?new]) \<le> 50" using room by simp
    have vb: "case vid of None \<Rightarrow> True | Some v \<Rightarrow> v < 16 ^ 24"
      using cv by (auto split: option.splits dest: castObjectId_lt)
    have "item_ok ?new" unfolding item_ok_def using q castObjectId_lt[OF cp] vb by simp
    then show "list_all item_ok (items c @ [?new])" using f(2) by simp
    show "w \<longrightarrow> lines_wf (items c @ [?new])"
    proof
      assume w: w
      have ps: "ObjectId_toString pid = productId"
        using sf w pf cp castObjectId_nonempty[OF cp] by (simp add: stored_form_def)
      have vs: "falsy vf \<or> vf = map_option ObjectId_toString vid"
      proof (cases vf)
        case None
        then show ?thesis by (simp add: falsy_def)
      next
        case (Some v)
        then obtain x where x: "castObjectId v = Some x" "vid = Some x" using cv by auto
        have "ObjectId_toString x = v"
          using sf w Some x(1) castObjectId_nonempty[OF x(1)] by (simp add: stored_form_def)
        then show ?thesis using Some x(2) by simp
      qed
      have vn: "vid = None \<Longrightarrow> falsy vf"
        using cv by (auto simp: falsy_def split: option.splits)
      have "\<not> line_matches pid vid a" if a: "a \<in> set (items c)" for a
      proof
        assume lm: "line_matches pid vid a"
        have "line_selected productId vf a"
          using lm ps vs vn by (auto simp: line_matches_def line_selected_def)
        then show False using findIndex_None[OF none] a by simp
      qed
      then show "lines_wf (items c @ [?new])"
        using f(3) w by (intro lines_wf_append) simp_all
    qed
  qed
  show ?thesis
  proof (cases pf)
    case None
    then show ?thesis using assms(1) by (simp add: addCartItemController_def)
  next
    case pfs: (Some productId)
    define qty where "qty = (case qf of None \<Rightarrow> 1 | Some q \<Rightarrow> q)"
    show ?thesis
    proof (cases "productId = [] \<or> qty < 1 \<or> 10 < qty \<or> isCartExpired tz now c
                  \<or> status c \<noteq> ''active'' \<or> 50 \<le> length (items c)")
      case True
      then show ?thesis using assms(1) Some e pfs
        by (auto simp: addCartItemController_def Let_def qty_def MIN_QUANTITY_PER_ITEM_def
              MAX_QUANTITY_PER_ITEM_def MAX_ITEMS_PER_CART_def)
    next
      case False
      then have pre: "productId \<noteq> []" "1 \<le> qty" "qty \<le> 10" "\<not> isCartExpired tz now c"
        "status c = ''active''" "length (items c) < 50" by simp_all
      show ?thesis
      proof (cases "castObjectId productId")
        case None
        then show ?thesis using assms(1) Some pfs pre
          by (simp add: addCartItemController_def Let_def qty_def[symmetric]
                MIN_QUANTITY_PER_ITEM_def MAX_QUANTITY_PER_ITEM_def MAX_ITEMS_PER_CART_def)
      next
        case cp: (Some pid)
        show ?thesis
        proof (cases "prods pid")
          case None
          then show ?thesis using assms(1) Some pfs pre cp
            by (simp add: addCartItemController_def Let_def qty_def[symmetric]
                  MIN_QUANTITY_PER_ITEM_def MAX_QUANTITY_PER_ITEM_def MAX_ITEMS_PER_CART_def)
        next
          case pr: (Some pdoc)
          show ?thesis
          proof (cases "\<not> isActive pdoc \<or> inventory_quantity pdoc - inventory_reserved pdoc < qty")
            case True
            then show ?thesis using assms(1) Some pfs pre cp pr
              by (auto simp: addCartItemController_def Let_def qty_def[symmetric]
                    MIN_QUANTITY_PER_ITEM_def MAX_QUANTITY_PER_ITEM_def MAX_ITEMS_PER_CART_def)
          next
            case avail: False
            show ?thesis
            proof (cases "findIndex (line_selected productId vf) (items c)")
              case fi: (Some i)
              show ?thesis
                using assms(1) Some pfs pre cp pr avail fi m[OF fi pre(2)]
                by (auto simp: addCartItemController_def Let_def qty_def[symmetric]
                      MIN_QUANTITY_PER_ITEM_def MAX_QUANTITY_PER_ITEM_def MAX_ITEMS_PER_CART_def
                      not_less)
            next
              case fn: None
              show ?thesis
              proof (cases "case vf of None \<Rightarrow> Some None | Some v \<Rightarrow> map_option Some (castObjectId v)")
                case None
                then show ?thesis using assms(1) Some pfs pre cp pr avail fn
                  by (simp add: addCartItemController_def Let_def qty_def[symmetric]
                        MIN_QUANTITY_PER_ITEM_def MAX_QUANTITY_PER_ITEM_def MAX_ITEMS_PER_CART_def)
              next
                case cv: (Some vid)
                show ?thesis
                  using Some pfs pre cp pr avail fn cv p[OF pfs cp fn cv pre(2,3,6)]
                  by (simp add: addCartItemController_def Let_def qty_def[symmetric]
                        MIN_QUANTITY_PER_ITEM_def MAX_QUANTITY_PER_ITEM_def MAX_ITEMS_PER_CART_def)
              qed
            qed
          qed
        qed
      qed
    qed
  qed
qed

lemma mergeItem_inv:
  assumes "length T \<le> 50" "list_all item_ok T" "w \<longrightarrow> lines_wf T" "item_ok s"
  shows "length (mergeItem T s) \<le> 50 \<and> list_all item_ok (mergeItem T s)
         \<and> (w \<longrightarrow> lines_wf (mergeItem T s))"
proof (cases "findIndex (line_matches (product s) (variant s)) T")
  case None
  show ?thesis
  proof (cases "50 \<le> length T")
    case True
    then show ?thesis using assms None by (simp add: mergeItem_def MAX_ITEMS_PER_CART_def)
  next
    case False
    have "w \<longrightarrow> lines_wf (T @ [s])"
      using assms(3) findIndex_None[OF None] by (auto intro: lines_wf_append)
    then show ?thesis using assms None False by (simp add: mergeItem_def MAX_ITEMS_PER_CART_def)
  qed
next
  case (Some i)
  have i: "i < length T" using findIndex_Some[OF Some] by simp
  then have ok: "item_ok (T ! i)" using assms(2) by (simp add: list_all_length)
  have "1 \<le> min (quantity (T ! i) + quantity s) 10" "min (quantity (T ! i) + quantity s) 10 \<le> 10"
    using item_ok_bounds[OF ok] item_ok_bounds[OF assms(4)] by simp_all
  then have "item_ok ((T ! i)\<lparr>quantity := min (quantity (T ! i) + quantity s) 10\<rparr>)"
    using ok by (intro item_ok_quantity)
  then have "list_all item_ok (T[i := (T ! i)\<lparr>quantity := min (quantity (T ! i) + quantity s) 10\<rparr>])"
    using assms(2) by (intro list_all_update)
  moreover have "w \<longrightarrow> lines_wf (T[i := (T ! i)\<lparr>quantity := min (quantity (T ! i) + quantity s) 10\<rparr>])"
    using assms(3) by (simp add: lines_wf_update_quantity)
  ultimately show ?thesis using assms(1) Some by (simp add: mergeItem_def MAX_QUANTITY_PER_ITEM_def)
qed

lemma merge_loop_inv:
  assumes "length T \<le> 50" "list_all item_ok T" "w \<longrightarrow> lines_wf T" "list_all item_ok S"
  shows "length (foldl mergeItem T S) \<le> 50 \<and> list_all item_ok (foldl mergeItem T S)
         \<and> (w \<longrightarrow> lines_wf (foldl mergeItem T S))"
  using assms
proof (induction S arbitrary: T)
  case Nil
  then show ?case by simp
next
  case (Cons s S)
  have s: "item_ok s" and S: "list_all item_ok S" using Cons.prems(4) by simp_all
  from mergeItem_inv[OF Cons.prems(1-3) s]
  have "length (mergeItem T s) \<le> 50" "list_all item_ok (mergeItem T s)"
    "w \<longrightarrow> lines_wf (mergeItem T s)"
    by simp_all
  from Cons.IH[OF this S] show ?case by simp
qed

lemma db_inv_mergeCarts:
  assumes "db_inv w d"
  shows "db_inv w (snd (mergeCartsController now d sf tf))"
proof -
  have m: "db_inv w (Cart_findByIdAndUpdate (cart_id sc) ''merged'' now
             (Cart_save (tc\<lparr>items := foldl mergeItem (items tc) (items sc),
                             totals := calculateCartTotals (foldl mergeItem (items tc) (items sc)),
                             updatedAt := Some now\<rparr>) d))"
    if "Cart_findOne_active src d = Some sc" "Cart_findOne_active tgt d = Some tc" for src tgt sc tc
  proof (rule db_inv_findByIdAndUpdate)
    have sm: "sc \<in> set (carts d)" and tm: "tc \<in> set (carts d)"
      using that by (auto dest: Cart_findOne_active_mem)
    have si: "cart_inv w sc" and ti: "cart_inv w tc" using assms sm tm by (auto dest: db_inv_cart)
    have l: "length (foldl mergeItem (items tc) (items sc)) \<le> 50
             \<and> list_all item_ok (foldl mergeItem (items tc) (items sc))
             \<and> (w \<longrightarrow> lines_wf (foldl mergeItem (items tc) (items sc)))"
      using si ti by (intro merge_loop_inv) (simp_all add: cart_inv_def)
    show "db_inv w (Cart_save (tc\<lparr>items := foldl mergeItem (items tc) (items sc),
                             totals := calculateCartTotals (foldl mergeItem (items tc) (items sc)),
                             updatedAt := Some now\<rparr>) d)"
      using assms tm l by (intro db_inv_save_items) simp_all
  qed
  show ?thesis using assms m
    by (auto simp: mergeCartsController_def Let_def split: option.splits)
qed

lemma db_inv_updateOrderStatus:
  assumes "db_inv w d"
  shows "db_inv w (snd (updateOrderStatusController d num sf))"
proof (cases sf)
  case None
  then show ?thesis using assms by (simp add: updateOrderStatusController_def)
next
  case (Some st)
  show ?thesis
  proof (cases "st = [] \<or> st \<notin> set validStatuses")
    case True
    then show ?thesis using assms Some by (simp add: updateOrderStatusController_def)
  next
    case False
    show ?thesis
    proof (cases "Order_findOne num d")
      case None
      then show ?thesis using assms Some False by (simp add: updateOrderStatusController_def)
    next
      case (Some ord)
      show ?thesis
        using assms \<open>sf = Some st\<close> False Some
        by (simp add: updateOrderStatusController_def Let_def db_inv_Order_save split: sum.splits)
    qed
  qed
qed

lemma db_inv_updatePaymentStatus:
  assumes "db_inv w d"
  shows "db_inv w (snd (updatePaymentStatusController d num sf))"
proof (cases sf)
  case None
  then show ?thesis using assms by (simp add: updatePaymentStatusController_def)
next
  case (Some ps)
  show ?thesis
  proof (cases "ps = [] \<or> ps \<notin> set validPaymentStatuses")
    case True
    then show ?thesis using assms Some by (simp add: updatePaymentStatusController_def)
  next
    case False
    show ?thesis
    proof (cases "Order_findOne num d")
      case None
      then show ?thesis using assms Some False by (simp add: updatePaymentStatusController_def)
    next
      case (Some ord)
      show ?thesis
        using assms \<open>sf = Some ps\<close> False Some
        by (simp add: updatePaymentStatusController_def Let_def db_inv_Order_save split: sum.splits)
    qed
  qed
qed

lemma createOrderController_db:
  "snd (createOrderController now d sf cf pf shf) = d
   \<or> (\<exists>doc ord d1 sid. Order_create doc d = Inr (ord, d1)
        \<and> snd (createOrderController now d sf cf pf shf) = Cart_findOneAndDelete sid d1)"
proof (cases sf)
  case None
  then show ?thesis by (simp add: createOrderController_def)
next
  case s: (Some sid)
  show ?thesis
  proof (cases cf)
    case None
    then show ?thesis using s by (simp add: createOrderController_def)
  next
    case c: (Some cust)
    show ?thesis
    proof (cases pf)
      case None
      then show ?thesis using s c by (simp add: createOrderController_def)
    next
      case p: (Some pm)
      show ?thesis
      proof (cases shf)
        case None
        then show ?thesis using s c p by (simp add: createOrderController_def)
      next
        case sh: (Some sh)
        show ?thesis
        proof (cases "Cart_findOne sid d")
          case None
          then show ?thesis using s c p sh by (simp add: createOrderController_def)
        next
          case (Some ct)
          show ?thesis using s c p sh Some
            by (simp add: createOrderController_def Let_def split: sum.splits) blast
        qed
      qed
    qed
  qed
qed

lemma db_inv_createOrder:
  assumes "db_inv w d"
  shows "db_inv w (snd (createOrderController now d sf cf pf shf))"
proof -
  from createOrderController_db[of now d sf cf pf shf]
  consider "snd (createOrderController now d sf cf pf shf) = d"
    | doc ord d1 sid where "Order_create doc d = Inr (ord, d1)"
        "snd (createOrderController now d sf cf pf shf) = Cart_findOneAndDelete sid d1"
    by blast
  then show ?thesis
  proof cases
    case 1
    then show ?thesis using assms by simp
  next
    case 2
    have "db_inv w d1" using assms 2(1) by (rule db_inv_Order_create)
    then show ?thesis unfolding 2(2) by (rule db_inv_delete)
  qed
qed

lemma db_inv_handle:
  "db_inv w d \<Longrightarrow> (w \<longrightarrow> ids_in_stored_form r) \<Longrightarrow> db_inv w (snd (handle tz now prods d r))"
  by (cases r)
     (simp_all add: db_inv_createCart db_inv_mergeCarts db_inv_getCart db_inv_addCartItem
        db_inv_updateCartItem db_inv_removeCartItem db_inv_clearCart db_inv_createOrder
        db_inv_updateOrderStatus db_inv_updatePaymentStatus getOrderByNumberController_def
        split: option.splits)

lemma db_inv_step:
  "db_inv w d \<Longrightarrow> (w \<longrightarrow> ids_in_stored_form (snd (snd ev))) \<Longrightarrow> db_inv w (step tz d ev)"
  by (cases ev) (simp add: step_def db_inv_handle)

lemma db_inv_run:
  "db_inv w d \<Longrightarrow> (w \<longrightarrow> list_all (\<lambda>ev. ids_in_stored_form (snd (snd ev))) evs)
   \<Longrightarrow> db_inv w (run tz d evs)"
  unfolding run_def by (induction evs arbitrary: d) (simp_all add: db_inv_step)

lemma db_inv_init: "db_inv w init_db"
  by (simp add: db_inv_def init_db_def)

text \<open>Every store that the controllers reach from the empty one is at rest; when every
  request named its ids in stored form, the lines of every cart are also in the order
  that the lookups rely on.\<close>

lemma db_inv_reachable: "db_inv False (run tz init_db evs)"
  using db_inv_init by (rule db_inv_run) simp


section \<open>Carts at rest\<close>

lemma ex_step1:
  "step zone_utc init_db (1000, ex_products, CreateCart (Some ''s1''))
   = \<lparr>carts = [\<lparr>cart_id = 0, sessionId = ''s1'', items = [], status = ''active'',
                 totals = \<lparr>subtotal = 0, tax = 0, total = 0\<rparr>, updatedAt = None\<rparr>],
      orders = [], next_id = 1\<rparr>"
  by (simp add: step_def createCartController_def Cart_findOne_def Cart_create_def init_db_def Let_def)

lemma ex_step2:
  "step zone_utc \<lparr>carts = [\<lparr>cart_id = 0, sessionId = ''s1'', items = [], status = ''active'',
                 totals = \<lparr>subtotal = 0, tax = 0, total = 0\<rparr>, updatedAt = None\<rparr>],
      orders = [], next_id = 1\<rparr> (2000, ex_products, AddCartItem ''s1'' (Some ex_id1) (Some 2) None)
   = \<lparr>carts = [\<lparr>cart_id = 0, sessionId = ''s1'',
                 items = [\<lparr>item_id = 1, product = 1, variant = None, quantity = 2, price = 10\<rparr>],
                 status = ''active'',
                 totals = calculateCartTotals [\<lparr>item_id = 1, product = 1, variant = None, quantity = 2, price = 10\<rparr>],
                 updatedAt = Some 2000\<rparr>],
      orders = [], next_id = 2\<rparr>"
  by (simp add: step_def addCartItemController_def Cart_findOne_def Cart_save_def isCartExpired_def
        MIN_QUANTITY_PER_ITEM_def MAX_QUANTITY_PER_ITEM_def MAX_ITEMS_PER_CART_def
        ex_products_def cast_ex_id1 ex_ids_distinct Let_def)

lemma ex_step3:
  "step zone_utc \<lparr>carts = [\<lparr>cart_id = 0, sessionId = ''s1'',
                 items = [\<lparr>item_id = 1, product = 1, variant = None, quantity = 2, price = 10\<rparr>],
                 status = ''active'',
                 totals = calculateCartTotals [\<lparr>item_id = 1, product = 1, variant = None, quantity = 2, price = 10\<rparr>],
                 updatedAt = Some 2000\<rparr>],
      orders = [], next_id = 2\<rparr> (3000, ex_products, AddCartItem ''s1'' (Some ex_id2) (Some 1) None)
   = ex_db"
  by (simp add: step_def addCartItemController_def Cart_findOne_def Cart_save_def isCartExpired_def
        setHours_getHours_plus_def LocalTime_def UTC_def msPerHour_def zone_utc_def
        CART_EXPIRATION_HOURS_def
        MIN_QUANTITY_PER_ITEM_def MAX_QUANTITY_PER_ITEM_def MAX_ITEMS_PER_CART_def
        ex_products_def cast_ex_id2 ex_ids_distinct line_selected_def falsy_def
        toString_1 toString_Suc_0 Let_def ex_db_def ex_cart_def ex_items_def)

lemma ex_run: "run zone_utc init_db ex_events = ex_db"
  by (simp only: run_def ex_events_def foldl_Cons foldl_Nil ex_step1 ex_step2 ex_step3)

text \<open>
  C1. After any sequence of requests served from the empty store (create, merge, get,
  add, update, remove, clear, and the order requests), every stored cart has at most 50
  lines, every line has a quantity from 1 to 10, and the stored totals are
  \<open>calculateCartTotals\<close> of the stored lines.
\<close>

theorem carts_at_rest_invariant:
  "\<forall>c \<in> set (carts (run tz init_db evs)).
     length (items c) \<le> 50
     \<and> (\<forall>i \<in> set (items c). 1 \<le> quantity i \<and> quantity i \<le> 10)
     \<and> totals c = calculateCartTotals (items c)"
proof
  fix c
  assume "c \<in> set (carts (run tz init_db evs))"
  with db_inv_reachable[of tz evs] have "cart_inv False c" by (rule db_inv_cart)
  then show "length (items c) \<le> 50
     \<and> (\<forall>i \<in> set (items c). 1 \<le> quantity i \<and> quantity i \<le> 10)
     \<and> totals c = calculateCartTotals (items c)"
    by (simp add: cart_inv_def list_all_iff item_ok_def)
qed

theorem carts_at_rest_invariant_witness:
  "ex_cart \<in> set (carts (run zone_utc init_db ex_events))
   \<and> length (items ex_cart) \<le> 50
   \<and> list_all (\<lambda>i. 1 \<le> quantity i \<and> quantity i \<le> 10) (items ex_cart)
   \<and> totals ex_cart = calculateCartTotals (items ex_cart)"
proof -
  have m: "ex_cart \<in> set (carts (run zone_utc init_db ex_events))" by (simp add: ex_run ex_db_def)
  show ?thesis using carts_at_rest_invariant[of zone_utc ex_events] m by (auto simp: list_all_iff)
qed

section \<open>Creating an order\<close>

lemma js_mul_10_2: "js_mul 10 2 = 20" by code_simp
lemma js_add_0_20: "js_add 0 20 = 20" by code_simp
lemma js_mul_5_1: "js_mul 5 1 = 5" by code_simp
lemma js_add_20_5: "js_add 20 5 = 25" by code_simp
lemma js_mul_25_rate: "js_mul 25 (js_Number (9 / 100)) = 9 / 4" by code_simp
lemma js_add_25_tax: "js_add 25 (9 / 4) = 109 / 4" by code_simp
lemma js_add_shipping: "js_add (109 / 4) 3 = 121 / 4" by code_simp

lemma find_remove_first_None:
  "distinct (map f xs) \<Longrightarrow> find (\<lambda>c. f c = k) (remove_first (\<lambda>c. f c = k) xs) = None"
proof (induction xs)
  case Nil
  then show ?case by simp
next
  case (Cons x xs)
  show ?case
  proof (cases "f x = k")
    case True
    then have "\<forall>y \<in> set xs. f y \<noteq> k" using Cons.prems by (auto simp: image_iff)
    then show ?thesis using True by (simp add: find_None_iff)
  next
    case False
    then show ?thesis using Cons by simp
  qed
qed

lemma Cart_findOne_deleted:
  "db_inv w d \<Longrightarrow> Cart_findOne sid (Cart_findOneAndDelete sid d) = None"
  by (simp add: Cart_findOne_def Cart_findOneAndDelete_def db_inv_def find_remove_first_None)

text \<open>
  In a store reached from the empty one, a cart whose lines are 2 at price 10 and 1 at
  price 5 is turned into an order with shipping cost 3. If no stored order carries the
  number built from the current time, the order is created with subtotal 25, tax 2.25
  and total 30.25 (all exact as Numbers), it holds the cart's lines, and afterwards the
  session has no cart. If a stored order carries that number, the creation fails with
  status 500 and the store, the cart included, is as before.
\<close>

lemma createOrder_example_totals:
  assumes reach: "d = run tz init_db evs"
    and found: "Cart_findOne sid d = Some c"
    and lines: "map (\<lambda>i. (price i, quantity i)) (items c) = [(10, 2), (5, 1)]"
    and ship: "cost sh = 3"
    and fields: "sid \<noteq> []" "pm \<noteq> []"
  shows "((\<forall>x \<in> set (orders d). orderNumber x \<noteq> ''ORD-'' @ ToString_nat now) \<longrightarrow>
           (\<exists>ord d'. createOrderController now d (Some sid) (Some cust) (Some pm) (Some sh)
                        = (Inr (OrderDoc ord), d')
              \<and> order_subtotal ord = 25 \<and> order_tax ord = 9 / 4 \<and> order_total ord = 121 / 4
              \<and> order_items ord = items c \<and> ord \<in> set (orders d')
              \<and> Cart_findOne sid d' = None))
       \<and> ((\<exists>x \<in> set (orders d). orderNumber x = ''ORD-'' @ ToString_nat now) \<longrightarrow>
           createOrderController now d (Some sid) (Some cust) (Some pm) (Some sh)
             = (Inl (HttpError 500 ''Failed to create order''), d))"
proof (intro conjI impI)
  obtain i1 i2 where its: "items c = [i1, i2]"
    and v: "price i1 = 10" "quantity i1 = 2" "price i2 = 5" "quantity i2 = 1"
    using lines by (auto simp: map_eq_Cons_conv)
  have sub: "order_subtotal_of (items c) = 25"
    by (simp add: order_subtotal_of_def its v js_mul_10_2 js_add_0_20 js_mul_5_1 js_add_20_5)
  have ne: "length (items c) \<noteq> 0" using its by simp
  let ?doc = "\<lparr>order_id = 0, orderNumber = ''ORD-'' @ ToString_nat now, customer = cust,
               order_items = items c, order_subtotal = 25, order_tax = 9 / 4,
               shipping = sh, order_total = 121 / 4, order_status = ''pending'',
               paymentStatus = ''pending'', paymentMethod = pm\<rparr>"
  have ctl: "createOrderController now d (Some sid) (Some cust) (Some pm) (Some sh)
             = (case Order_create ?doc d of
                  Inl e \<Rightarrow> (Inl (HttpError 500 ''Failed to create order''), d)
                | Inr (ord, d1) \<Rightarrow> (Inr (OrderDoc ord), Cart_findOneAndDelete sid d1))"
    using found fields ne
    by (simp add: createOrderController_def Let_def sub ship js_mul_25_rate js_add_25_tax js_add_shipping)
  {
    assume fresh: "\<forall>x \<in> set (orders d). orderNumber x \<noteq> ''ORD-'' @ ToString_nat now"
    let ?ord = "?doc\<lparr>order_id := next_id d\<rparr>"
    let ?d1 = "d\<lparr>orders := orders d @ [?ord], next_id := next_id d + 1\<rparr>"
    have oc: "Order_create ?doc d = Inr (?ord, ?d1)"
      using fresh by (simp add: Order_create_def Let_def)
    have inv: "db_inv False ?d1"
      using db_inv_reachable[of tz evs] reach oc by (auto dest: db_inv_Order_create)
    have r: "createOrderController now d (Some sid) (Some cust) (Some pm) (Some sh)
             = (Inr (OrderDoc ?ord), Cart_findOneAndDelete sid ?d1)"
      unfolding ctl oc by simp
    have gone: "Cart_findOne sid (Cart_findOneAndDelete sid ?d1) = None"
      using inv by (rule Cart_findOne_deleted)
    have mem: "?ord \<in> set (orders (Cart_findOneAndDelete sid ?d1))"
      by (simp add: Cart_findOneAndDelete_def)
    show "\<exists>ord d'. createOrderController now d (Some sid) (Some cust) (Some pm) (Some sh)
                        = (Inr (OrderDoc ord), d')
              \<and> order_subtotal ord = 25 \<and> order_tax ord = 9 / 4 \<and> order_total ord = 121 / 4
              \<and> order_items ord = items c \<and> ord \<in> set (orders d')
              \<and> Cart_findOne sid d' = None"
      using r gone mem
      by (intro exI[of _ ?ord] exI[of _ "Cart_findOneAndDelete sid ?d1"]) simp
  }
  {
    assume dup: "\<exists>x \<in> set (orders d). orderNumber x = ''ORD-'' @ ToString_nat now"
    have oc: "Order_create ?doc d = Inl (MongoDuplicateKey ''orderNumber'')"
      using dup by (simp add: Order_create_def)
    show "createOrderController now d (Some sid) (Some cust) (Some pm) (Some sh)
             = (Inl (HttpError 500 ''Failed to create order''), d)"
      unfolding ctl oc by simp
  }
qed

lemma ToString_4000: "ToString_nat 4000 = ''4000''"
  by (simp add: ToString_nat.simps)

text \<open>
  C2. Two sessions each hold a cart that is not expired; the cart of s1 has the lines
  of the claim, 2 at price 10 and 1 at price 5. Session s2 creates an order at time
  4000, which gets the number ORD-4000. Session s1 creates its order in the same
  millisecond, with shipping cost 3: the number built from the time is taken, the insert
  is refused, the controller answers 500, no order with subtotal 25, tax 2.25 and total
  30.25 is produced, and the cart of s1 still exists.
\<close>

theorem createOrder_example_fails_on_taken_number:
  "Cart_findOne ''s1'' ex_two_carts_db = Some ex_cart
   \<and> map (\<lambda>i. (price i, quantity i)) (items ex_cart) = [(10, 2), (5, 1)]
   \<and> \<not> isCartExpired zone_utc 4000 ex_cart
   \<and> cost ex_shipping = 3
   \<and> (case createOrderController 4000 ex_two_carts_db (Some ''s2'') (Some 8) (Some ''card'') (Some ex_shipping) of
        (r2, d2) \<Rightarrow>
          map orderNumber (orders d2) = [''ORD-4000'']
          \<and> Cart_findOne ''s1'' d2 = Some ex_cart
          \<and> createOrderController 4000 d2 (Some ''s1'') (Some 7) (Some ''card'') (Some ex_shipping)
              = (Inl (HttpError 500 ''Failed to create order''), d2))"
  by (simp add: createOrderController_def Cart_findOne_def Order_create_def Cart_findOneAndDelete_def
        isCartExpired_def setHours_getHours_plus_def LocalTime_def UTC_def msPerHour_def
        zone_utc_def CART_EXPIRATION_HOURS_def
        ex_two_carts_db_def ex_cart_def ex_cart2_def ex_items_def ex_shipping_def ToString_4000 Let_def)

section \<open>Matching a request without variant\<close>

lemma findIndex_first:
  "j < length xs \<Longrightarrow> P (xs ! j) \<Longrightarrow> \<forall>i<j. \<not> P (xs ! i) \<Longrightarrow> findIndex P xs = Some j"
proof (induction xs arbitrary: j)
  case Nil
  then show ?case by simp
next
  case (Cons x xs)
  show ?case
  proof (cases j)
    case 0
    then show ?thesis using Cons.prems by simp
  next
    case (Suc k)
    have nx: "\<not> P x" using Cons.prems(3) Suc by auto
    have "findIndex P xs = Some k"
    proof (rule Cons.IH)
      show "k < length xs" using Cons.prems(1) Suc by simp
      show "P (xs ! k)" using Cons.prems(2) Suc by simp
      show "\<forall>i<k. \<not> P (xs ! i)" using Cons.prems(3) Suc by auto
    qed
    then show ?thesis using nx Suc by simp
  qed
qed

lemma first_product_line:
  assumes "k < length xs" "product (xs ! k) = pid"
  shows "\<exists>j\<le>k. product (xs ! j) = pid \<and> (\<forall>i<j. product (xs ! i) \<noteq> pid)"
proof -
  define j where "j = (LEAST i. product (xs ! i) = pid)"
  have a: "product (xs ! j) = pid" unfolding j_def using assms(2) by (rule LeastI)
  have b: "j \<le> k" unfolding j_def using assms(2) by (rule Least_le)
  have c: "\<forall>i<j. product (xs ! i) \<noteq> pid" unfolding j_def by (auto dest: not_less_Least)
  from a b c show ?thesis by blast
qed

lemma ex_two_lines_step3:
  "step zone_utc \<lparr>carts = [\<lparr>cart_id = 0, sessionId = ''s1'',
                 items = [\<lparr>item_id = 1, product = 1, variant = None, quantity = 2, price = 10\<rparr>],
                 status = ''active'',
                 totals = calculateCartTotals [\<lparr>item_id = 1, product = 1, variant = None, quantity = 2, price = 10\<rparr>],
                 updatedAt = Some 2000\<rparr>],
      orders = [], next_id = 2\<rparr> (3000, ex_products, AddCartItem ''s1'' (Some ex_id1) (Some 3) (Some ex_id5))
   = ex_two_lines_db"
  by (simp add: step_def addCartItemController_def Cart_findOne_def Cart_save_def isCartExpired_def
        setHours_getHours_plus_def LocalTime_def UTC_def msPerHour_def zone_utc_def
        CART_EXPIRATION_HOURS_def
        MIN_QUANTITY_PER_ITEM_def MAX_QUANTITY_PER_ITEM_def MAX_ITEMS_PER_CART_def
        ex_products_def cast_ex_id1 cast_ex_id5 ex_ids_distinct line_selected_def falsy_def
        toString_1 toString_Suc_0 Let_def ex_two_lines_db_def ex_two_lines_cart_def
        ex_plain_line_def ex_variant_line_def)

lemma ex_two_lines_run: "run zone_utc init_db ex_two_lines_events = ex_two_lines_db"
  by (simp only: run_def ex_two_lines_events_def foldl_Cons foldl_Nil ex_step1 ex_step2
        ex_two_lines_step3)

text \<open>
  C10, as stated, at a cart that two requests have filled: 2 of product 1 without
  variant, then 3 of product 1 in variant 5, which no line matched and which was
  appended. The cart is active and holds a line for product 1 with the variant 5. A
  request for 1 of product 1 without a variantId is added to the first line, the one
  without variant, which becomes 3; the line with variant 5 keeps its quantity 3.
\<close>

theorem variantless_request_passes_variant_line:
  "run zone_utc init_db ex_two_lines_events = ex_two_lines_db
   \<and> Cart_findOne ''s1'' ex_two_lines_db = Some ex_two_lines_cart
   \<and> status ex_two_lines_cart = ''active''
   \<and> items ex_two_lines_cart = [ex_plain_line, ex_variant_line]
   \<and> product ex_variant_line = 1 \<and> variant ex_variant_line = Some 5
   \<and> quantity ex_variant_line = 3
   \<and> variant ex_plain_line = None \<and> quantity ex_plain_line = 2
   \<and> castObjectId ex_id1 = Some 1
   \<and> fst (addCartItemController zone_utc 4000 ex_products ex_two_lines_db ''s1'' (Some ex_id1) (Some 1) None)
       = Inr (CartDoc (ex_two_lines_cart
            \<lparr>items := [ex_plain_line\<lparr>quantity := 3\<rparr>, ex_variant_line],
             totals := calculateCartTotals [ex_plain_line\<lparr>quantity := 3\<rparr>, ex_variant_line],
             updatedAt := Some 4000\<rparr>))"
proof -
  have f: "Cart_findOne ''s1'' ex_two_lines_db = Some ex_two_lines_cart"
    by (simp add: Cart_findOne_def ex_two_lines_db_def ex_two_lines_cart_def)
  have a: "fst (addCartItemController zone_utc 4000 ex_products ex_two_lines_db ''s1'' (Some ex_id1) (Some 1) None)
       = Inr (CartDoc (ex_two_lines_cart
            \<lparr>items := [ex_plain_line\<lparr>quantity := 3\<rparr>, ex_variant_line],
             totals := calculateCartTotals [ex_plain_line\<lparr>quantity := 3\<rparr>, ex_variant_line],
             updatedAt := Some 4000\<rparr>))"
    using f
    by (simp add: addCartItemController_def isCartExpired_def
          setHours_getHours_plus_def LocalTime_def UTC_def msPerHour_def zone_utc_def
          CART_EXPIRATION_HOURS_def
          MIN_QUANTITY_PER_ITEM_def MAX_QUANTITY_PER_ITEM_def MAX_ITEMS_PER_CART_def
          ex_products_def cast_ex_id1 ex_ids_distinct line_selected_def falsy_def
          toString_1 toString_Suc_0 Let_def ex_two_lines_cart_def
          ex_plain_line_def ex_variant_line_def)
  have l: "items ex_two_lines_cart = [ex_plain_line, ex_variant_line]"
    "status ex_two_lines_cart = ''active''"
    by (simp_all add: ex_two_lines_cart_def)
  have v: "product ex_variant_line = 1" "variant ex_variant_line = Some 5"
    "quantity ex_variant_line = 3" "variant ex_plain_line = None" "quantity ex_plain_line = 2"
    by (simp_all add: ex_variant_line_def ex_plain_line_def)
  from ex_two_lines_run f a l v cast_ex_id1 show ?thesis by simp
qed

text \<open>
  C10, amended. In a store reached from the empty one, an active cart that is not
  expired and has fewer than 50 lines holds a line \<open>k\<close> for product \<open>pid\<close> with a
  variant. A request to add \<open>q\<close> (from 1 to 10) of that product, named by the lower-case
  string of its id and without a variantId, while the product is active and has \<open>q\<close>
  units available, selects the cart's first line \<open>j\<close> for the product, whatever its
  variant; this is line \<open>k\<close> itself when no line before it is for the product. The
  request adds \<open>q\<close> to that line, or fails when the sum exceeds 10; in neither case is a
  line appended. An iteration of the merge loop for a source item of the product without
  variant selects the same line and sets it to the sum capped at 10, and so does a whole
  merge from a source cart with that one item.
\<close>

theorem variantless_request_joins_first_product_line:
  assumes reach: "d = run tz init_db evs"
    and found: "Cart_findOne sid d = Some c"
    and fresh: "\<not> isCartExpired tz now c"
    and active: "status c = ''active''"
    and room: "length (items c) < 50"
    and prod: "prods pid = Some p" "isActive p" "q \<le> inventory_quantity p - inventory_reserved p"
    and q: "1 \<le> q" "q \<le> 10"
    and line: "k < length (items c)" "product (items c ! k) = pid" "variant (items c ! k) = Some v"
    and src: "product sourceItem = pid" "variant sourceItem = None"
  shows "\<exists>j\<le>k.
           product (items c ! j) = pid \<and> (\<forall>i<j. product (items c ! i) \<noteq> pid)
         \<and> ((\<forall>i<k. product (items c ! i) \<noteq> pid) \<longrightarrow> j = k)
         \<and> addCartItemController tz now prods d sid (Some (ObjectId_toString pid)) (Some q) None
           = (if 10 < quantity (items c ! j) + q
              then (Inl (HttpError 400 ''Cannot add more than 10 units of an item''), d)
              else (Inr (CartDoc (c\<lparr>items := (items c)[j := (items c ! j)\<lparr>quantity := quantity (items c ! j) + q\<rparr>],
                                      totals := calculateCartTotals ((items c)[j := (items c ! j)\<lparr>quantity := quantity (items c ! j) + q\<rparr>]),
                                      updatedAt := Some now\<rparr>)),
                    Cart_save (c\<lparr>items := (items c)[j := (items c ! j)\<lparr>quantity := quantity (items c ! j) + q\<rparr>],
                                 totals := calculateCartTotals ((items c)[j := (items c ! j)\<lparr>quantity := quantity (items c ! j) + q\<rparr>]),
                                 updatedAt := Some now\<rparr>) d))
         \<and> mergeItem (items c) sourceItem
           = (items c)[j := (items c ! j)\<lparr>quantity := min (quantity (items c ! j) + quantity sourceItem) 10\<rparr>]
         \<and> (source \<noteq> [] \<and> sid \<noteq> [] \<and> Cart_findOne_active source d = Some sc \<and> items sc = [sourceItem]
              \<and> Cart_findOne_active sid d = Some c \<longrightarrow>
            fst (mergeCartsController now d (Some source) (Some sid))
             = Inr (CartDoc (c\<lparr>items := (items c)[j := (items c ! j)\<lparr>quantity := min (quantity (items c ! j) + quantity sourceItem) 10\<rparr>],
                                totals := calculateCartTotals ((items c)[j := (items c ! j)\<lparr>quantity := min (quantity (items c ! j) + quantity sourceItem) 10\<rparr>]),
                                updatedAt := Some now\<rparr>)))"
proof -
  have inv: "db_inv False d" unfolding reach by (rule db_inv_reachable)
  have ok: "list_all item_ok (items c)" using inv found by (rule found_inv(2))
  have bound: "product (items c ! i) < 16 ^ 24" if "i < length (items c)" for i
  proof -
    have "item_ok (items c ! i)" using ok that by (simp add: list_all_length)
    then show ?thesis by (rule item_ok_product)
  qed
  have pb: "pid < 16 ^ 24" using bound[OF line(1)] line(2) by simp
  obtain j where jk: "j \<le> k" and pj: "product (items c ! j) = pid"
    and first: "\<forall>i<j. product (items c ! i) \<noteq> pid"
    using first_product_line[OF line(1,2)] by blast
  have jl: "j < length (items c)" using jk line(1) by simp
  have same: "(\<forall>i<k. product (items c ! i) \<noteq> pid) \<longrightarrow> j = k"
    using jk pj by (auto simp: le_less)
  have m: "line_matches pid None (items c ! j)" using pj by (simp add: line_matches_def)
  have n: "\<forall>i<j. \<not> line_matches pid None (items c ! i)" using first by (simp add: line_matches_def)
  have fi: "findIndex (line_matches pid None) (items c) = Some j"
    using jl m n by (rule findIndex_first)
  have ms: "line_selected (ObjectId_toString pid) None (items c ! j)"
    using pj by (simp add: line_selected_def falsy_def)
  have ns: "\<forall>i<j. \<not> line_selected (ObjectId_toString pid) None (items c ! i)"
  proof (intro allI impI)
    fix i
    assume i: "i < j"
    then have il: "i < length (items c)" using jl by simp
    have "product (items c ! i) \<noteq> pid" using first i by simp
    then have "ObjectId_toString (product (items c ! i)) \<noteq> ObjectId_toString pid"
      using ObjectId_toString_inj[OF bound[OF il] pb] by blast
    then show "\<not> line_selected (ObjectId_toString pid) None (items c ! i)"
      by (simp add: line_selected_def)
  qed
  have fs: "findIndex (line_selected (ObjectId_toString pid) None) (items c) = Some j"
    using jl ms ns by (rule findIndex_first)
  have A: "addCartItemController tz now prods d sid (Some (ObjectId_toString pid)) (Some q) None
           = (if 10 < quantity (items c ! j) + q
              then (Inl (HttpError 400 ''Cannot add more than 10 units of an item''), d)
              else (Inr (CartDoc (c\<lparr>items := (items c)[j := (items c ! j)\<lparr>quantity := quantity (items c ! j) + q\<rparr>],
                                      totals := calculateCartTotals ((items c)[j := (items c ! j)\<lparr>quantity := quantity (items c ! j) + q\<rparr>]),
                                      updatedAt := Some now\<rparr>)),
                    Cart_save (c\<lparr>items := (items c)[j := (items c ! j)\<lparr>quantity := quantity (items c ! j) + q\<rparr>],
                                 totals := calculateCartTotals ((items c)[j := (items c ! j)\<lparr>quantity := quantity (items c ! j) + q\<rparr>]),
                                 updatedAt := Some now\<rparr>) d))"
    using found fresh active room prod q fs castObjectId_toString[OF pb]
    by (simp add: addCartItemController_def MIN_QUANTITY_PER_ITEM_def MAX_QUANTITY_PER_ITEM_def
          MAX_ITEMS_PER_CART_def Let_def ObjectId_toString_nonempty)
  have B: "mergeItem (items c) sourceItem
           = (items c)[j := (items c ! j)\<lparr>quantity := min (quantity (items c ! j) + quantity sourceItem) 10\<rparr>]"
    using fi src by (simp add: mergeItem_def MAX_QUANTITY_PER_ITEM_def)
  have C: "source \<noteq> [] \<and> sid \<noteq> [] \<and> Cart_findOne_active source d = Some sc \<and> items sc = [sourceItem]
            \<and> Cart_findOne_active sid d = Some c \<longrightarrow>
          fst (mergeCartsController now d (Some source) (Some sid))
           = Inr (CartDoc (c\<lparr>items := (items c)[j := (items c ! j)\<lparr>quantity := min (quantity (items c ! j) + quantity sourceItem) 10\<rparr>],
                              totals := calculateCartTotals ((items c)[j := (items c ! j)\<lparr>quantity := min (quantity (items c ! j) + quantity sourceItem) 10\<rparr>]),
                              updatedAt := Some now\<rparr>))"
    using B by (simp add: mergeCartsController_def Let_def)
  from jk pj first same A B C show ?thesis by blast
qed

lemma ex_variant_step2:
  "step zone_utc \<lparr>carts = [\<lparr>cart_id = 0, sessionId = ''s1'', items = [], status = ''active'',
                 totals = \<lparr>subtotal = 0, tax = 0, total = 0\<rparr>, updatedAt = None\<rparr>],
      orders = [], next_id = 1\<rparr>
     (2000, ex_products, AddCartItem ''s1'' (Some ex_id1) (Some 2) (Some ex_id5))
   = \<lparr>carts = [ex_variant_cart], orders = [], next_id = 2\<rparr>"
  by (simp add: step_def addCartItemController_def Cart_findOne_def Cart_save_def isCartExpired_def
        MIN_QUANTITY_PER_ITEM_def MAX_QUANTITY_PER_ITEM_def MAX_ITEMS_PER_CART_def
        ex_products_def cast_ex_id1 cast_ex_id5 ex_ids_distinct Let_def
        ex_variant_cart_def ex_variant_item_def)

lemma ex_variant_step3:
  "step zone_utc \<lparr>carts = [ex_variant_cart], orders = [], next_id = 2\<rparr>
     (3000, ex_products, CreateCart (Some ''s2''))
   = \<lparr>carts = [ex_variant_cart,
               \<lparr>cart_id = 2, sessionId = ''s2'', items = [], status = ''active'',
                 totals = \<lparr>subtotal = 0, tax = 0, total = 0\<rparr>, updatedAt = None\<rparr>],
      orders = [], next_id = 3\<rparr>"
  by (simp add: step_def createCartController_def Cart_findOne_def Cart_create_def Let_def
        ex_variant_cart_def)

lemma ex_variant_step4:
  "step zone_utc \<lparr>carts = [ex_variant_cart,
               \<lparr>cart_id = 2, sessionId = ''s2'', items = [], status = ''active'',
                 totals = \<lparr>subtotal = 0, tax = 0, total = 0\<rparr>, updatedAt = None\<rparr>],
      orders = [], next_id = 3\<rparr> (4000, ex_products, AddCartItem ''s2'' (Some ex_id1) (Some 5) None)
   = ex_variant_db"
  by (simp add: step_def addCartItemController_def Cart_findOne_def Cart_save_def isCartExpired_def
        MIN_QUANTITY_PER_ITEM_def MAX_QUANTITY_PER_ITEM_def MAX_ITEMS_PER_CART_def
        ex_products_def cast_ex_id1 ex_ids_distinct Let_def ex_variant_db_def ex_variant_cart_def
        ex_limit_source_def ex_five_def)

lemma ex_variant_run: "run zone_utc init_db ex_variant_events = ex_variant_db"
  by (simp only: run_def ex_variant_events_def foldl_Cons foldl_Nil
        ex_step1 ex_variant_step2 ex_variant_step3 ex_variant_step4)

theorem variantless_request_joins_first_product_line_witness:
  "Cart_findOne ''s1'' (run zone_utc init_db ex_variant_events) = Some ex_variant_cart
   \<and> variant (items ex_variant_cart ! 0) = Some 5
   \<and> ObjectId_toString 1 = ex_id1
   \<and> fst (addCartItemController zone_utc 5000 ex_products (run zone_utc init_db ex_variant_events)
            ''s1'' (Some ex_id1) (Some 3) None)
       = Inr (CartDoc (ex_variant_cart\<lparr>items := [ex_variant_item\<lparr>quantity := 5\<rparr>],
                                       totals := calculateCartTotals [ex_variant_item\<lparr>quantity := 5\<rparr>],
                                       updatedAt := Some 5000\<rparr>))
   \<and> fst (mergeCartsController 5000 (run zone_utc init_db ex_variant_events) (Some ''s2'') (Some ''s1''))
       = Inr (CartDoc (ex_variant_cart\<lparr>items := [ex_variant_item\<lparr>quantity := 7\<rparr>],
                                       totals := calculateCartTotals [ex_variant_item\<lparr>quantity := 7\<rparr>],
                                       updatedAt := Some 5000\<rparr>))"
proof -
  let ?d = "run zone_utc init_db ex_variant_events"
  let ?pr = "\<lparr>product_price = 10, isActive = True, inventory_quantity = 10, inventory_reserved = 0\<rparr>"
  have found: "Cart_findOne ''s1'' ?d = Some ex_variant_cart"
    by (simp add: ex_variant_run Cart_findOne_def ex_variant_db_def ex_variant_cart_def)
  have fresh: "\<not> isCartExpired zone_utc 5000 ex_variant_cart"
    by (simp add: isCartExpired_def setHours_getHours_plus_def LocalTime_def UTC_def msPerHour_def
          zone_utc_def CART_EXPIRATION_HOURS_def ex_variant_cart_def)
  have active: "status ex_variant_cart = ''active''" by (simp add: ex_variant_cart_def)
  have room: "length (items ex_variant_cart) < 50" by (simp add: ex_variant_cart_def)
  have prod: "ex_products 1 = Some ?pr" "isActive ?pr"
    "3 \<le> inventory_quantity ?pr - inventory_reserved ?pr"
    by (simp_all add: ex_products_def)
  have q: "(1::int) \<le> 3" "(3::int) \<le> 10" by simp_all
  have line: "0 < length (items ex_variant_cart)" "product (items ex_variant_cart ! 0) = 1"
    "variant (items ex_variant_cart ! 0) = Some 5"
    by (simp_all add: ex_variant_cart_def ex_variant_item_def)
  have src: "product ex_five = 1" "variant ex_five = None" by (simp_all add: ex_five_def)
  have sa: "Cart_findOne_active ''s2'' ?d = Some ex_limit_source"
    by (simp add: ex_variant_run Cart_findOne_active_def ex_variant_db_def ex_variant_cart_def
          ex_limit_source_def)
  have ta: "Cart_findOne_active ''s1'' ?d = Some ex_variant_cart"
    by (simp add: ex_variant_run Cart_findOne_active_def ex_variant_db_def ex_variant_cart_def)
  have si: "items ex_limit_source = [ex_five]" "quantity ex_five = 5"
    by (simp_all add: ex_limit_source_def ex_five_def)
  have it: "items ex_variant_cart = [ex_variant_item]" "quantity ex_variant_item = 2"
    by (simp_all add: ex_variant_cart_def ex_variant_item_def)
  note inst = variantless_request_joins_first_product_line
    [where sid = "''s1''" and d = ?d and tz = zone_utc and evs = ex_variant_events
       and c = ex_variant_cart and now = 5000
       and prods = ex_products and pid = 1 and q = 3 and k = 0 and v = 5 and p = ?pr
       and sourceItem = ex_five and source = "''s2''" and sc = ex_limit_source,
     OF refl found fresh active room prod q line src]
  show ?thesis
    using inst found line(3) sa ta si it toString_1 by simp
qed

section \<open>The quantity limit on add and on merge\<close>


















text \<open>
  The same product named with a letter of its id in upper case: the product is found,
  because the lookup casts the string, but no line is selected, because the strings are
  compared as they are. A cart with a line of 9 for product 10 gets a second line for
  it, of 2.
\<close>

lemma add_with_upper_case_id_appends_line:
  "castObjectId ex_id10_upper = castObjectId ex_id10
   \<and> fst (addCartItemController zone_utc 3000 ex_products_ten ex_ten_db ''s1''
            (Some ex_id10_upper) (Some 2) None)
       = Inr (CartDoc (ex_ten_cart
           \<lparr>items := [ex_ten_line,
                      \<lparr>item_id = 2, product = 10, variant = None, quantity = 2, price = 10\<rparr>],
            totals := calculateCartTotals
                     [ex_ten_line,
                      \<lparr>item_id = 2, product = 10, variant = None, quantity = 2, price = 10\<rparr>],
            updatedAt := Some 3000\<rparr>))"
  by (simp add: addCartItemController_def Cart_findOne_def isCartExpired_def
        setHours_getHours_plus_def LocalTime_def UTC_def msPerHour_def zone_utc_def
        CART_EXPIRATION_HOURS_def
        MIN_QUANTITY_PER_ITEM_def MAX_QUANTITY_PER_ITEM_def MAX_ITEMS_PER_CART_def
        cast_ex_id10 cast_ex_id10_upper ex_ids_distinct ex_products_ten_def line_selected_def
        falsy_def toString_10 Let_def ex_ten_db_def ex_ten_cart_def ex_ten_line_def)



end
